(* ===== verification/Prelude.thy ===== *)
theory Prelude
  imports Main "HOL-Library.AList"
begin

text \<open>
  The shared part of the development: the collections of facts that the component
  theories extend, and a small library of table operations.  A relational table is a
  list of rows in physical order; the SQL statements of the program are written with the
  operations below, and the locale \<open>keyed_table\<close> states once what a primary key
  or unique constraint gives to every table.
\<close>

named_theorems run_defs \<open>definitions to unfold when a computation is evaluated\<close>
named_theorems frame_rules \<open>operations that leave a component of the state alone\<close>
named_theorems inv_rules \<open>operations that keep an invariant\<close>

section \<open>Generic list facts\<close>

lemma find_append:
  "List.find p (xs @ ys) = (case List.find p xs of None \<Rightarrow> List.find p ys | Some x \<Rightarrow> Some x)"
  by (induction xs) auto

lemma find_None_iff_filter: "List.find p xs = None \<longleftrightarrow> filter p xs = []"
  by (induction xs) auto

lemma find_Some_mem: "List.find p xs = Some x \<Longrightarrow> x \<in> set xs \<and> p x"
  by (induction xs) (auto split: if_splits)

lemma find_cong_map:
  "(\<And>x. x \<in> set xs \<Longrightarrow> p (f x) = p x) \<Longrightarrow> List.find p (map f xs) = map_option f (List.find p xs)"
  by (induction xs) auto

lemma find_distinct_key:
  assumes "distinct (map key t)" and "x \<in> set t" and "key x = k"
  shows "List.find (\<lambda>r. key r = k) t = Some x"
  using assms by (induction t) auto

section \<open>Tables\<close>

text \<open>\<open>UPDATE t SET f WHERE p\<close>: the new rows; the row count is that of \<open>matching\<close>.\<close>

definition update_rows :: "('r \<Rightarrow> bool) \<Rightarrow> ('r \<Rightarrow> 'r) \<Rightarrow> 'r list \<Rightarrow> 'r list" where
  "update_rows p f t = map (\<lambda>r. if p r then f r else r) t"

definition matching :: "('r \<Rightarrow> bool) \<Rightarrow> 'r list \<Rightarrow> nat" where
  "matching p t = length (filter p t)"

text \<open>\<open>DELETE FROM t WHERE p\<close>.\<close>

definition delete_rows :: "('r \<Rightarrow> bool) \<Rightarrow> 'r list \<Rightarrow> 'r list" where
  "delete_rows p t = filter (\<lambda>r. \<not> p r) t"

text \<open>\<open>INSERT ... ON CONFLICT (key) DO NOTHING\<close>.\<close>

definition insert_ignore :: "('r \<Rightarrow> 'k) \<Rightarrow> 'r \<Rightarrow> 'r list \<Rightarrow> 'r list" where
  "insert_ignore key r t = (if key r \<in> key ` set t then t else t @ [r])"

text \<open>\<open>INSERT ... ON CONFLICT (key) DO UPDATE SET merge\<close>: \<open>merge old excluded\<close>.\<close>

definition upsert :: "('r \<Rightarrow> 'k) \<Rightarrow> ('r \<Rightarrow> 'r \<Rightarrow> 'r) \<Rightarrow> 'r \<Rightarrow> 'r list \<Rightarrow> 'r list" where
  "upsert key merge r t =
     (if key r \<in> key ` set t
      then update_rows (\<lambda>x. key x = key r) (\<lambda>x. merge x r) t
      else t @ [r])"

definition lookup_row :: "('r \<Rightarrow> 'k) \<Rightarrow> 'k \<Rightarrow> 'r list \<Rightarrow> 'r option" where
  "lookup_row key k t = List.find (\<lambda>r. key r = k) t"

definition unique_by :: "('r \<Rightarrow> 'k) \<Rightarrow> 'r list \<Rightarrow> bool" where
  "unique_by key t \<longleftrightarrow> distinct (map key t)"

lemma update_rows_simps [simp]:
  "update_rows p f [] = []"
  "update_rows p f (r # t) = (if p r then f r else r) # update_rows p f t"
  by (simp_all add: update_rows_def)

lemma length_update_rows [simp]: "length (update_rows p f t) = length t"
  by (simp add: update_rows_def)

lemma set_update_rows: "set (update_rows p f t) = (\<lambda>r. if p r then f r else r) ` set t"
  by (simp add: update_rows_def)

lemma update_rows_id: "(\<And>r. r \<in> set t \<Longrightarrow> \<not> p r) \<Longrightarrow> update_rows p f t = t"
  by (induction t) auto

lemma update_rows_none: "matching p t = 0 \<Longrightarrow> update_rows p f t = t"
  by (rule update_rows_id) (auto simp: matching_def filter_empty_conv)

lemma matching_pos: "0 < matching p t \<longleftrightarrow> (\<exists>r \<in> set t. p r)"
  by (auto simp: matching_def filter_empty_conv)

lemma delete_rows_simps [simp]:
  "delete_rows p [] = []"
  "delete_rows p (r # t) = (if p r then delete_rows p t else r # delete_rows p t)"
  by (simp_all add: delete_rows_def)

lemma set_delete_rows [simp]: "set (delete_rows p t) = {r \<in> set t. \<not> p r}"
  by (simp add: delete_rows_def)

lemma lookup_row_simps [simp]:
  "lookup_row key k [] = None"
  "lookup_row key k (r # t) = (if key r = k then Some r else lookup_row key k t)"
  by (simp_all add: lookup_row_def)

lemma lookup_row_Some: "lookup_row key k t = Some r \<Longrightarrow> r \<in> set t \<and> key r = k"
  by (auto simp: lookup_row_def dest: find_Some_mem)

lemma lookup_row_None: "lookup_row key k t = None \<longleftrightarrow> k \<notin> key ` set t"
  by (induction t) auto

lemma lookup_row_append:
  "lookup_row key k (t @ u) = (case lookup_row key k t of None \<Rightarrow> lookup_row key k u | Some r \<Rightarrow> Some r)"
  by (simp add: lookup_row_def find_append split: option.split)

lemma lookup_row_mem: "unique_by key t \<Longrightarrow> r \<in> set t \<Longrightarrow> lookup_row key (key r) t = Some r"
  by (simp add: unique_by_def lookup_row_def find_distinct_key)

lemma lookup_row_update_rows:
  "(\<And>x. p x \<Longrightarrow> key (f x) = key x) \<Longrightarrow>
   lookup_row key k (update_rows p f t) = map_option (\<lambda>r. if p r then f r else r) (lookup_row key k t)"
  by (induction t) auto

lemma unique_by_update_rows:
  "(\<And>x. p x \<Longrightarrow> key (f x) = key x) \<Longrightarrow> unique_by key (update_rows p f t) = unique_by key t"
proof -
  assume keep: "\<And>x. p x \<Longrightarrow> key (f x) = key x"
  then have "map key (update_rows p f t) = map key t"
    by (induction t) auto
  then show ?thesis by (simp add: unique_by_def)
qed

lemma unique_by_delete_rows: "unique_by key t \<Longrightarrow> unique_by key (delete_rows p t)"
  by (simp add: unique_by_def delete_rows_def distinct_map_filter)

lemma unique_by_insert_ignore: "unique_by key t \<Longrightarrow> unique_by key (insert_ignore key r t)"
  by (auto simp: unique_by_def insert_ignore_def)

lemma insert_ignore_idem [simp]:
  "insert_ignore key r (insert_ignore key r t) = insert_ignore key r t"
  by (simp add: insert_ignore_def)

lemma lookup_insert_ignore:
  "lookup_row key k (insert_ignore key r t) =
     (if k = key r \<and> k \<notin> key ` set t then Some r else lookup_row key k t)"
proof (cases "key r \<in> key ` set t")
  case True
  then show ?thesis by (auto simp: insert_ignore_def)
next
  case False
  then have "lookup_row key (key r) t = None" by (simp add: lookup_row_None)
  with False show ?thesis
    by (auto simp: insert_ignore_def lookup_row_append split: option.split)
qed

lemma lookup_insert_ignore_ne_None: "lookup_row key (key r) (insert_ignore key r t) \<noteq> None"
  by (auto simp: insert_ignore_def lookup_row_None lookup_row_append)

lemma set_insert_ignore_mono: "set t \<subseteq> set (insert_ignore key r t)"
  by (auto simp: insert_ignore_def)

text \<open>
  What a table's \<open>ON CONFLICT ... DO UPDATE\<close> clause has to keep: the columns of
  the conflict target.  Every table with an upsert interprets this locale with its own
  key and its own clause.
\<close>

locale keyed_table =
  fixes key :: "'r \<Rightarrow> 'k"
    and merge :: "'r \<Rightarrow> 'r \<Rightarrow> 'r"
  assumes merge_key: "key (merge old new) = key old"
begin

lemma unique_upsert: "unique_by key t \<Longrightarrow> unique_by key (upsert key merge r t)"
  by (auto simp: upsert_def unique_by_update_rows merge_key) (auto simp: unique_by_def)

lemma lookup_upsert_same:
  "lookup_row key (key r) (upsert key merge r t) =
     (case lookup_row key (key r) t of None \<Rightarrow> Some r | Some old \<Rightarrow> Some (merge old r))"
proof (cases "key r \<in> key ` set t")
  case True
  then obtain old where "lookup_row key (key r) t = Some old" "key old = key r"
    by (metis lookup_row_None lookup_row_Some not_None_eq)
  with True show ?thesis
    by (simp add: upsert_def lookup_row_update_rows merge_key)
next
  case False
  then have "lookup_row key (key r) t = None" by (simp add: lookup_row_None)
  with False show ?thesis by (simp add: upsert_def lookup_row_append)
qed

lemma lookup_upsert_other:
  "k \<noteq> key r \<Longrightarrow> lookup_row key k (upsert key merge r t) = lookup_row key k t"
  by (auto simp: upsert_def lookup_row_append lookup_row_update_rows merge_key map_option_case
      dest: lookup_row_Some split: option.splits)

lemma key_set_upsert: "key ` set (upsert key merge r t) = insert (key r) (key ` set t)"
proof -
  have "map key (update_rows (\<lambda>x. key x = key r) (\<lambda>x. merge x r) t) = map key t"
    by (induction t) (auto simp: merge_key)
  then have "key ` set (update_rows (\<lambda>x. key x = key r) (\<lambda>x. merge x r) t) = key ` set t"
    by (metis set_map)
  then show ?thesis by (auto simp: upsert_def)
qed

lemma lookup_upsert_ne_None: "lookup_row key (key r) (upsert key merge r t) \<noteq> None"
  by (auto simp: lookup_upsert_same split: option.splits)

end

end
