(* ===== verification/Js_Number.thy ===== *)
theory Js_Number
  imports Prelude Complex_Main
begin

text \<open>
  The JavaScript numbers of the program: IEEE-754 doubles.  A finite double is the
  rational it denotes; \<open>fl\<close> rounds an exact result to the nearest double (ties to
  even), with gradual underflow and overflow to an infinity.  The sign of zero is not
  represented (no code of the program can observe it).  Number-to-string and
  string-to-number follow ECMAScript.
\<close>

datatype jnum = Fin rat | PInf | MInf | NaN

section \<open>Rounding to a double\<close>

function bit_len :: "int \<Rightarrow> nat" where
  "bit_len n = (if n \<le> 0 then 0 else Suc (bit_len (n div 2)))"
  by pat_completeness auto
termination
  by (relation "measure nat") auto

declare bit_len.simps [simp del]

definition pow_int :: "rat \<Rightarrow> int \<Rightarrow> rat" where
  "pow_int b e = (if 0 \<le> e then b ^ nat e else 1 / b ^ nat (- e))"

text \<open>The exponent \<open>e\<close> with \<open>2 ^ e \<le> x < 2 ^ (e + 1)\<close>, for \<open>0 < x\<close>.\<close>

definition ilog2 :: "rat \<Rightarrow> int" where
  "ilog2 x = (case quotient_of x of (p, q) \<Rightarrow>
     let e = int (bit_len p) - int (bit_len q)
     in if pow_int 2 e \<le> x then e else e - 1)"

definition round_half_even :: "rat \<Rightarrow> int" where
  "round_half_even x = (let f = \<lfloor>x\<rfloor>; d = x - of_int f in
     if d < 1 / 2 then f else if 1 / 2 < d then f + 1 else if even f then f else f + 1)"

definition fl :: "rat \<Rightarrow> jnum" where
  "fl x = (if x = 0 then Fin 0 else
     let q = max (ilog2 \<bar>x\<bar> - 52) (- 1074);
         r = of_int (round_half_even (x / pow_int 2 q)) * pow_int 2 q
     in if 2 ^ 1024 \<le> \<bar>r\<bar> then (if 0 < x then PInf else MInf) else Fin r)"

fun js_add :: "jnum \<Rightarrow> jnum \<Rightarrow> jnum" where
  "js_add (Fin a) (Fin b) = fl (a + b)"
| "js_add NaN _ = NaN"
| "js_add _ NaN = NaN"
| "js_add PInf MInf = NaN"
| "js_add MInf PInf = NaN"
| "js_add PInf _ = PInf"
| "js_add _ PInf = PInf"
| "js_add MInf _ = MInf"
| "js_add _ MInf = MInf"

definition js_inf :: "bool \<Rightarrow> jnum" where
  "js_inf pos = (if pos then PInf else MInf)"

fun js_sgn :: "jnum \<Rightarrow> int" where
  "js_sgn (Fin a) = (if 0 < a then 1 else if a < 0 then -1 else 0)"
| "js_sgn PInf = 1"
| "js_sgn MInf = -1"
| "js_sgn NaN = 0"

fun js_mul :: "jnum \<Rightarrow> jnum \<Rightarrow> jnum" where
  "js_mul (Fin a) (Fin b) = fl (a * b)"
| "js_mul a b =
     (if a = NaN \<or> b = NaN \<or> js_sgn a = 0 \<or> js_sgn b = 0 then NaN
      else js_inf (js_sgn a = js_sgn b))"

fun js_gt :: "jnum \<Rightarrow> jnum \<Rightarrow> bool" where
  "js_gt (Fin a) (Fin b) = (b < a)"
| "js_gt NaN _ = False"
| "js_gt _ NaN = False"
| "js_gt PInf b = (b \<noteq> PInf)"
| "js_gt _ MInf = True"
| "js_gt _ _ = False"

section \<open>Integers below \<open>2 ^ 53\<close> are exact\<close>

lemma bit_len_pos: "0 < n \<Longrightarrow> 0 < bit_len n"
  by (subst bit_len.simps) simp

lemma bit_len_upper: "n < 2 ^ bit_len n"
proof (induction n rule: bit_len.induct)
  case (1 n)
  show ?case
  proof (cases "n \<le> 0")
    case False
    with 1 have "n div 2 < 2 ^ bit_len (n div 2)" by simp
    then have "n < 2 * 2 ^ bit_len (n div 2)" by linarith
    with False show ?thesis by (subst bit_len.simps) simp
  qed (simp add: bit_len.simps)
qed

lemma bit_len_lower: "0 < n \<Longrightarrow> 2 ^ (bit_len n - 1) \<le> n"
proof (induction n rule: bit_len.induct)
  case (1 n)
  show ?case
  proof (cases "n = 1")
    case True
    then show ?thesis by (simp add: bit_len.simps)
  next
    case False
    with "1.prems" have pos: "0 < n div 2" by auto
    with "1.IH" "1.prems" have "2 ^ (bit_len (n div 2) - 1) \<le> n div 2" by simp
    moreover from pos have "0 < bit_len (n div 2)" by (rule bit_len_pos)
    ultimately have "2 ^ bit_len (n div 2) \<le> 2 * (n div 2)"
      by (cases "bit_len (n div 2)") auto
    also have "\<dots> \<le> n" by simp
    finally show ?thesis using "1.prems" by (subst bit_len.simps) simp
  qed
qed

lemma pow_int_diff: "pow_int 2 (int a - int b) = 2 ^ a / 2 ^ b"
proof (cases "b \<le> a")
  case True
  then have "nat (int a - int b) = a - b" by simp
  with True show ?thesis by (simp add: pow_int_def power_diff)
next
  case False
  then have "nat (- (int a - int b)) = b - a" by simp
  with False show ?thesis
    by (simp add: pow_int_def power_diff)
qed

lemma ilog2_lower:
  assumes "0 < x"
  shows "pow_int 2 (ilog2 x) \<le> x"
proof -
  obtain p q where pq: "quotient_of x = (p, q)" by (cases "quotient_of x")
  then have q: "0 < q" by (rule quotient_of_denom_pos)
  from pq have x: "x = of_int p / of_int q" by (rule quotient_of_div)
  with assms q have p: "0 < p" by (simp add: zero_less_divide_iff)
  define a b where "a = bit_len p" and "b = bit_len q"
  from p have a: "0 < a" by (simp add: a_def bit_len_pos)
  from bit_len_lower [OF p] have "2 ^ (a - 1) \<le> p" unfolding a_def .
  then have lo: "(2::rat) ^ (a - 1) \<le> of_int p"
    by (metis of_int_le_iff of_int_numeral of_int_power)
  have "q < 2 ^ b" by (simp add: b_def bit_len_upper)
  then have hi: "of_int q \<le> (2::rat) ^ b"
    by (metis less_imp_le of_int_le_iff of_int_numeral of_int_power)
  have "pow_int 2 (int a - int b - 1) = (2::rat) ^ (a - 1) / 2 ^ b"
    using a pow_int_diff [of "a - 1" b] by (simp add: of_nat_diff algebra_simps)
  also have "\<dots> \<le> of_int p / of_int q"
    using lo hi q p by (intro frac_le) auto
  finally have "pow_int 2 (int a - int b - 1) \<le> x" by (simp add: x)
  then show ?thesis
    by (simp add: ilog2_def pq Let_def a_def b_def)
qed

lemma pow_int_mono: "d \<le> e \<Longrightarrow> pow_int 2 d \<le> pow_int 2 e"
proof -
  assume "d \<le> e"
  moreover obtain a b where d: "d = int a - int b" by (metis int_diff_cases)
  ultimately obtain n where "e = int a - int b + int n"
    by (metis zle_iff_zadd)
  then have e: "e = int (a + n) - int b" by simp
  show ?thesis
    unfolding d e pow_int_diff by (simp add: power_add divide_right_mono)
qed

lemma round_half_even_int [simp]: "round_half_even (of_int n) = n"
  by (simp add: round_half_even_def)

theorem fl_exact_int:
  assumes "\<bar>n\<bar> < 2 ^ 53"
  shows "fl (of_int n) = Fin (of_int n)"
proof (cases "n = 0")
  case True
  then show ?thesis by (simp add: fl_def)
next
  case False
  let ?x = "of_int n :: rat"
  define q where "q = max (ilog2 \<bar>?x\<bar> - 52) (- 1074)"
  have bound: "\<bar>?x\<bar> < 2 ^ 53"
    using assms by (metis of_int_abs of_int_less_iff of_int_numeral of_int_power)
  have "ilog2 \<bar>?x\<bar> \<le> 52"
  proof (rule ccontr)
    assume "\<not> ilog2 \<bar>?x\<bar> \<le> 52"
    then have "pow_int 2 53 \<le> pow_int 2 (ilog2 \<bar>?x\<bar>)" by (intro pow_int_mono) simp
    also have "\<dots> \<le> \<bar>?x\<bar>" using False by (intro ilog2_lower) simp
    finally show False using bound by (simp add: pow_int_def)
  qed
  then have q: "q \<le> 0" by (simp add: q_def)
  then have "?x / pow_int 2 q = of_int (n * 2 ^ nat (- q))"
    by (cases "q = 0") (auto simp: pow_int_def)
  then have "of_int (round_half_even (?x / pow_int 2 q)) * pow_int 2 q = ?x"
    using q by (simp only: round_half_even_int) (cases "q = 0", auto simp: pow_int_def)
  moreover have "\<not> 2 ^ 1024 \<le> \<bar>?x\<bar>"
  proof -
    have "(2::rat) ^ 53 \<le> 2 ^ 1024" by (rule power_increasing) auto
    with bound show ?thesis by linarith
  qed
  ultimately show ?thesis
    using False by (simp only: fl_def Let_def q_def [symmetric]) simp
qed

section \<open>Numbers and text\<close>

definition digit_char :: "int \<Rightarrow> char" where
  "digit_char d = ''0123456789'' ! nat (d mod 10)"

definition is_digit :: "char \<Rightarrow> bool" where
  "is_digit c \<longleftrightarrow> c \<in> set ''0123456789''"

lemma is_digit_digit_char [simp]: "is_digit (digit_char d)"
proof -
  have "nat (d mod 10) < length ''0123456789''"
    by (simp add: nat_less_iff)
  then show ?thesis
    unfolding is_digit_def digit_char_def by (rule nth_mem)
qed

function nat_string :: "int \<Rightarrow> string" where
  "nat_string n = (if n < 10 then [digit_char n] else nat_string (n div 10) @ [digit_char n])"
  by pat_completeness auto
termination
  by (relation "measure nat") auto

declare nat_string.simps [simp del]

definition digit_val :: "char \<Rightarrow> int" where
  "digit_val c = of_char c - 48"

definition digits_val :: "string \<Rightarrow> int" where
  "digits_val s = foldl (\<lambda>n c. 10 * n + digit_val c) 0 s"

text \<open>The \<open>n\<close> with \<open>10 ^ (n - 1) \<le> x < 10 ^ n\<close>, for \<open>0 < x\<close>.\<close>

definition dec_exponent :: "rat \<Rightarrow> int" where
  "dec_exponent x = (case quotient_of x of (p, q) \<Rightarrow>
     let e = int (length (nat_string p)) - int (length (nat_string q))
     in if x < pow_int 10 e then e else e + 1)"

text \<open>
  Number::toString: the shortest decimal \<open>s * 10 ^ (n - k)\<close> with \<open>k\<close> digits that reads
  back as the same double, and of several the closest.
\<close>

definition decimal_candidates :: "rat \<Rightarrow> nat \<Rightarrow> int list" where
  "decimal_candidates x k = (let n = dec_exponent x; u = pow_int 10 (n - int k); f = \<lfloor>x / u\<rfloor>
     in filter (\<lambda>s. 10 ^ (k - 1) \<le> s \<and> s \<le> 10 ^ k \<and> fl (of_int s * u) = Fin x) [f, f + 1])"

definition shortest_decimal :: "rat \<Rightarrow> int \<times> nat \<times> int" where
  "shortest_decimal x = (let n = dec_exponent x;
       carry = (\<lambda>s k. if s = 10 ^ k then (10 ^ (k - 1), k, n + 1) else (s, k, n)) in
     case List.find (\<lambda>k. decimal_candidates x k \<noteq> []) [1..<18] of
       None \<Rightarrow> (\<lfloor>x / pow_int 10 (n - 17)\<rfloor>, 17, n)
     | Some k \<Rightarrow> (case decimal_candidates x k of
         [s, t] \<Rightarrow> (let u = pow_int 10 (n - int k) in
            if \<bar>x - of_int s * u\<bar> \<le> \<bar>of_int t * u - x\<bar> then carry s k else carry t k)
       | ss \<Rightarrow> carry (hd ss) k))"

definition exponent_suffix :: "int \<Rightarrow> string" where
  "exponent_suffix e = ''e'' @ (if e < 0 then ''-'' else ''+'') @ nat_string \<bar>e\<bar>"

definition positive_string :: "rat \<Rightarrow> string" where
  "positive_string x = (case shortest_decimal x of (s, k, n) \<Rightarrow>
     let d = nat_string s in
     if int k \<le> n \<and> n \<le> 21 then d @ replicate (nat n - k) (CHR ''0'')
     else if 0 < n \<and> n \<le> 21 then take (nat n) d @ ''.'' @ drop (nat n) d
     else if - 6 < n \<and> n \<le> 0 then ''0.'' @ replicate (nat (- n)) (CHR ''0'') @ d
     else if k = 1 then d @ exponent_suffix (n - 1)
     else take 1 d @ ''.'' @ drop 1 d @ exponent_suffix (n - 1))"

fun num_string :: "jnum \<Rightarrow> string" where
  "num_string (Fin x) =
     (if x = 0 then ''0'' else if x < 0 then ''-'' @ positive_string (- x) else positive_string x)"
| "num_string PInf = ''Infinity''"
| "num_string MInf = ''-Infinity''"
| "num_string NaN = ''NaN''"

text \<open>The decimal that the text of a finite double denotes (what a SQL cast reads).\<close>

definition decimal_value :: "rat \<Rightarrow> rat" where
  "decimal_value x =
     (if x = 0 then 0 else case shortest_decimal \<bar>x\<bar> of (s, k, n) \<Rightarrow>
        (if x < 0 then - 1 else 1) * of_int s * pow_int 10 (n - int k))"

section \<open>Reading numbers\<close>

definition is_space :: "char \<Rightarrow> bool" where
  "is_space c \<longleftrightarrow> c = CHR '' '' \<or> of_char c \<in> {9::nat, 10, 11, 12, 13, 160}"

definition trim :: "string \<Rightarrow> string" where
  "trim s = rev (dropWhile is_space (rev (dropWhile is_space s)))"

text \<open>A decimal literal without sign: digits, optional fraction, optional exponent.\<close>

definition decimal_literal :: "string \<Rightarrow> rat option" where
  "decimal_literal s =
     (let i = takeWhile is_digit s; r = dropWhile is_digit s;
          f = (case r of [] \<Rightarrow> [] | c # r' \<Rightarrow> if c = CHR ''.'' then takeWhile is_digit r' else []);
          t = (case r of [] \<Rightarrow> [] | c # r' \<Rightarrow> if c = CHR ''.'' then dropWhile is_digit r' else r);
          m = of_int (digits_val (i @ f)) * pow_int 10 (- int (length f))
      in if i = [] \<and> f = [] then None else
         case t of [] \<Rightarrow> Some m
         | c # e \<Rightarrow>
             if c = CHR ''e'' \<or> c = CHR ''E'' then
               (let neg = (e \<noteq> [] \<and> hd e = CHR ''-'');
                    d = (if e \<noteq> [] \<and> (hd e = CHR ''-'' \<or> hd e = CHR ''+'') then tl e else e)
                in if d \<noteq> [] \<and> list_all is_digit d
                   then Some (m * pow_int 10 ((if neg then - 1 else 1) * digits_val d))
                   else None)
             else None)"

definition radix_digit :: "int \<Rightarrow> char \<Rightarrow> int option" where
  "radix_digit b c =
     (let n = of_char c;
          v = (if 48 \<le> n \<and> n \<le> 57 then n - 48 else if 97 \<le> n \<and> n \<le> 102 then n - 87
               else if 65 \<le> n \<and> n \<le> 70 then n - 55 else 99)
      in if v < b then Some v else None)"

fun radix_val :: "int \<Rightarrow> int \<Rightarrow> string \<Rightarrow> int option" where
  "radix_val b acc [] = Some acc"
| "radix_val b acc (c # s) =
     (case radix_digit b c of None \<Rightarrow> None | Some d \<Rightarrow> radix_val b (b * acc + d) s)"

definition number_of_string :: "string \<Rightarrow> jnum" where
  "number_of_string s0 =
     (let s = trim s0;
          radix = (\<lambda>b. case radix_val b 0 (drop 2 s) of
                     Some v \<Rightarrow> if 2 < length s then fl (of_int v) else NaN | None \<Rightarrow> NaN);
          signed = (\<lambda>sg t. if t = ''Infinity'' then js_inf (0 < (sg::rat))
                     else case decimal_literal t of Some r \<Rightarrow> fl (sg * r) | None \<Rightarrow> NaN)
      in if s = [] then Fin 0
         else if take 2 s \<in> {''0x'', ''0X''} then radix 16
         else if take 2 s \<in> {''0o'', ''0O''} then radix 8
         else if take 2 s \<in> {''0b'', ''0B''} then radix 2
         else if hd s = CHR ''-'' then signed (- 1) (tl s)
         else if hd s = CHR ''+'' then signed 1 (tl s)
         else signed 1 s)"

end
