(* ===== verification/Js_Value.thy ===== *)
theory Js_Value
  imports Js_Number
begin

text \<open>
  JavaScript values as the program uses them: payloads, envelopes before validation and
  JSONB columns.  An object is the association list of its own properties in insertion
  order.  The operations are those of the source: property access (a TypeError on
  \<open>undefined\<close> and \<open>null\<close>), truthiness and \<open>||\<close>, spread, template literals, and
  \<open>JSON.stringify\<close> with \<open>JSON.parse\<close>, which drop undefined properties.
\<close>

datatype js =
    JUndef
  | JNull
  | JBool bool
  | JNum jnum
  | JStr string
  | JArr "js list"
  | JObj "(string \<times> js) list"

type_synonym obj = "(string \<times> js) list"

section \<open>Errors\<close>

text \<open>The errors the program throws or receives; the string is the \<open>message\<close>.\<close>

datatype exn =
    SyntaxError string
  | TypeError string
  | ZodError string
  | PgError string
  | KafkaError string
  | AppError string

fun err_message :: "exn \<Rightarrow> string" where
  "err_message (SyntaxError m) = m"
| "err_message (TypeError m) = m"
| "err_message (ZodError m) = m"
| "err_message (PgError m) = m"
| "err_message (KafkaError m) = m"
| "err_message (AppError m) = m"

section \<open>Truthiness, property access and update\<close>

fun truthy :: "js \<Rightarrow> bool" where
  "truthy JUndef = False"
| "truthy JNull = False"
| "truthy (JBool b) = b"
| "truthy (JNum (Fin r)) = (r \<noteq> 0)"
| "truthy (JNum NaN) = False"
| "truthy (JNum _) = True"
| "truthy (JStr s) = (s \<noteq> [])"
| "truthy (JArr _) = True"
| "truthy (JObj _) = True"

text \<open>\<open>a || b\<close>.\<close>

definition js_or :: "js \<Rightarrow> js \<Rightarrow> js" where
  "js_or a b = (if truthy a then a else b)"

lemma js_or_str [simp]: "js_or (JStr s) b = (if s = [] then b else JStr s)"
  by (simp add: js_or_def)

lemma js_or_undef [simp]: "js_or JUndef b = b" "js_or JNull b = b"
  by (simp_all add: js_or_def)

text \<open>\<open>o.k\<close> on an object: \<open>undefined\<close> when the property is absent.\<close>

definition obj_get :: "obj \<Rightarrow> string \<Rightarrow> js" where
  "obj_get ob k = (case map_of ob k of None \<Rightarrow> JUndef | Some v \<Rightarrow> v)"

text \<open>\<open>{...o, k: v}\<close> and \<open>o.k = v\<close>: an existing property keeps its place.\<close>

definition obj_put :: "string \<Rightarrow> js \<Rightarrow> obj \<Rightarrow> obj" where
  "obj_put k v ob = AList.update k v ob"

lemma obj_get_put [simp]:
  "obj_get (obj_put k v ob) k' = (if k' = k then v else obj_get ob k')"
  by (simp add: obj_get_def obj_put_def update_conv' split: option.split)

lemma obj_get_simps [simp]:
  "obj_get [] k = JUndef"
  "obj_get ((k', v) # ob) k = (if k = k' then v else obj_get ob k)"
  by (simp_all add: obj_get_def)

lemma obj_get_absent: "k \<notin> fst ` set ob \<Longrightarrow> obj_get ob k = JUndef"
  by (induction ob) auto

text \<open>\<open>v.k\<close> on any value.\<close>

fun member :: "js \<Rightarrow> string \<Rightarrow> exn + js" where
  "member JUndef k = Inl (TypeError (''Cannot read properties of undefined (reading '' @ k @ '')''))"
| "member JNull k = Inl (TypeError (''Cannot read properties of null (reading '' @ k @ '')''))"
| "member (JObj ob) k = Inr (obj_get ob k)"
| "member _ k = Inr JUndef"

text \<open>The elements of an array; \<open>Array.isArray\<close>.\<close>

fun is_array :: "js \<Rightarrow> bool" where
  "is_array (JArr _) = True"
| "is_array _ = False"

fun array_elems :: "js \<Rightarrow> js list" where
  "array_elems (JArr xs) = xs"
| "array_elems _ = []"

fun str_of :: "js \<Rightarrow> string" where
  "str_of (JStr s) = s"
| "str_of _ = []"

section \<open>Conversion to strings and numbers\<close>

definition join_comma :: "string list \<Rightarrow> string" where
  "join_comma ss = (case ss of [] \<Rightarrow> [] | s # r \<Rightarrow> s @ concat (map (\<lambda>t. '','' @ t) r))"

text \<open>\<open>String(v)\<close>, as a template literal inserts it.\<close>

fun js_string :: "js \<Rightarrow> string" where
  "js_string JUndef = ''undefined''"
| "js_string JNull = ''null''"
| "js_string (JBool b) = (if b then ''true'' else ''false'')"
| "js_string (JNum n) = num_string n"
| "js_string (JStr s) = s"
| "js_string (JArr vs) =
     join_comma (map (\<lambda>v. case v of JUndef \<Rightarrow> [] | JNull \<Rightarrow> [] | _ \<Rightarrow> js_string v) vs)"
| "js_string (JObj _) = ''[object Object]''"

text \<open>\<open>Number(v)\<close>.\<close>

fun js_number :: "js \<Rightarrow> jnum" where
  "js_number JUndef = NaN"
| "js_number JNull = Fin 0"
| "js_number (JBool b) = Fin (if b then 1 else 0)"
| "js_number (JNum n) = n"
| "js_number (JStr s) = number_of_string s"
| "js_number (JArr vs) = number_of_string (js_string (JArr vs))"
| "js_number (JObj _) = NaN"

section \<open>JSON\<close>

text \<open>
  \<open>JSON.parse (JSON.stringify v)\<close>: undefined properties are dropped, undefined elements
  and non-finite numbers become null.
\<close>

fun to_json :: "js \<Rightarrow> js" where
  "to_json (JNum n) = (case n of Fin r \<Rightarrow> JNum (Fin r) | _ \<Rightarrow> JNull)"
| "to_json (JArr vs) = JArr (map (\<lambda>v. if v = JUndef then JNull else to_json v) vs)"
| "to_json (JObj ob) = JObj (map (\<lambda>(k, v). (k, to_json v)) (filter (\<lambda>(k, v). v \<noteq> JUndef) ob))"
| "to_json v = v"

definition obj_json :: "obj \<Rightarrow> obj" where
  "obj_json ob = map (\<lambda>(k, v). (k, to_json v)) (filter (\<lambda>(k, v). v \<noteq> JUndef) ob)"

lemma to_json_JObj [simp]: "to_json (JObj ob) = JObj (obj_json ob)"
  by (simp add: obj_json_def)

declare to_json.simps(3) [simp del]

lemma to_json_undef [simp]: "to_json v = JUndef \<longleftrightarrow> v = JUndef"
  by (cases v) (auto split: jnum.splits)

lemma obj_json_simps [simp]:
  "obj_json [] = []"
  "obj_json ((k, v) # ob) = (if v = JUndef then obj_json ob else (k, to_json v) # obj_json ob)"
  by (simp_all add: obj_json_def)

lemma obj_json_idem_if:
  "\<forall>v \<in> snd ` set ob. v \<noteq> JUndef \<longrightarrow> to_json (to_json v) = to_json v \<Longrightarrow>
   obj_json (obj_json ob) = obj_json ob"
  by (induction ob) auto

lemma to_json_idem [simp]: "to_json (to_json v) = to_json v"
proof (induction v rule: to_json.induct)
  case (3 ob)
  have "obj_json (obj_json ob) = obj_json ob"
    by (rule obj_json_idem_if) (use 3 in force)
  then show ?case by simp
qed (auto split: jnum.splits)

lemma obj_json_idem [simp]: "obj_json (obj_json ob) = obj_json ob"
proof -
  have "to_json (to_json (JObj ob)) = to_json (JObj ob)" by (rule to_json_idem)
  then show ?thesis by simp
qed

lemma map_of_obj_json:
  "distinct (map fst ob) \<Longrightarrow>
   map_of (obj_json ob) k = (case map_of ob k of None \<Rightarrow> None | Some v \<Rightarrow> if v = JUndef then None else Some (to_json v))"
proof (induction ob)
  case (Cons a ob)
  obtain k' v where a: "a = (k', v)" by (cases a)
  have "k' \<notin> fst ` set ob" using Cons.prems by (simp add: a)
  then have "map_of ob k' = None" by (simp add: map_of_eq_None_iff)
  then show ?case using Cons by (auto simp: a split: option.split)
qed simp

lemma obj_get_json:
  "distinct (map fst ob) \<Longrightarrow> obj_get (obj_json ob) k = to_json (obj_get ob k)"
  by (simp add: obj_get_def map_of_obj_json split: option.split)

text \<open>The text \<open>JSON.stringify\<close> prints.\<close>

definition hex_digit :: "nat \<Rightarrow> char" where
  "hex_digit n = ''0123456789abcdef'' ! (n mod 16)"

definition quote_char :: "char \<Rightarrow> string" where
  "quote_char c =
     (let n = of_char c :: nat in
      if n = 34 then [CHR 0x5C, CHR 0x22] else if n = 92 then [CHR 0x5C, CHR 0x5C]
      else if n = 8 then CHR 0x5C # ''b'' else if n = 9 then CHR 0x5C # ''t''
      else if n = 10 then CHR 0x5C # ''n'' else if n = 12 then CHR 0x5C # ''f''
      else if n = 13 then CHR 0x5C # ''r''
      else if n < 32 then CHR 0x5C # ''u00'' @ [hex_digit (n div 16), hex_digit n]
      else [c])"

definition json_quote :: "string \<Rightarrow> string" where
  "json_quote s = CHR 0x22 # concat (map quote_char s) @ [CHR 0x22]"

fun json_text :: "js \<Rightarrow> string" where
  "json_text JUndef = ''null''"
| "json_text JNull = ''null''"
| "json_text (JBool b) = (if b then ''true'' else ''false'')"
| "json_text (JNum n) = (case n of Fin r \<Rightarrow> num_string (Fin r) | _ \<Rightarrow> ''null'')"
| "json_text (JStr s) = json_quote s"
| "json_text (JArr vs) = ''['' @ join_comma (map json_text vs) @ '']''"
| "json_text (JObj ob) =
     ''{'' @ join_comma (map (\<lambda>(k, v). json_quote k @ '':'' @ json_text v)
                         (filter (\<lambda>(k, v). v \<noteq> JUndef) ob)) @ ''}''"

text \<open>
  A Kafka message value: its text and what \<open>JSON.parse\<close> makes of it (\<open>None\<close> is a
  SyntaxError).  The program's own messages are made by \<open>wire_of\<close>; a message of another
  producer is any pair.
\<close>

datatype wire = Wire (wire_text: string) (wire_parse: "js option")

definition wire_of :: "js \<Rightarrow> wire" where
  "wire_of v = Wire (json_text v) (Some (to_json v))"

section \<open>Dates\<close>

text \<open>\<open>new Date(ms).toISOString()\<close> for a time since the epoch in milliseconds.\<close>

definition iso_civil :: "nat \<Rightarrow> nat \<times> nat \<times> nat" where
  "iso_civil days =
     (let z = days + 719468; era = z div 146097; doe = z mod 146097;
          yoe = (doe - doe div 1460 + doe div 36524 - doe div 146096) div 365;
          doy = doe - (365 * yoe + yoe div 4 - yoe div 100);
          mp = (5 * doy + 2) div 153; d = doy - (153 * mp + 2) div 5 + 1;
          m = (if mp < 10 then mp + 3 else mp - 9)
      in (yoe + era * 400 + (if m \<le> 2 then 1 else 0), m, d))"

definition pad2 :: "nat \<Rightarrow> string" where
  "pad2 n = [digit_char (int (n div 10)), digit_char (int n)]"

definition pad3 :: "nat \<Rightarrow> string" where
  "pad3 n = digit_char (int (n div 100)) # pad2 n"

definition pad4 :: "nat \<Rightarrow> string" where
  "pad4 n = digit_char (int (n div 1000)) # pad3 n"

definition pad6 :: "nat \<Rightarrow> string" where
  "pad6 n = [digit_char (int (n div 100000)), digit_char (int (n div 10000))] @ pad4 n"

definition iso_year :: "nat \<Rightarrow> nat" where
  "iso_year t = fst (iso_civil (t div 86400000))"

definition toISOString :: "nat \<Rightarrow> string" where
  "toISOString t =
     (case iso_civil (t div 86400000) of (y, m, d) \<Rightarrow>
      (if y < 10000 then pad4 y else ''+'' @ pad6 y) @ ''-'' @ pad2 m @ ''-'' @ pad2 d @ ''T'' @
      pad2 (t div 3600000 mod 24) @ '':'' @ pad2 (t div 60000 mod 60) @ '':'' @
      pad2 (t div 1000 mod 60) @ ''.'' @ pad3 (t mod 1000) @ ''Z'')"

text \<open>The prefix pattern of \<open>occurred_at\<close> in the envelope schema: \<open>d\<close> stands for a digit.\<close>

definition iso_prefix :: "string \<Rightarrow> bool" where
  "iso_prefix s \<longleftrightarrow> 19 \<le> length s \<and>
     list_all2 (\<lambda>p c. if p = CHR ''d'' then is_digit c else p = c)
       ''dddd-dd-ddTdd:dd:dd'' (take 19 s)"

lemma iso_prefix_toISOString: "iso_year t < 10000 \<Longrightarrow> iso_prefix (toISOString t)"
  by (auto simp: iso_prefix_def toISOString_def iso_year_def pad2_def pad3_def pad4_def
      split: prod.splits)

lemma toISOString_nonempty [simp]: "toISOString t \<noteq> []"
  by (auto simp: toISOString_def split: prod.splits)

end
