(* ===== verification/Zod.thy ===== *)
theory Zod
  imports Js_Value
begin

text \<open>
  The schema language the contracts are written in (the combinators of zod that the
  source uses, with their documented meaning).  A schema is a value, \<open>zparse\<close> is
  \<open>schema.parse\<close>: \<open>None\<close> is a ZodError, \<open>Some v\<close> the parsed value, in which an object
  has exactly the properties of its shape and defaults are filled in.  The named string
  formats (\<open>uuid\<close>, \<open>datetime\<close>) are zod's own and are the parameter \<open>fmt\<close>.
\<close>

datatype ncheck = NInt | NPositive | NMin rat | NMax rat

datatype schema =
    ZUnknown
  | ZString nat
  | ZFormat string
  | ZIsoPrefix
  | ZNumber "ncheck list"
  | ZEnum "string list"
  | ZRecord
  | ZArray schema nat
  | ZObject "(string \<times> schema) list"
  | ZOptional schema
  | ZDefault schema js
  | ZOr schema schema

fun ncheck_ok :: "jnum \<Rightarrow> ncheck \<Rightarrow> bool" where
  "ncheck_ok (Fin r) NInt = (r = of_int \<lfloor>r\<rfloor>)"
| "ncheck_ok (Fin r) NPositive = (0 < r)"
| "ncheck_ok (Fin r) (NMin m) = (m \<le> r)"
| "ncheck_ok (Fin r) (NMax m) = (r \<le> m)"
| "ncheck_ok PInf NPositive = True"
| "ncheck_ok PInf (NMin _) = True"
| "ncheck_ok MInf (NMax _) = True"
| "ncheck_ok _ _ = False"

fun zparse :: "(string \<Rightarrow> string \<Rightarrow> bool) \<Rightarrow> schema \<Rightarrow> js \<Rightarrow> js option" where
  "zparse fmt ZUnknown v = Some v"
| "zparse fmt (ZString n) v =
     (case v of JStr s \<Rightarrow> if n \<le> length s then Some v else None | _ \<Rightarrow> None)"
| "zparse fmt (ZFormat f) v =
     (case v of JStr s \<Rightarrow> if fmt f s then Some v else None | _ \<Rightarrow> None)"
| "zparse fmt ZIsoPrefix v =
     (case v of JStr s \<Rightarrow> if iso_prefix s then Some v else None | _ \<Rightarrow> None)"
| "zparse fmt (ZNumber cs) v =
     (case v of JNum n \<Rightarrow> if n \<noteq> NaN \<and> list_all (ncheck_ok n) cs then Some v else None
              | _ \<Rightarrow> None)"
| "zparse fmt (ZEnum ss) v =
     (case v of JStr s \<Rightarrow> if s \<in> set ss then Some v else None | _ \<Rightarrow> None)"
| "zparse fmt ZRecord v = (case v of JObj _ \<Rightarrow> Some v | _ \<Rightarrow> None)"
| "zparse fmt (ZArray s n) v =
     (case v of JArr vs \<Rightarrow>
        if n \<le> length vs then map_option JArr (those (map (zparse fmt s) vs)) else None
      | _ \<Rightarrow> None)"
| "zparse fmt (ZObject fs) v =
     (case v of JObj ob \<Rightarrow>
        map_option (\<lambda>kvs. JObj (filter (\<lambda>(k, w). w \<noteq> JUndef) kvs))
          (those (map (\<lambda>(k, s). map_option (Pair k) (zparse fmt s (obj_get ob k))) fs))
      | _ \<Rightarrow> None)"
| "zparse fmt (ZOptional s) v = (if v = JUndef then Some JUndef else zparse fmt s v)"
| "zparse fmt (ZDefault s d) v = (if v = JUndef then Some d else zparse fmt s v)"
| "zparse fmt (ZOr s1 s2) v =
     (case zparse fmt s1 v of Some w \<Rightarrow> Some w | None \<Rightarrow> zparse fmt s2 v)"

text \<open>\<open>z.string().min(1)\<close> and \<open>z.string().datetime().or(z.string())\<close>.\<close>

abbreviation z_nonempty :: schema where
  "z_nonempty \<equiv> ZString 1"

abbreviation z_datetime_or_string :: schema where
  "z_datetime_or_string \<equiv> ZOr (ZFormat ''datetime'') (ZString 0)"

lemma zparse_nonempty [simp]:
  "zparse fmt (ZString n) (JStr s) = (if n \<le> length s then Some (JStr s) else None)"
  by simp

lemma zparse_datetime_or_string [simp]:
  "zparse fmt z_datetime_or_string (JStr s) = Some (JStr s)"
  by simp

lemma length_ge_1 [simp]: "Suc 0 \<le> length s \<longleftrightarrow> s \<noteq> []"
  by (cases s) auto

text \<open>A schema accepts a value.\<close>

definition accepts :: "(string \<Rightarrow> string \<Rightarrow> bool) \<Rightarrow> schema \<Rightarrow> js \<Rightarrow> bool" where
  "accepts fmt s v \<longleftrightarrow> zparse fmt s v \<noteq> None"

lemma those_None: "those xs = None \<longleftrightarrow> None \<in> set xs"
  by (induction xs) (auto split: option.splits)

lemma those_Some: "(\<exists>ys. those xs = Some ys) \<longleftrightarrow> (\<forall>x \<in> set xs. \<exists>y. x = Some y)"
  by (induction xs) (auto split: option.splits)

lemma accepts_object:
  "accepts fmt (ZObject fs) (JObj ob) \<longleftrightarrow> (\<forall>(k, s) \<in> set fs. accepts fmt s (obj_get ob k))"
  by (auto simp: accepts_def those_None image_iff split: prod.splits)

lemma accepts_simps [simp]:
  "accepts fmt ZUnknown v"
  "accepts fmt (ZString n) v \<longleftrightarrow> (\<exists>s. v = JStr s \<and> n \<le> length s)"
  "accepts fmt (ZNumber cs) v \<longleftrightarrow> (\<exists>n. v = JNum n \<and> n \<noteq> NaN \<and> list_all (ncheck_ok n) cs)"
  "accepts fmt (ZEnum ss) v \<longleftrightarrow> (\<exists>s. v = JStr s \<and> s \<in> set ss)"
  "accepts fmt ZRecord v \<longleftrightarrow> (\<exists>ob. v = JObj ob)"
  "accepts fmt (ZArray s n) v \<longleftrightarrow> (\<exists>vs. v = JArr vs \<and> n \<le> length vs \<and> (\<forall>w \<in> set vs. accepts fmt s w))"
  "accepts fmt (ZOptional s) v \<longleftrightarrow> v = JUndef \<or> accepts fmt s v"
  "accepts fmt (ZDefault s d) v \<longleftrightarrow> v = JUndef \<or> accepts fmt s v"
  "accepts fmt (ZOr s1 s2) v \<longleftrightarrow> accepts fmt s1 v \<or> accepts fmt s2 v"
  by (auto simp: accepts_def those_Some split: js.splits option.splits)

text \<open>Each property of a parsed object is the parse of the property it was given.\<close>

lemma those_pairs_get:
  "those (map (\<lambda>(k, s). map_option (Pair k) (f s k)) fs) = Some kvs \<Longrightarrow> distinct (map fst fs) \<Longrightarrow>
   (k, s) \<in> set fs \<Longrightarrow> f s k = Some (obj_get (filter (\<lambda>(k, w). w \<noteq> JUndef) kvs) k)"
proof (induction fs arbitrary: kvs)
  case (Cons a fs)
  obtain k' s' where a: "a = (k', s')" by (cases a)
  from Cons.prems(1) obtain v kvs' where v: "f s' k' = Some v"
    and kvs': "those (map (\<lambda>(k, s). map_option (Pair k) (f s k)) fs) = Some kvs'" "kvs = (k', v) # kvs'"
    by (auto simp: a split: option.splits)
  have keys: "map fst kvs' = map fst fs"
    using kvs'(1) by (induction fs arbitrary: kvs') (auto split: option.splits)
  show ?case
  proof (cases "k = k'")
    case True
    then have "s = s'" using Cons.prems(2,3) by (force simp: a)
    have "k' \<notin> fst ` set kvs'" using Cons.prems(2) keys by (metis a distinct.simps(2) fst_conv list.simps(9) set_map)
    then have "obj_get (filter (\<lambda>(k, w). w \<noteq> JUndef) kvs') k' = JUndef"
      by (intro obj_get_absent) auto
    then show ?thesis using True \<open>s = s'\<close> v kvs'(2) by simp
  next
    case False
    then show ?thesis using Cons.IH [OF kvs'(1)] Cons.prems(2,3) kvs'(2) by (auto simp: a)
  qed
qed simp

lemma zparse_object_get:
  assumes "zparse fmt (ZObject fs) v = Some v'" "distinct (map fst fs)"
  shows "\<exists>ob out. v = JObj ob \<and> v' = JObj out \<and>
    (\<forall>k s. (k, s) \<in> set fs \<longrightarrow> zparse fmt s (obj_get ob k) = Some (obj_get out k))"
proof -
  obtain ob kvs where v: "v = JObj ob" "v' = JObj (filter (\<lambda>(k, w). w \<noteq> JUndef) kvs)"
    and kvs: "those (map (\<lambda>(k, s). map_option (Pair k) (zparse fmt s (obj_get ob k))) fs) = Some kvs"
    using assms(1) by (auto split: js.splits)
  have "zparse fmt s (obj_get ob k) = Some (obj_get (filter (\<lambda>(k, w). w \<noteq> JUndef) kvs) k)"
    if "(k, s) \<in> set fs" for k s
    using those_pairs_get [where f = "\<lambda>s k. zparse fmt s (obj_get ob k)", OF kvs assms(2) that] .
  then show ?thesis using v by blast
qed

end
