(* ===== verification/Contracts.thy ===== *)
theory Contracts
  imports Zod
begin

text \<open>
  The contracts of \<open>src/src/contracts\<close>: the event types, the standard envelope with its
  schema, constructor and validator, the payload schemas of every event, and the topics
  of \<open>src/src/config.ts\<close>.
\<close>

section \<open>Topics (config.ts)\<close>

datatype topic =
    OrdersTopic | PaymentsTopic | InventoryTopic | FraudTopic | ShippingTopic
  | NotificationsTopic | OrdersRetry | PaymentsRetry | InventoryRetry | FraudRetry
  | ShippingRetry | DlqTopic | PlatformTopic | ReplayTopic | OtherTopic string

record topic_config =
  topic_name :: string
  partitions :: nat
  replicationFactor :: nat
  topic_settings :: "string list option"

definition domain_settings :: "string list option" where
  "domain_settings = Some [''compression.type=producer'', ''retention.ms=604800000'']"

fun topics :: "topic \<Rightarrow> topic_config" where
  "topics OrdersTopic = \<lparr>topic_name = ''orders.events'', partitions = 3, replicationFactor = 1, topic_settings = domain_settings\<rparr>"
| "topics PaymentsTopic = \<lparr>topic_name = ''payments.events'', partitions = 3, replicationFactor = 1, topic_settings = domain_settings\<rparr>"
| "topics InventoryTopic = \<lparr>topic_name = ''inventory.events'', partitions = 3, replicationFactor = 1, topic_settings = domain_settings\<rparr>"
| "topics FraudTopic = \<lparr>topic_name = ''fraud.events'', partitions = 3, replicationFactor = 1, topic_settings = domain_settings\<rparr>"
| "topics ShippingTopic = \<lparr>topic_name = ''shipping.events'', partitions = 3, replicationFactor = 1, topic_settings = domain_settings\<rparr>"
| "topics NotificationsTopic = \<lparr>topic_name = ''notifications.events'', partitions = 3, replicationFactor = 1, topic_settings = Some [''retention.ms=604800000'']\<rparr>"
| "topics OrdersRetry = \<lparr>topic_name = ''orders.retry'', partitions = 3, replicationFactor = 1, topic_settings = None\<rparr>"
| "topics PaymentsRetry = \<lparr>topic_name = ''payments.retry'', partitions = 3, replicationFactor = 1, topic_settings = None\<rparr>"
| "topics InventoryRetry = \<lparr>topic_name = ''inventory.retry'', partitions = 3, replicationFactor = 1, topic_settings = None\<rparr>"
| "topics FraudRetry = \<lparr>topic_name = ''fraud.retry'', partitions = 3, replicationFactor = 1, topic_settings = None\<rparr>"
| "topics ShippingRetry = \<lparr>topic_name = ''shipping.retry'', partitions = 3, replicationFactor = 1, topic_settings = None\<rparr>"
| "topics DlqTopic = \<lparr>topic_name = ''platform.dlq'', partitions = 1, replicationFactor = 1, topic_settings = Some [''retention.ms=2592000000'']\<rparr>"
| "topics PlatformTopic = \<lparr>topic_name = ''platform.events'', partitions = 1, replicationFactor = 1, topic_settings = None\<rparr>"
| "topics ReplayTopic = \<lparr>topic_name = ''replay.events'', partitions = 1, replicationFactor = 1, topic_settings = None\<rparr>"
| "topics (OtherTopic s) = \<lparr>topic_name = s, partitions = 1, replicationFactor = 1, topic_settings = None\<rparr>"

section \<open>Event types (contracts/index.ts)\<close>

datatype event_type =
    OrderCreated | OrderCancelled
  | PaymentRequested | PaymentAuthorized | PaymentRejected | PaymentRefundRequested | PaymentRefunded
  | InventoryReservationRequested | InventoryReserved | InventoryReservationFailed | InventoryReleased
  | FraudCheckRequested | FraudApproved | FraudRejected
  | ShipmentRequested | ShipmentCreated | ShipmentFailed
  | NotificationRequested | NotificationSent
  | OrderCompleted | OrderFailed
  | OtherEvent string

fun event_name :: "event_type \<Rightarrow> string" where
  "event_name OrderCreated = ''OrderCreated''"
| "event_name OrderCancelled = ''OrderCancelled''"
| "event_name PaymentRequested = ''PaymentRequested''"
| "event_name PaymentAuthorized = ''PaymentAuthorized''"
| "event_name PaymentRejected = ''PaymentRejected''"
| "event_name PaymentRefundRequested = ''PaymentRefundRequested''"
| "event_name PaymentRefunded = ''PaymentRefunded''"
| "event_name InventoryReservationRequested = ''InventoryReservationRequested''"
| "event_name InventoryReserved = ''InventoryReserved''"
| "event_name InventoryReservationFailed = ''InventoryReservationFailed''"
| "event_name InventoryReleased = ''InventoryReleased''"
| "event_name FraudCheckRequested = ''FraudCheckRequested''"
| "event_name FraudApproved = ''FraudApproved''"
| "event_name FraudRejected = ''FraudRejected''"
| "event_name ShipmentRequested = ''ShipmentRequested''"
| "event_name ShipmentCreated = ''ShipmentCreated''"
| "event_name ShipmentFailed = ''ShipmentFailed''"
| "event_name NotificationRequested = ''NotificationRequested''"
| "event_name NotificationSent = ''NotificationSent''"
| "event_name OrderCompleted = ''OrderCompleted''"
| "event_name OrderFailed = ''OrderFailed''"
| "event_name (OtherEvent s) = s"

definition EventTypes :: "event_type list" where
  "EventTypes =
     [OrderCreated, OrderCancelled, PaymentRequested, PaymentAuthorized, PaymentRejected,
      PaymentRefundRequested, PaymentRefunded, InventoryReservationRequested, InventoryReserved,
      InventoryReservationFailed, InventoryReleased, FraudCheckRequested, FraudApproved,
      FraudRejected, ShipmentRequested, ShipmentCreated, ShipmentFailed, NotificationRequested,
      NotificationSent, OrderCompleted, OrderFailed]"

text \<open>The type a string names: what the \<open>switch\<close> statements of the handlers compare.\<close>

definition event_of_name :: "string \<Rightarrow> event_type" where
  "event_of_name s =
     (case List.find (\<lambda>t. event_name t = s) EventTypes of Some t \<Rightarrow> t | None \<Rightarrow> OtherEvent s)"

lemma event_name_of_name [simp]: "event_name (event_of_name s) = s"
  by (auto simp: event_of_name_def split: option.split dest: find_Some_mem)

lemma event_names_read_back:
  "list_all (\<lambda>t. event_of_name (event_name t) = t \<and> event_name t \<noteq> []) EventTypes"
  by code_simp

lemma event_of_name_known [simp]: "t \<in> set EventTypes \<Longrightarrow> event_of_name (event_name t) = t"
  using event_names_read_back by (simp add: list_all_iff)

lemma event_name_nonempty [simp]: "t \<in> set EventTypes \<Longrightarrow> event_name t \<noteq> []"
  using event_names_read_back by (simp add: list_all_iff)

section \<open>The envelope (contracts/envelope.ts)\<close>

record envelope =
  event_id :: string
  event_type :: event_type
  event_version :: int
  sequence_number :: "int option"
  aggregate_id :: string
  aggregate_type :: string
  occurred_at :: string
  producer :: string
  correlation_id :: string
  causation_id :: string
  schema_version :: int
  payload :: obj

definition EventEnvelopeSchema :: schema where
  "EventEnvelopeSchema = ZObject
     [(''event_id'', ZOr (ZFormat ''uuid'') z_nonempty),
      (''event_type'', z_nonempty),
      (''event_version'', ZDefault (ZNumber [NInt, NPositive]) (JNum (Fin 1))),
      (''sequence_number'', ZOptional (ZNumber [NInt, NPositive])),
      (''aggregate_id'', z_nonempty),
      (''aggregate_type'', z_nonempty),
      (''occurred_at'', ZOr (ZFormat ''datetime'') ZIsoPrefix),
      (''producer'', z_nonempty),
      (''correlation_id'', z_nonempty),
      (''causation_id'', z_nonempty),
      (''schema_version'', ZDefault (ZNumber [NInt, NPositive]) (JNum (Fin 1))),
      (''payload'', ZRecord)]"

record envelope_params =
  p_eventId :: "string option"
  p_eventType :: event_type
  p_eventVersion :: "int option"
  p_sequenceNumber :: "int option"
  p_aggregateId :: string
  p_aggregateType :: string
  p_occurredAt :: "string option"
  p_producer :: string
  p_correlationId :: string
  p_causationId :: string
  p_schemaVersion :: "int option"
  p_payload :: obj

definition or_string :: "string option \<Rightarrow> string \<Rightarrow> string" where
  "or_string x d = (case x of Some s \<Rightarrow> if s = [] then d else s | None \<Rightarrow> d)"

definition or_int :: "int option \<Rightarrow> int \<Rightarrow> int" where
  "or_int x d = (case x of Some n \<Rightarrow> if n = 0 then d else n | None \<Rightarrow> d)"

text \<open>\<open>createEventEnvelope\<close>; the time is read and the uuid drawn by the caller.\<close>

definition createEventEnvelope :: "nat \<Rightarrow> string \<Rightarrow> envelope_params \<Rightarrow> envelope" where
  "createEventEnvelope t uuid p =
     \<lparr>event_id = or_string (p_eventId p) (''evt_'' @ uuid),
      event_type = p_eventType p,
      event_version = or_int (p_eventVersion p) 1,
      sequence_number = p_sequenceNumber p,
      aggregate_id = p_aggregateId p,
      aggregate_type = p_aggregateType p,
      occurred_at = or_string (p_occurredAt p) (toISOString t),
      producer = p_producer p,
      correlation_id = p_correlationId p,
      causation_id = p_causationId p,
      schema_version = or_int (p_schemaVersion p) 1,
      payload = p_payload p\<rparr>"

text \<open>The envelope object itself, as it is serialised.\<close>

definition js_int :: "int \<Rightarrow> js" where
  "js_int n = JNum (Fin (of_int n))"

definition js_of_envelope :: "envelope \<Rightarrow> js" where
  "js_of_envelope e = JObj
     [(''event_id'', JStr (event_id e)),
      (''event_type'', JStr (event_name (event_type e))),
      (''event_version'', js_int (event_version e)),
      (''sequence_number'', (case sequence_number e of None \<Rightarrow> JUndef | Some n \<Rightarrow> js_int n)),
      (''aggregate_id'', JStr (aggregate_id e)),
      (''aggregate_type'', JStr (aggregate_type e)),
      (''occurred_at'', JStr (occurred_at e)),
      (''producer'', JStr (producer e)),
      (''correlation_id'', JStr (correlation_id e)),
      (''causation_id'', JStr (causation_id e)),
      (''schema_version'', js_int (schema_version e)),
      (''payload'', JObj (payload e))]"

fun int_of_js :: "js \<Rightarrow> int" where
  "int_of_js (JNum (Fin r)) = \<lfloor>r\<rfloor>"
| "int_of_js _ = 0"

fun obj_of :: "js \<Rightarrow> obj" where
  "obj_of (JObj ob) = ob"
| "obj_of _ = []"

text \<open>The fields of a value that passed the envelope schema.\<close>

definition envelope_of_js :: "js \<Rightarrow> envelope" where
  "envelope_of_js v = (let g = obj_get (obj_of v) in
     \<lparr>event_id = str_of (g ''event_id''),
      event_type = event_of_name (str_of (g ''event_type'')),
      event_version = int_of_js (g ''event_version''),
      sequence_number = (if g ''sequence_number'' = JUndef then None
                         else Some (int_of_js (g ''sequence_number''))),
      aggregate_id = str_of (g ''aggregate_id''),
      aggregate_type = str_of (g ''aggregate_type''),
      occurred_at = str_of (g ''occurred_at''),
      producer = str_of (g ''producer''),
      correlation_id = str_of (g ''correlation_id''),
      causation_id = str_of (g ''causation_id''),
      schema_version = int_of_js (g ''schema_version''),
      payload = obj_of (g ''payload'')\<rparr>)"

definition validateEventEnvelope ::
  "(string \<Rightarrow> string \<Rightarrow> bool) \<Rightarrow> js \<Rightarrow> schema option \<Rightarrow> exn + envelope" where
  "validateEventEnvelope fmt raw payloadSchema =
     (case zparse fmt EventEnvelopeSchema raw of
        None \<Rightarrow> Inl (ZodError ''invalid envelope'')
      | Some v \<Rightarrow>
          (let e = envelope_of_js v in
           case payloadSchema of
             None \<Rightarrow> Inr e
           | Some s \<Rightarrow>
               (case zparse fmt s (JObj (payload e)) of
                  None \<Rightarrow> Inl (ZodError ''invalid payload'')
                | Some pv \<Rightarrow> Inr (e\<lparr>payload := obj_of pv\<rparr>))))"

section \<open>Round trip\<close>

text \<open>What the constructor guarantees and the validator demands.\<close>

definition valid_envelope :: "envelope \<Rightarrow> bool" where
  "valid_envelope e \<longleftrightarrow>
     event_id e \<noteq> [] \<and> event_name (event_type e) \<noteq> [] \<and>
     event_of_name (event_name (event_type e)) = event_type e \<and>
     0 < event_version e \<and> (\<forall>n. sequence_number e = Some n \<longrightarrow> 0 < n) \<and>
     aggregate_id e \<noteq> [] \<and> aggregate_type e \<noteq> [] \<and> iso_prefix (occurred_at e) \<and>
     producer e \<noteq> [] \<and> correlation_id e \<noteq> [] \<and> causation_id e \<noteq> [] \<and> 0 < schema_version e"

lemma valid_createEventEnvelope:
  assumes "iso_year t < 10000"
    and "event_of_name (event_name (p_eventType p)) = p_eventType p"
    and "event_name (p_eventType p) \<noteq> []" "p_aggregateId p \<noteq> []" "p_aggregateType p \<noteq> []"
    and "p_producer p \<noteq> []" "p_correlationId p \<noteq> []" "p_causationId p \<noteq> []"
    and "p_eventVersion p = None" "p_schemaVersion p = None" "p_sequenceNumber p = None"
    and "p_occurredAt p = None"
  shows "valid_envelope (createEventEnvelope t uuid p)"
  using assms
  by (auto simp: valid_envelope_def createEventEnvelope_def or_string_def or_int_def
      iso_prefix_toISOString split: option.split)

lemma validate_js_of_envelope:
  assumes "valid_envelope e"
  shows "validateEventEnvelope fmt (to_json (js_of_envelope e)) None
         = Inr (e\<lparr>payload := obj_json (payload e)\<rparr>)"
  using assms
  by (cases "sequence_number e")
    (auto simp: validateEventEnvelope_def EventEnvelopeSchema_def js_of_envelope_def
      envelope_of_js_def valid_envelope_def js_int_def Let_def)

text \<open>What a validated envelope has.\<close>

lemma validated_envelope:
  assumes "validateEventEnvelope fmt raw None = Inr e"
  shows "event_name (event_type e) \<noteq> []" "aggregate_id e \<noteq> []" "aggregate_type e \<noteq> []" "producer e \<noteq> []"
    "correlation_id e \<noteq> []" "causation_id e \<noteq> []"
proof -
  obtain v where v: "zparse fmt EventEnvelopeSchema raw = Some v" "e = envelope_of_js v"
    using assms by (auto simp: validateEventEnvelope_def Let_def split: option.splits)
  obtain fs where fs: "EventEnvelopeSchema = ZObject fs" by (simp add: EventEnvelopeSchema_def)
  have d: "distinct (map fst fs)" using fs by (auto simp: EventEnvelopeSchema_def)
  from v(1) d obtain ob out where out: "raw = JObj ob" "v = JObj out"
    "\<And>k s. (k, s) \<in> set fs \<Longrightarrow> zparse fmt s (obj_get ob k) = Some (obj_get out k)"
    unfolding fs using zparse_object_get by blast
  have str: "str_of (obj_get out k) \<noteq> []" if "(k, z_nonempty) \<in> set fs" for k
    using out(3) [OF that] by (cases "obj_get ob k"; cases "obj_get out k") (auto split: if_splits)
  have mem: "(k, z_nonempty) \<in> set fs"
    if "k \<in> {''event_type'', ''aggregate_id'', ''aggregate_type'', ''producer'', ''correlation_id'', ''causation_id''}" for k
    using that fs by (auto simp: EventEnvelopeSchema_def)
  show "event_name (event_type e) \<noteq> []" "aggregate_id e \<noteq> []" "aggregate_type e \<noteq> []" "producer e \<noteq> []"
    "correlation_id e \<noteq> []" "causation_id e \<noteq> []"
    unfolding v(2) envelope_of_js_def out(2) Let_def using str mem by simp_all
qed

end
