(* ===== verification/Tables.thy ===== *)
theory Tables
  imports Contracts
begin

text \<open>
  The PostgreSQL tables of \<open>DatabaseService.createTables\<close>: one record per table with
  its columns, the database as a record of tables, and the conversions of bound
  parameters (node-postgres sends a parameter as text, the column's type reads it).
  A timestamp column written by CURRENT_TIMESTAMP is a number of milliseconds; a
  timestamp bound from an envelope is the ISO text of the envelope.
\<close>

section \<open>Bound parameters\<close>

text \<open>
  \<open>prepareValue\<close> of node-postgres: undefined and null are NULL (\<open>None\<close>), arrays become an
  array literal, objects their JSON text.
\<close>

definition pg_escape :: "string \<Rightarrow> string" where
  "pg_escape s = concat (map (\<lambda>c. if c = CHR 0x5C \<or> c = CHR 0x22 then [CHR 0x5C, c] else [c]) s)"

fun pg_param :: "js \<Rightarrow> string option" where
  "pg_param JUndef = None"
| "pg_param JNull = None"
| "pg_param (JBool b) = Some (if b then ''true'' else ''false'')"
| "pg_param (JNum n) = Some (num_string n)"
| "pg_param (JStr s) = Some s"
| "pg_param (JArr vs) = Some (''{'' @ join_comma (map (\<lambda>v.
     case pg_param v of None \<Rightarrow> ''NULL''
     | Some t \<Rightarrow> if is_array v then t else CHR 0x22 # pg_escape t @ [CHR 0x22]) vs) @ ''}'')"
| "pg_param (JObj ob) = Some (json_text (JObj ob))"

text \<open>Conversions of parameters in sequence: the first error is the error of the statement.\<close>

definition bind_sum :: "exn + 'a \<Rightarrow> ('a \<Rightarrow> exn + 'b) \<Rightarrow> exn + 'b" where
  "bind_sum m f = (case m of Inl e \<Rightarrow> Inl e | Inr x \<Rightarrow> f x)"

lemma bind_sum_simps [simp]: "bind_sum (Inl e) f = Inl e" "bind_sum (Inr x) f = f x"
  by (simp_all add: bind_sum_def)

lemma bind_sum_Inr: "bind_sum m f = Inr y \<longleftrightarrow> (\<exists>x. m = Inr x \<and> f x = Inr y)"
  by (cases m) auto

definition not_null :: "js \<Rightarrow> exn + string" where
  "not_null v = (case pg_param v of None \<Rightarrow> Inl (PgError ''null value violates not-null constraint'')
                 | Some s \<Rightarrow> Inr s)"

text \<open>
  A text for a VARCHAR(\<open>n\<close>) column: the server refuses a NUL and a text that is too long, unless
  what is too much is blanks, which it cuts off.
\<close>

definition pg_varchar :: "nat \<Rightarrow> string \<Rightarrow> exn + string" where
  "pg_varchar n s =
     (if CHR 0x00 \<in> set s then Inl (PgError ''invalid byte sequence'')
      else if length s \<le> n then Inr s
      else if list_all (\<lambda>c. c = CHR 0x20) (drop n s) then Inr (take n s)
      else Inl (PgError ''value too long for type character varying''))"

lemma not_null_str [simp]: "not_null (JStr s) = Inr s"
  by (simp add: not_null_def)

text \<open>A parameter for a VARCHAR(\<open>n\<close>) NOT NULL column.\<close>

definition text_column :: "nat \<Rightarrow> js \<Rightarrow> exn + string" where
  "text_column n v = bind_sum (not_null v) (pg_varchar n)"

lemma text_column_str [simp]:
  "length s \<le> n \<Longrightarrow> CHR 0x00 \<notin> set s \<Longrightarrow> text_column n (JStr s) = Inr s"
  by (simp add: text_column_def not_null_def pg_varchar_def)

text \<open>DECIMAL(10, 2): rounded half away from zero to two decimals, at most eight digits before.\<close>

definition round_cents :: "rat \<Rightarrow> rat" where
  "round_cents x = (if x < 0 then - (of_int \<lfloor>- x * 100 + 1 / 2\<rfloor> / 100)
                    else of_int \<lfloor>x * 100 + 1 / 2\<rfloor> / 100)"

definition numeric_10_2 :: "rat \<Rightarrow> exn + jnum" where
  "numeric_10_2 x = (let r = round_cents x in
     if \<bar>r\<bar> < 10 ^ 8 then Inr (Fin r) else Inl (PgError ''numeric field overflow''))"

definition pg_decimal :: "js \<Rightarrow> exn + jnum" where
  "pg_decimal v = (case v of
       JNum (Fin x) \<Rightarrow> numeric_10_2 (decimal_value x)
     | JNum NaN \<Rightarrow> Inr NaN
     | JNum _ \<Rightarrow> Inl (PgError ''numeric field overflow'')
     | JStr s \<Rightarrow>
         (let t = trim s; neg = (t \<noteq> [] \<and> hd t = CHR ''-'');
              u = (if t \<noteq> [] \<and> (hd t = CHR ''-'' \<or> hd t = CHR ''+'') then tl t else t)
          in case decimal_literal u of
               Some r \<Rightarrow> numeric_10_2 (if neg then - r else r)
             | None \<Rightarrow> Inl (PgError ''invalid input syntax for type numeric''))
     | JUndef \<Rightarrow> Inl (PgError ''null value violates not-null constraint'')
     | JNull \<Rightarrow> Inl (PgError ''null value violates not-null constraint'')
     | _ \<Rightarrow> Inl (PgError ''invalid input syntax for type numeric''))"

text \<open>INT: a whole number within 32 bits.\<close>

definition int4 :: "int \<Rightarrow> exn + int" where
  "int4 n = (if - (2 ^ 31) \<le> n \<and> n < 2 ^ 31 then Inr n else Inl (PgError ''integer out of range''))"

definition pg_int :: "js \<Rightarrow> exn + int" where
  "pg_int v = (case v of
       JNum (Fin x) \<Rightarrow> if x = of_int \<lfloor>x\<rfloor> then int4 \<lfloor>x\<rfloor>
                       else Inl (PgError ''invalid input syntax for type integer'')
     | JStr s \<Rightarrow>
         (let t = trim s; neg = (t \<noteq> [] \<and> hd t = CHR ''-'');
              u = (if t \<noteq> [] \<and> (hd t = CHR ''-'' \<or> hd t = CHR ''+'') then tl t else t)
          in if u \<noteq> [] \<and> list_all is_digit u
             then int4 (if neg then - digits_val u else digits_val u)
             else Inl (PgError ''invalid input syntax for type integer''))
     | _ \<Rightarrow> Inl (PgError ''invalid input syntax for type integer''))"

section \<open>Rows\<close>

text \<open>1. \<open>orders\<close>, the write model.\<close>

record order_row =
  or_id :: string
  or_user_id :: string
  or_status :: string
  or_total_amount :: jnum
  or_metadata :: obj
  or_created_at :: nat
  or_updated_at :: nat

text \<open>
  2. and 11. The two outbox tables share the columns of the lease protocol.
\<close>

datatype outbox_status = ObPending | ObProcessing | ObPublished | ObFailed

record lease_row =
  ob_id :: string
  ob_topic :: topic
  ob_payload :: obj
  ob_status :: outbox_status
  ob_attempts :: nat
  ob_last_error :: "string option"
  ob_lease_owner :: "string option"
  ob_leased_at :: "nat option"
  ob_lease_expires_at :: "nat option"
  ob_created_at :: nat
  ob_published_at :: "nat option"

record outbox_row = lease_row +
  ob_aggregate_id :: string
  ob_aggregate_type :: string
  ob_event_type :: event_type
  ob_event_version :: int
  ob_correlation_id :: string
  ob_causation_id :: string

record dlq_outbox_row = lease_row +
  ob_dlq_id :: string

text \<open>3. \<open>processed_events\<close>, unique on event and consumer.\<close>

record processed_row =
  pe_event_id :: string
  pe_consumer_name :: string
  pe_status :: string
  pe_attempts :: nat
  pe_error :: "string option"
  pe_processed_at :: nat

definition pe_key :: "processed_row \<Rightarrow> string \<times> string" where
  "pe_key r = (pe_event_id r, pe_consumer_name r)"

text \<open>4. \<open>saga_instances\<close>.\<close>

datatype saga_state =
    CREATED | PAYMENT_PENDING | PAYMENT_APPROVED | INVENTORY_PENDING | INVENTORY_RESERVED
  | FRAUD_PENDING | FRAUD_APPROVED | SHIPPING_PENDING | SHIPPED | COMPLETED | COMPENSATING
  | CANCELLED | FAILED

record saga_row =
  saga_id :: string
  sg_aggregate_id :: string
  saga_type :: string
  state :: saga_state
  current_step :: string
  sg_correlation_id :: string
  sg_context :: obj
  failure_reason :: "string option"
  sg_created_at :: nat
  sg_updated_at :: nat

text \<open>5. \<open>event_store\<close>.\<close>

record event_row =
  es_event_id :: string
  es_aggregate_id :: string
  es_aggregate_type :: string
  es_event_type :: event_type
  es_event_version :: int
  es_sequence_number :: int
  es_payload :: obj
  es_correlation_id :: string
  es_causation_id :: string
  es_producer :: string
  es_occurred_at :: string
  es_created_at :: nat

text \<open>6. \<open>projection_applied_events\<close>.\<close>

record applied_row =
  pa_projection_name :: string
  pa_event_id :: string
  pa_aggregate_id :: string
  pa_applied_at :: nat

definition pa_key :: "applied_row \<Rightarrow> string \<times> string" where
  "pa_key r = (pa_projection_name r, pa_event_id r)"

text \<open>7. The read models.\<close>

record order_read_row =
  om_order_id :: string
  om_user_id :: string
  om_status :: string
  om_total_amount :: jnum
  om_currency :: string
  om_items :: js
  om_payment_id :: "string option"
  om_reservation_id :: "string option"
  om_fraud_check_id :: "string option"
  om_shipment_id :: "string option"
  om_tracking_number :: "string option"
  om_failure_reason :: "string option"
  om_created_at :: string
  om_updated_at :: string
  om_version :: nat

record payment_read_row =
  pm_payment_id :: string
  pm_order_id :: string
  pm_user_id :: string
  pm_amount :: jnum
  pm_status :: string
  pm_authorization_code :: "string option"
  pm_refund_id :: "string option"
  pm_failure_reason :: "string option"
  pm_created_at :: string
  pm_updated_at :: string

record inventory_read_row =
  iv_sku :: string
  iv_name :: string
  iv_total_stock :: int
  iv_reserved_stock :: int
  iv_available_stock :: int
  iv_updated_at :: string

record shipment_read_row =
  sh_shipment_id :: string
  sh_order_id :: string
  sh_tracking_number :: string
  sh_carrier :: string
  sh_status :: string
  sh_estimated_delivery :: "string option"
  sh_created_at :: string
  sh_updated_at :: string

text \<open>8. \<open>dlq_messages\<close>.\<close>

datatype dlq_status = UNRESOLVED | REPLAYING | REPLAYED | DISCARDED

record dlq_row =
  dl_id :: string
  dl_event_id :: string
  dl_topic :: topic
  dl_partition :: nat
  dl_offset :: string
  dl_consumer_name :: string
  dl_error_message :: string
  dl_stack_trace :: "string option"
  dl_payload :: obj
  dl_correlation_id :: "string option"
  dl_attempts :: nat
  dl_status :: dlq_status
  dl_failed_at :: nat
  dl_resolved_at :: "nat option"

text \<open>9. \<open>order_events\<close>, the legacy timeline.\<close>

record order_event_row =
  oe_order_id :: string
  oe_event_type :: string
  oe_topic :: string
  oe_created_at :: nat

section \<open>The database\<close>

record database =
  orders :: "order_row list"
  outbox_events :: "outbox_row list"
  processed_events :: "processed_row list"
  saga_instances :: "saga_row list"
  event_store :: "event_row list"
  projection_applied_events :: "applied_row list"
  order_read_model :: "order_read_row list"
  payment_read_model :: "payment_read_row list"
  inventory_read_model :: "inventory_read_row list"
  shipment_read_model :: "shipment_read_row list"
  dlq_messages :: "dlq_row list"
  order_events :: "order_event_row list"
  dlq_outbox :: "dlq_outbox_row list"

text \<open>The stock that \<open>createTables\<close> seeds.\<close>

definition seed_item :: "nat \<Rightarrow> string \<Rightarrow> string \<Rightarrow> int \<Rightarrow> inventory_read_row" where
  "seed_item t sku name n =
     \<lparr>iv_sku = sku, iv_name = name, iv_total_stock = n, iv_reserved_stock = 0,
      iv_available_stock = n, iv_updated_at = toISOString t\<rparr>"

definition inventory_seed :: "nat \<Rightarrow> inventory_read_row list" where
  "inventory_seed t =
     [seed_item t ''LAPTOP-001'' ''High Performance Workstation'' 100,
      seed_item t ''PHONE-002'' ''Smartphone Pro Max'' 200,
      seed_item t ''KEYBOARD-003'' ''Wireless Mechanical Keyboard'' 500,
      seed_item t ''MONITOR-004'' ''4K Ultra-wide Monitor'' 50,
      seed_item t ''OUT_OF_STOCK_ITEM'' ''Limited Edition Collectible'' 0]"

definition empty_database :: database where
  "empty_database =
     \<lparr>orders = [], outbox_events = [], processed_events = [], saga_instances = [],
      event_store = [], projection_applied_events = [], order_read_model = [],
      payment_read_model = [], inventory_read_model = [], shipment_read_model = [],
      dlq_messages = [], order_events = [], dlq_outbox = []\<rparr>"

text \<open>\<open>CREATE TABLE IF NOT EXISTS\<close> and the seed, \<open>ON CONFLICT (sku) DO NOTHING\<close>.\<close>

definition seed_inventory :: "nat \<Rightarrow> inventory_read_row list \<Rightarrow> inventory_read_row list" where
  "seed_inventory t stock = foldl (\<lambda>tbl r. insert_ignore iv_sku r tbl) stock (inventory_seed t)"

definition createTables :: "nat \<Rightarrow> database \<Rightarrow> database" where
  "createTables t d = d\<lparr>inventory_read_model := seed_inventory t (inventory_read_model d)\<rparr>"

text \<open>The integrity constraints that the schema declares.\<close>

definition db_wf :: "database \<Rightarrow> bool" where
  "db_wf d \<longleftrightarrow>
     unique_by or_id (orders d) \<and> unique_by ob_id (outbox_events d) \<and>
     unique_by pe_key (processed_events d) \<and> unique_by saga_id (saga_instances d) \<and>
     unique_by es_event_id (event_store d) \<and>
     unique_by (\<lambda>r. (es_aggregate_id r, es_sequence_number r)) (event_store d) \<and>
     unique_by pa_key (projection_applied_events d) \<and>
     unique_by om_order_id (order_read_model d) \<and> unique_by pm_payment_id (payment_read_model d) \<and>
     unique_by iv_sku (inventory_read_model d) \<and> unique_by sh_shipment_id (shipment_read_model d) \<and>
     unique_by dl_id (dlq_messages d) \<and> unique_by ob_id (dlq_outbox d)"

lemma unique_by_Nil [simp]: "unique_by key []"
  by (simp add: unique_by_def)

lemma db_wf_empty: "db_wf empty_database"
  by (simp add: db_wf_def empty_database_def)

lemma unique_seed_inventory:
  "unique_by iv_sku stock \<Longrightarrow> unique_by iv_sku (foldl (\<lambda>tbl r. insert_ignore iv_sku r tbl) stock rs)"
  by (induction rs arbitrary: stock) (auto intro: unique_by_insert_ignore)

lemma db_wf_createTables: "db_wf d \<Longrightarrow> db_wf (createTables t d)"
  by (simp add: db_wf_def createTables_def seed_inventory_def unique_seed_inventory)

lemma seed_keeps_stock: "set stock \<subseteq> set (foldl (\<lambda>tbl r. insert_ignore iv_sku r tbl) stock rs)"
proof (induction rs arbitrary: stock)
  case (Cons r rs)
  from set_insert_ignore_mono [of stock iv_sku r] Cons.IH [of "insert_ignore iv_sku r stock"]
  show ?case by simp
qed simp

end
