(* ===== verification/Chaos.thy ===== *)
theory Chaos
  imports Tables
begin

text \<open>
  \<open>src/src/chaos/chaos-engine.ts\<close>: the fault configuration of the process-wide
  \<open>ChaosEngine\<close>, with its status, its update by a partial configuration, its reset and
  the two questions the consumers ask it.
\<close>

record chaos_config =
  paymentFailure :: bool
  paymentLatencyMs :: jnum
  inventoryFailure :: bool
  inventoryLatencyMs :: jnum
  fraudRejection :: bool
  fraudLatencyMs :: jnum
  shippingFailure :: bool
  notificationFailure :: bool
  dbFailure :: bool
  malformedEventRate :: jnum

definition DEFAULT_CHAOS_CONFIG :: chaos_config where
  "DEFAULT_CHAOS_CONFIG =
     \<lparr>paymentFailure = False, paymentLatencyMs = Fin 0, inventoryFailure = False,
      inventoryLatencyMs = Fin 0, fraudRejection = False, fraudLatencyMs = Fin 0,
      shippingFailure = False, notificationFailure = False, dbFailure = False,
      malformedEventRate = Fin 0\<rparr>"

datatype chaos_service = SvPayment | SvInventory | SvFraud | SvShipping | SvNotification | SvDb

text \<open>\<open>Partial<ChaosConfig>\<close>: the fields that a request sets.\<close>

datatype chaos_fault =
    SetPaymentFailure bool | SetPaymentLatency jnum
  | SetInventoryFailure bool | SetInventoryLatency jnum
  | SetFraudRejection bool | SetFraudLatency jnum
  | SetShippingFailure bool | SetNotificationFailure bool | SetDbFailure bool
  | SetMalformedEventRate jnum

fun apply_fault :: "chaos_fault \<Rightarrow> chaos_config \<Rightarrow> chaos_config" where
  "apply_fault (SetPaymentFailure b) c = c\<lparr>paymentFailure := b\<rparr>"
| "apply_fault (SetPaymentLatency n) c = c\<lparr>paymentLatencyMs := n\<rparr>"
| "apply_fault (SetInventoryFailure b) c = c\<lparr>inventoryFailure := b\<rparr>"
| "apply_fault (SetInventoryLatency n) c = c\<lparr>inventoryLatencyMs := n\<rparr>"
| "apply_fault (SetFraudRejection b) c = c\<lparr>fraudRejection := b\<rparr>"
| "apply_fault (SetFraudLatency n) c = c\<lparr>fraudLatencyMs := n\<rparr>"
| "apply_fault (SetShippingFailure b) c = c\<lparr>shippingFailure := b\<rparr>"
| "apply_fault (SetNotificationFailure b) c = c\<lparr>notificationFailure := b\<rparr>"
| "apply_fault (SetDbFailure b) c = c\<lparr>dbFailure := b\<rparr>"
| "apply_fault (SetMalformedEventRate n) c = c\<lparr>malformedEventRate := n\<rparr>"

definition setFault :: "chaos_fault list \<Rightarrow> chaos_config \<Rightarrow> chaos_config" where
  "setFault fs c = fold apply_fault fs c"

definition reset :: "chaos_config \<Rightarrow> chaos_config" where
  "reset c = DEFAULT_CHAOS_CONFIG"

text \<open>\<open>getStatus().isChaosActive\<close>: some flag set or some number above zero.\<close>

definition isChaosActive :: "chaos_config \<Rightarrow> bool" where
  "isChaosActive c \<longleftrightarrow>
     paymentFailure c \<or> js_gt (paymentLatencyMs c) (Fin 0) \<or>
     inventoryFailure c \<or> js_gt (inventoryLatencyMs c) (Fin 0) \<or>
     fraudRejection c \<or> js_gt (fraudLatencyMs c) (Fin 0) \<or>
     shippingFailure c \<or> notificationFailure c \<or> dbFailure c \<or>
     js_gt (malformedEventRate c) (Fin 0)"

definition shouldFail :: "chaos_service \<Rightarrow> chaos_config \<Rightarrow> bool" where
  "shouldFail s c = (case s of
       SvPayment \<Rightarrow> paymentFailure c
     | SvInventory \<Rightarrow> inventoryFailure c
     | SvFraud \<Rightarrow> fraudRejection c
     | SvShipping \<Rightarrow> shippingFailure c
     | SvNotification \<Rightarrow> notificationFailure c
     | SvDb \<Rightarrow> dbFailure c)"

text \<open>The delay that \<open>checkLatency\<close> sleeps; only three services have one.\<close>

definition chaos_delay :: "chaos_service \<Rightarrow> chaos_config \<Rightarrow> jnum" where
  "chaos_delay s c = (case s of
       SvPayment \<Rightarrow> paymentLatencyMs c
     | SvInventory \<Rightarrow> inventoryLatencyMs c
     | SvFraud \<Rightarrow> fraudLatencyMs c
     | _ \<Rightarrow> Fin 0)"

lemma reset_inactive [simp]: "\<not> isChaosActive (reset c)"
  by (simp add: isChaosActive_def reset_def DEFAULT_CHAOS_CONFIG_def)

lemma reset_no_fault [simp]: "\<not> shouldFail s (reset c)"
  by (cases s) (simp_all add: shouldFail_def reset_def DEFAULT_CHAOS_CONFIG_def)

lemma fault_is_active: "shouldFail s c \<Longrightarrow> isChaosActive c"
  by (cases s) (simp_all add: shouldFail_def isChaosActive_def)

lemma delay_is_active: "js_gt (chaos_delay s c) (Fin 0) \<Longrightarrow> isChaosActive c"
  by (cases s) (simp_all add: chaos_delay_def isChaosActive_def)

end
