(* ===== verification/World.thy ===== *)
theory World
  imports Chaos
begin

text \<open>
  The state the services share and the calls they make.  A computation of the program is
  a function from the world to a result (an error or a value) and the new world; the
  combinators are those of an \<open>async\<close> function (sequence, \<open>throw\<close>, \<open>try\<close>/\<open>catch\<close>).

  The outside is part of the world: a script says for each database call and each Kafka
  call whether it succeeds, is refused without effect, or takes effect while its
  acknowledgement is lost, and how many milliseconds it takes.  An exhausted script means
  success at once.  A theorem for every script therefore covers every way the database
  and the broker can fail.  Random numbers, uuids, zod's string formats and stack traces
  are functions in the world.
\<close>

section \<open>The world\<close>

datatype outcome = Done | Refused string | AckLost string

type_synonym script = "(outcome \<times> nat) list"

record message =
  m_topic :: topic
  m_key :: string
  m_value :: wire
  m_headers :: "(string \<times> string) list"

datatype ws_event =
    WsOrderCreated js
  | WsOrderUpdated js
  | WsOrderEvent string js
  | WsConsumerHealth js
  | WsMetrics js

datatype consumer_health = Healthy | Degraded | Down

record consumer_state =
  status :: consumer_health
  lastEventTimestamp :: "string option"
  lastProcessedTimestamp :: "string option"
  processedCount :: nat
  failureCount :: nat

record world =
  db :: database
  bus :: "message list"
  sockets :: "ws_event list"
  now :: nat
  uuid_src :: "nat \<Rightarrow> string"
  uuid_next :: nat
  rand_src :: "nat \<Rightarrow> nat"
  rand_next :: nat
  db_script :: script
  kafka_script :: script
  tx_aborted :: bool
  tx_time :: nat
  chaos :: chaos_config
  consumers :: "string \<Rightarrow> consumer_state"
  zod_format :: "string \<Rightarrow> string \<Rightarrow> bool"
  error_stack :: "exn \<Rightarrow> string option"

type_synonym 'a op = "world \<Rightarrow> (exn + 'a) \<times> world"

section \<open>Combinators\<close>

definition returnE :: "'a \<Rightarrow> 'a op" where
  [run_defs]: "returnE x = (\<lambda>w. (Inr x, w))"

definition throwE :: "exn \<Rightarrow> 'a op" where
  [run_defs]: "throwE e = (\<lambda>w. (Inl e, w))"

definition bindE :: "'a op \<Rightarrow> ('a \<Rightarrow> 'b op) \<Rightarrow> 'b op" where
  "bindE m k = (\<lambda>w. case m w of (Inl e, w') \<Rightarrow> (Inl e, w') | (Inr x, w') \<Rightarrow> k x w')"

definition thenE :: "'a op \<Rightarrow> 'b op \<Rightarrow> 'b op" where
  [run_defs]: "thenE m n = bindE m (\<lambda>_. n)"

definition tryE :: "'a op \<Rightarrow> (exn \<Rightarrow> 'a op) \<Rightarrow> 'a op" where
  "tryE m h = (\<lambda>w. case m w of (Inl e, w') \<Rightarrow> h e w' | (Inr x, w') \<Rightarrow> (Inr x, w'))"

definition modifyE :: "(world \<Rightarrow> world) \<Rightarrow> unit op" where
  [run_defs]: "modifyE f = (\<lambda>w. (Inr (), f w))"

definition getsE :: "(world \<Rightarrow> 'a) \<Rightarrow> 'a op" where
  [run_defs]: "getsE f = (\<lambda>w. (Inr (f w), w))"

definition liftE :: "exn + 'a \<Rightarrow> 'a op" where
  [run_defs]: "liftE r = (\<lambda>w. (r, w))"

definition whenE :: "bool \<Rightarrow> unit op \<Rightarrow> unit op" where
  [run_defs]: "whenE b m = (if b then m else returnE ())"

primrec forE :: "'a list \<Rightarrow> ('a \<Rightarrow> unit op) \<Rightarrow> unit op" where
  "forE [] f = returnE ()"
| "forE (x # xs) f = thenE (f x) (forE xs f)"

lemma bindE_run [run_defs]:
  "bindE m k w = (case m w of (Inl e, w') \<Rightarrow> (Inl e, w') | (Inr x, w') \<Rightarrow> k x w')"
  by (simp add: bindE_def)

lemma tryE_run [run_defs]:
  "tryE m h w = (case m w of (Inl e, w') \<Rightarrow> h e w' | (Inr x, w') \<Rightarrow> (Inr x, w'))"
  by (simp add: tryE_def)

section \<open>Calls\<close>

definition next_call :: "script \<Rightarrow> outcome \<times> nat" where
  "next_call s = (case s of [] \<Rightarrow> (Done, 0) | c # _ \<Rightarrow> c)"

lemma next_call_simps [simp]: "next_call [] = (Done, 0)" "next_call (c # s) = c"
  by (simp_all add: next_call_def)

datatype runner = Pool | Client

type_synonym 'a stmt = "nat \<Rightarrow> database \<Rightarrow> exn + ('a \<times> database)"

definition db_tick :: "world \<Rightarrow> world" where
  "db_tick w = w\<lparr>now := now w + snd (next_call (db_script w)), db_script := tl (db_script w)\<rparr>"

text \<open>After an error inside a transaction PostgreSQL refuses its further statements.\<close>

definition after_error :: "runner \<Rightarrow> world \<Rightarrow> world" where
  "after_error r w = (if r = Client then w\<lparr>tx_aborted := True\<rparr> else w)"

text \<open>
  \<open>pool.query\<close> (\<open>Pool\<close>: its own transaction) and \<open>client.query\<close> (\<open>Client\<close>: a statement of
  the open transaction).  CURRENT_TIMESTAMP is the start of the transaction.
\<close>

definition query :: "runner \<Rightarrow> 'a stmt \<Rightarrow> 'a op" where
  "query r s w =
     (if r = Client \<and> tx_aborted w
      then (Inl (PgError ''current transaction is aborted''), w)
      else
        let w1 = db_tick w; t = (if r = Client then tx_time w else now w1)
        in case fst (next_call (db_script w)) of
             Done \<Rightarrow> (case s t (db w1) of
                 Inl e \<Rightarrow> (Inl e, after_error r w1)
               | Inr (x, d) \<Rightarrow> (Inr x, w1\<lparr>db := d\<rparr>))
           | Refused m \<Rightarrow> (Inl (PgError m), after_error r w1)
           | AckLost m \<Rightarrow> (case s t (db w1) of
                 Inl e \<Rightarrow> (Inl e, after_error r w1)
               | Inr (x, d) \<Rightarrow> (Inl (PgError m), after_error r (w1\<lparr>db := d\<rparr>))))"

text \<open>A call without effect on the tables: \<open>pool.connect\<close>, \<open>BEGIN\<close>, \<open>ROLLBACK\<close>.\<close>

definition control :: "unit op" where
  "control w =
     (let w1 = db_tick w
      in case fst (next_call (db_script w)) of
           Done \<Rightarrow> (Inr (), w1)
         | Refused m \<Rightarrow> (Inl (PgError m), w1)
         | AckLost m \<Rightarrow> (Inl (PgError m), w1))"

text \<open>
  \<open>COMMIT\<close>: of an aborted transaction it rolls back without an error; a lost
  acknowledgement leaves the transaction committed.
\<close>

definition commit :: "database \<Rightarrow> unit op" where
  "commit snapshot w =
     (let w1 = (if tx_aborted w then (db_tick w)\<lparr>db := snapshot\<rparr> else db_tick w)
      in case fst (next_call (db_script w)) of
           Done \<Rightarrow> (Inr (), w1)
         | Refused m \<Rightarrow> (Inl (PgError m), w1\<lparr>db := snapshot\<rparr>)
         | AckLost m \<Rightarrow> (Inl (PgError m), w1))"

definition begin_tx :: "world \<Rightarrow> world" where
  "begin_tx w = w\<lparr>tx_aborted := False, tx_time := now w\<rparr>"

text \<open>\<open>withTransaction\<close>: connect, BEGIN, the callback, COMMIT; ROLLBACK and rethrow on an error.\<close>

definition withTransaction :: "'a op \<Rightarrow> 'a op" where
  "withTransaction callback w =
     (case control w of
        (Inl e, w1) \<Rightarrow> (Inl e, w1)
      | (Inr _, w1) \<Rightarrow>
          (case control w1 of
             (Inl e, w2) \<Rightarrow> (Inl e, snd (control w2))
           | (Inr _, w2) \<Rightarrow>
               (case callback (begin_tx w2) of
                  (Inl e, w3) \<Rightarrow> (Inl e, snd (control (w3\<lparr>db := db w2, tx_aborted := False\<rparr>)))
                | (Inr x, w3) \<Rightarrow>
                    (case commit (db w2) w3 of
                       (Inl e, w4) \<Rightarrow> (Inl e, snd (control (w4\<lparr>tx_aborted := False\<rparr>)))
                     | (Inr _, w4) \<Rightarrow> (Inr x, w4\<lparr>tx_aborted := False\<rparr>)))))"

definition kafka_tick :: "world \<Rightarrow> world" where
  "kafka_tick w = w\<lparr>now := now w + snd (next_call (kafka_script w)), kafka_script := tl (kafka_script w)\<rparr>"

text \<open>\<open>producer.send\<close>: the messages are appended to the log, or the call fails.\<close>

definition producer_send :: "message list \<Rightarrow> unit op" where
  "producer_send ms w =
     (let w1 = kafka_tick w
      in case fst (next_call (kafka_script w)) of
           Done \<Rightarrow> (Inr (), w1\<lparr>bus := bus w1 @ ms\<rparr>)
         | Refused m \<Rightarrow> (Inl (KafkaError m), w1)
         | AckLost m \<Rightarrow> (Inl (KafkaError m), w1\<lparr>bus := bus w1 @ ms\<rparr>))"

text \<open>The clock, \<open>uuidv4()\<close>, \<open>Math.floor(Math.random() * n)\<close> and \<open>setTimeout\<close>.\<close>

definition clock :: "nat op" where
  [run_defs]: "clock = getsE now"

definition iso_now :: "string op" where
  [run_defs]: "iso_now = getsE (\<lambda>w. toISOString (now w))"

definition uuid :: "string op" where
  [run_defs]: "uuid = (\<lambda>w. (Inr (uuid_src w (uuid_next w)), w\<lparr>uuid_next := Suc (uuid_next w)\<rparr>))"

text \<open>\<open>uuidv4().slice(0, 8)\<close>.\<close>

definition uuid8 :: "string op" where
  [run_defs]: "uuid8 = bindE uuid (\<lambda>u. returnE (take 8 u))"

definition random_below :: "nat \<Rightarrow> nat op" where
  [run_defs]: "random_below n = (\<lambda>w. (Inr (rand_src w (rand_next w) mod n), w\<lparr>rand_next := Suc (rand_next w)\<rparr>))"

definition sleep :: "nat \<Rightarrow> unit op" where
  [run_defs]: "sleep ms = modifyE (\<lambda>w. w\<lparr>now := now w + ms\<rparr>)"

section \<open>What a computation does to the database\<close>

text \<open>
  \<open>db_follows R m\<close>: whatever the scripts say, the database after \<open>m\<close> is related by \<open>R\<close> to
  the database before.  For a reflexive and transitive \<open>R\<close> this composes, and a rolled
  back transaction keeps it; the rules are proved once, in the locale, and every frame,
  monotonicity or invariant fact of a component is an instance.
\<close>

definition db_follows :: "(database \<Rightarrow> database \<Rightarrow> bool) \<Rightarrow> 'a op \<Rightarrow> bool" where
  "db_follows R m \<longleftrightarrow> (\<forall>w. R (db w) (db (snd (m w))))"

definition stmt_follows :: "(database \<Rightarrow> database \<Rightarrow> bool) \<Rightarrow> 'a stmt \<Rightarrow> bool" where
  "stmt_follows R s \<longleftrightarrow> (\<forall>t d x d'. s t d = Inr (x, d') \<longrightarrow> R d d')"

lemma db_followsD: "db_follows R m \<Longrightarrow> R (db w) (db (snd (m w)))"
  by (simp add: db_follows_def)

lemma stmt_followsI:
  "(\<And>t d x d'. s t d = Inr (x, d') \<Longrightarrow> R d d') \<Longrightarrow> stmt_follows R s"
  by (simp add: stmt_follows_def)

lemma db_tick_simps [simp]:
  "db (db_tick w) = db w" "bus (db_tick w) = bus w" "sockets (db_tick w) = sockets w"
  "tx_aborted (db_tick w) = tx_aborted w" "tx_time (db_tick w) = tx_time w"
  "chaos (db_tick w) = chaos w" "consumers (db_tick w) = consumers w"
  "uuid_src (db_tick w) = uuid_src w" "uuid_next (db_tick w) = uuid_next w"
  "kafka_script (db_tick w) = kafka_script w" "db_script (db_tick w) = tl (db_script w)"
  "now (db_tick w) = now w + snd (next_call (db_script w))"
  "zod_format (db_tick w) = zod_format w"
  by (simp_all add: db_tick_def)

lemma kafka_tick_simps [simp]:
  "db (kafka_tick w) = db w" "bus (kafka_tick w) = bus w" "sockets (kafka_tick w) = sockets w"
  "chaos (kafka_tick w) = chaos w" "consumers (kafka_tick w) = consumers w"
  "uuid_src (kafka_tick w) = uuid_src w" "uuid_next (kafka_tick w) = uuid_next w"
  "db_script (kafka_tick w) = db_script w" "kafka_script (kafka_tick w) = tl (kafka_script w)"
  "now (kafka_tick w) = now w + snd (next_call (kafka_script w))"
  by (simp_all add: kafka_tick_def)

lemma db_tick_idle [simp]: "db_script w = [] \<Longrightarrow> db_tick w = w"
  by (cases w) (simp add: db_tick_def)

lemma kafka_tick_idle [simp]: "kafka_script w = [] \<Longrightarrow> kafka_tick w = w"
  by (cases w) (simp add: kafka_tick_def)

lemma begin_tx_simps [simp]:
  "db (begin_tx w) = db w" "bus (begin_tx w) = bus w" "sockets (begin_tx w) = sockets w"
  "now (begin_tx w) = now w" "tx_time (begin_tx w) = now w" "\<not> tx_aborted (begin_tx w)"
  "db_script (begin_tx w) = db_script w" "kafka_script (begin_tx w) = kafka_script w"
  by (simp_all add: begin_tx_def)

lemma after_error_db [simp]: "db (after_error r w) = db w"
  by (simp add: after_error_def)

lemma after_error_bus [simp]: "bus (after_error r w) = bus w"
  by (simp add: after_error_def)

lemma control_db [simp]: "db (snd (control w)) = db w"
  by (simp add: control_def Let_def split: outcome.split)

lemma control_bus [simp]: "bus (snd (control w)) = bus w"
  by (simp add: control_def Let_def split: outcome.split)

locale db_relation =
  fixes R :: "database \<Rightarrow> database \<Rightarrow> bool"
  assumes R_refl: "R d d"
    and R_trans: "R a b \<Longrightarrow> R b c \<Longrightarrow> R a c"
begin

lemma follows_returnE: "db_follows R (returnE x)"
  by (simp add: db_follows_def returnE_def R_refl)

lemma follows_throwE: "db_follows R (throwE e)"
  by (simp add: db_follows_def throwE_def R_refl)

lemma follows_liftE: "db_follows R (liftE r)"
  by (simp add: db_follows_def liftE_def R_refl)

lemma follows_getsE: "db_follows R (getsE f)"
  by (simp add: db_follows_def getsE_def R_refl)

lemma follows_modifyE: "(\<And>w. db (f w) = db w) \<Longrightarrow> db_follows R (modifyE f)"
  by (simp add: db_follows_def modifyE_def R_refl)

lemma follows_bindE:
  assumes "db_follows R m" and "\<And>x. db_follows R (k x)"
  shows "db_follows R (bindE m k)"
  unfolding db_follows_def
proof
  fix w
  from assms(1) have "R (db w) (db (snd (m w)))" by (rule db_followsD)
  with assms(2) show "R (db w) (db (snd (bindE m k w)))"
    by (auto simp: bindE_def db_follows_def split: prod.splits sum.splits) (metis R_trans snd_conv)
qed

lemma follows_thenE: "db_follows R m \<Longrightarrow> db_follows R n \<Longrightarrow> db_follows R (thenE m n)"
  by (simp add: thenE_def follows_bindE)

lemma follows_tryE:
  assumes "db_follows R m" and "\<And>e. db_follows R (h e)"
  shows "db_follows R (tryE m h)"
  unfolding db_follows_def
proof
  fix w
  from assms(1) have "R (db w) (db (snd (m w)))" by (rule db_followsD)
  with assms(2) show "R (db w) (db (snd (tryE m h w)))"
    by (auto simp: tryE_def db_follows_def split: prod.splits sum.splits) (metis R_trans snd_conv)
qed

lemma follows_whenE: "(b \<Longrightarrow> db_follows R m) \<Longrightarrow> db_follows R (whenE b m)"
  by (simp add: whenE_def follows_returnE)

lemma follows_forE: "(\<And>x. x \<in> set xs \<Longrightarrow> db_follows R (f x)) \<Longrightarrow> db_follows R (forE xs f)"
  by (induction xs) (auto intro: follows_returnE follows_thenE)

lemma follows_query: "stmt_follows R s \<Longrightarrow> db_follows R (query r s)"
  by (auto simp: db_follows_def stmt_follows_def query_def Let_def R_refl
      split: outcome.split sum.split)

lemma follows_control: "db_follows R control"
  by (simp add: db_follows_def R_refl)

lemma commit_cases: "db (snd (commit d w)) = d \<or> db (snd (commit d w)) = db w"
  by (auto simp: commit_def Let_def split: outcome.split)

lemma follows_withTransaction:
  assumes "db_follows R m"
  shows "db_follows R (withTransaction m)"
  unfolding db_follows_def
proof
  fix w
  show "R (db w) (db (snd (withTransaction m w)))"
  proof (cases "control w")
    case c1: (Pair r1 w1)
    have d1: "db w1 = db w" using control_db [of w] by (simp add: c1)
    show ?thesis
    proof (cases "control w1")
      case c2: (Pair r2 w2)
      have d2: "db w2 = db w" using control_db [of w1] by (simp add: c2 d1)
      show ?thesis
      proof (cases "m (begin_tx w2)")
        case m3: (Pair r3 w3)
        have "R (db (begin_tx w2)) (db (snd (m (begin_tx w2))))"
          using assms by (rule db_followsD)
        then have d3: "R (db w) (db w3)" by (simp add: m3 d2)
        show ?thesis
        proof (cases "commit (db w2) w3")
          case c4: (Pair r4 w4)
          have "db w4 = db w \<or> db w4 = db w3"
            using commit_cases [of "db w2" w3] unfolding c4 by (simp add: d2)
          then have "R (db w) (db w4)" using d3 R_refl by auto
          then show ?thesis
            by (auto simp: withTransaction_def c1 c2 m3 c4 c4 [unfolded d2] d1 d2 R_refl split: sum.splits)
        qed
      qed
    qed
  qed
qed

lemma follows_producer_send: "db_follows R (producer_send ms)"
  by (simp add: db_follows_def producer_send_def Let_def R_refl split: outcome.split)

lemma follows_uuid: "db_follows R uuid"
  by (simp add: db_follows_def uuid_def R_refl)

lemma follows_random_below: "db_follows R (random_below n)"
  by (simp add: db_follows_def random_below_def R_refl)

lemma follows_uuid8: "db_follows R uuid8"
  unfolding uuid8_def by (intro follows_bindE follows_uuid follows_returnE)

lemma follows_clock: "db_follows R clock"
  unfolding clock_def by (rule follows_getsE)

lemma follows_iso_now: "db_follows R iso_now"
  unfolding iso_now_def by (rule follows_getsE)

lemma follows_sleep: "db_follows R (sleep n)"
  unfolding sleep_def by (rule follows_modifyE) simp

lemma follows_if: "(b \<Longrightarrow> db_follows R m) \<Longrightarrow> (\<not> b \<Longrightarrow> db_follows R n) \<Longrightarrow> db_follows R (if b then m else n)"
  by simp

lemma follows_option:
  "db_follows R m \<Longrightarrow> (\<And>y. db_follows R (k y)) \<Longrightarrow> db_follows R (case x of None \<Rightarrow> m | Some y \<Rightarrow> k y)"
  by (simp split: option.split)

lemmas follows_rules =
  follows_if follows_option
  follows_returnE follows_throwE follows_liftE follows_getsE follows_bindE follows_thenE
  follows_tryE follows_whenE follows_forE follows_query follows_control follows_withTransaction
  follows_producer_send follows_uuid follows_random_below follows_uuid8 follows_clock
  follows_iso_now follows_sleep

end

text \<open>Frame: a part of the database that no statement of a computation writes.\<close>

interpretation keep: db_relation "\<lambda>d d'. g d' = g d" for g
  by unfold_locales auto

text \<open>Invariants: a property that every statement of a computation keeps.\<close>

interpretation always: db_relation "\<lambda>d d'. I d \<longrightarrow> I d'" for I
  by unfold_locales auto

section \<open>What a computation does to the message log\<close>

text \<open>No message is sent.\<close>

definition bus_quiet :: "'a op \<Rightarrow> bool" where
  "bus_quiet m \<longleftrightarrow> (\<forall>w. bus (snd (m w)) = bus w)"

lemma bus_quietD: "bus_quiet m \<Longrightarrow> bus (snd (m w)) = bus w"
  by (simp add: bus_quiet_def)

lemma quiet_basic [inv_rules]:
  "bus_quiet (returnE x)" "bus_quiet (throwE e)" "bus_quiet (liftE r)" "bus_quiet (getsE f)"
  "bus_quiet uuid" "bus_quiet (random_below n)" "bus_quiet clock" "bus_quiet iso_now"
  "bus_quiet (sleep n)" "bus_quiet control"
  by (simp_all add: bus_quiet_def run_defs)

lemma quiet_query [inv_rules]: "bus_quiet (query r s)"
  by (auto simp: bus_quiet_def query_def Let_def split: outcome.split sum.split)

lemma quiet_bindE [inv_rules]: "bus_quiet m \<Longrightarrow> (\<And>x. bus_quiet (k x)) \<Longrightarrow> bus_quiet (bindE m k)"
  by (auto simp: bus_quiet_def bindE_def split: prod.split sum.split) (metis snd_conv)+

lemma quiet_thenE [inv_rules]: "bus_quiet m \<Longrightarrow> bus_quiet n \<Longrightarrow> bus_quiet (thenE m n)"
  by (simp add: thenE_def quiet_bindE)

lemma quiet_tryE [inv_rules]: "bus_quiet m \<Longrightarrow> (\<And>e. bus_quiet (h e)) \<Longrightarrow> bus_quiet (tryE m h)"
  by (auto simp: bus_quiet_def tryE_def split: prod.split sum.split) (metis snd_conv)+

lemma quiet_whenE [inv_rules]: "(b \<Longrightarrow> bus_quiet m) \<Longrightarrow> bus_quiet (whenE b m)"
  by (simp add: whenE_def quiet_basic)

lemma quiet_forE [inv_rules]: "(\<And>x. x \<in> set xs \<Longrightarrow> bus_quiet (f x)) \<Longrightarrow> bus_quiet (forE xs f)"
  by (induction xs) (auto intro: quiet_basic quiet_thenE)

lemma quiet_modifyE [inv_rules]: "(\<And>w. bus (f w) = bus w) \<Longrightarrow> bus_quiet (modifyE f)"
  by (simp add: bus_quiet_def modifyE_def)

lemma quiet_commit: "bus (snd (commit d w)) = bus w"
  by (simp add: commit_def Let_def split: outcome.split)

lemma quiet_withTransaction [inv_rules]:
  assumes "bus_quiet m" shows "bus_quiet (withTransaction m)"
  unfolding bus_quiet_def
proof
  fix w
  obtain r1 w1 where c1: "control w = (r1, w1)" by fastforce
  obtain r2 w2 where c2: "control w1 = (r2, w2)" by fastforce
  obtain r3 w3 where m3: "m (begin_tx w2) = (r3, w3)" by fastforce
  obtain r4 w4 where c4: "commit (db w2) w3 = (r4, w4)" by fastforce
  have "bus w1 = bus w" "bus w2 = bus w1" "bus w3 = bus w2" "bus w4 = bus w3"
    using control_bus [of w] control_bus [of w1] bus_quietD [OF assms, of "begin_tx w2"]
      quiet_commit [of "db w2" w3] by (simp_all add: c1 c2 m3 c4)
  then show "bus (snd (withTransaction m w)) = bus w"
    by (auto simp: withTransaction_def c1 c2 m3 c4 split: sum.split)
qed

section \<open>Which messages a computation may send\<close>

definition sends :: "(message \<Rightarrow> bool) \<Rightarrow> 'a op \<Rightarrow> bool" where
  "sends P m \<longleftrightarrow> (\<forall>w. \<exists>ms. bus (snd (m w)) = bus w @ ms \<and> list_all P ms)"

lemma sendsE:
  assumes "sends P m"
  obtains ms where "bus (snd (m w)) = bus w @ ms" "list_all P ms"
  using assms by (auto simp: sends_def)

lemma quiet_sends: "bus_quiet m \<Longrightarrow> sends P m"
  by (simp add: sends_def bus_quiet_def)

lemma sends_bindE [inv_rules]:
  assumes "sends P m" "\<And>x. sends P (k x)"
  shows "sends P (bindE m k)"
  unfolding sends_def
proof
  fix w
  obtain ms where ms: "bus (snd (m w)) = bus w @ ms" "list_all P ms"
    using assms(1) by (rule sendsE)
  show "\<exists>ms. bus (snd (bindE m k w)) = bus w @ ms \<and> list_all P ms"
  proof (cases "m w")
    case (Pair r w1)
    show ?thesis
    proof (cases r)
      case (Inl e)
      then show ?thesis using ms by (auto simp: bindE_def Pair)
    next
      case (Inr x)
      obtain ms' where "bus (snd (k x w1)) = bus w1 @ ms'" "list_all P ms'"
        using assms(2) by (rule sendsE)
      then show ?thesis using ms by (intro exI [of _ "ms @ ms'"]) (simp add: bindE_def Pair Inr)
    qed
  qed
qed

lemma sends_thenE [inv_rules]: "sends P m \<Longrightarrow> sends P n \<Longrightarrow> sends P (thenE m n)"
  by (simp add: thenE_def sends_bindE)

lemma sends_tryE [inv_rules]:
  assumes "sends P m" "\<And>e. sends P (h e)"
  shows "sends P (tryE m h)"
proof -
  have "tryE m h w = bindE (\<lambda>w. (Inr (fst (m w)), snd (m w))) (\<lambda>r. case r of Inl e \<Rightarrow> h e | Inr x \<Rightarrow> returnE x) w" for w
    by (simp add: tryE_def bindE_def returnE_def split: prod.split sum.split)
  moreover have "sends P (bindE (\<lambda>w. (Inr (fst (m w)), snd (m w))) (\<lambda>r. case r of Inl e \<Rightarrow> h e | Inr x \<Rightarrow> returnE x))"
  proof (rule sends_bindE)
    show "sends P (\<lambda>w. (Inr (fst (m w)), snd (m w)))" using assms(1) by (simp add: sends_def)
    show "sends P (case r of Inl e \<Rightarrow> h e | Inr x \<Rightarrow> returnE x)" for r
      using assms(2) by (simp add: quiet_sends quiet_basic split: sum.split)
  qed
  ultimately show ?thesis by (simp add: sends_def)
qed

lemma sends_whenE [inv_rules]: "(b \<Longrightarrow> sends P m) \<Longrightarrow> sends P (whenE b m)"
  by (simp add: whenE_def quiet_sends quiet_basic)

lemma sends_forE [inv_rules]: "(\<And>x. x \<in> set xs \<Longrightarrow> sends P (f x)) \<Longrightarrow> sends P (forE xs f)"
  by (induction xs) (auto intro: sends_thenE quiet_sends quiet_basic)

lemma sends_if: "(b \<Longrightarrow> sends P m) \<Longrightarrow> (\<not> b \<Longrightarrow> sends P n) \<Longrightarrow> sends P (if b then m else n)"
  by simp

lemma sends_option:
  "sends P m \<Longrightarrow> (\<And>y. sends P (k y)) \<Longrightarrow> sends P (case x of None \<Rightarrow> m | Some y \<Rightarrow> k y)"
  by (simp split: option.split)

lemma sends_producer_send [inv_rules]: "list_all P ms \<Longrightarrow> sends P (producer_send ms)"
  by (auto simp: sends_def producer_send_def Let_def split: outcome.split)

lemma sends_mono: "sends P m \<Longrightarrow> (\<And>x. P x \<Longrightarrow> Q x) \<Longrightarrow> sends Q m"
  unfolding sends_def by (meson list_all_iff)

section \<open>Successful calls and transactions\<close>

lemma query_InrD: "query r s w = (Inr x, w') \<Longrightarrow> \<exists>t. s t (db w) = Inr (x, db w')"
  by (auto simp: query_def Let_def split: if_splits outcome.splits sum.splits)

lemma query_Client_InrD: "query Client s w = (Inr x, w') \<Longrightarrow> \<not> tx_aborted w \<and> \<not> tx_aborted w'"
  by (auto simp: query_def Let_def split: if_splits outcome.splits sum.splits)

lemma query_db: "\<exists>t. db (snd (query r s w)) = db w \<or> (\<exists>x. s t (db w) = Inr (x, db (snd (query r s w))))"
  by (auto simp: query_def Let_def split: outcome.splits sum.splits)

text \<open>
  Atomicity: whatever happens, the database after a transaction is the one before it, or
  the one in which the whole callback ended without an error.
\<close>

lemma withTransaction_atomic:
  "db (snd (withTransaction m w)) = db w \<or>
   (\<exists>w2 x w3. db w2 = db w \<and> bus w2 = bus w \<and> \<not> tx_aborted w2 \<and> m w2 = (Inr x, w3) \<and> \<not> tx_aborted w3 \<and>
     db (snd (withTransaction m w)) = db w3)"
proof -
  obtain r1 w1 where c1: "control w = (r1, w1)" by fastforce
  obtain r2 w2 where c2: "control w1 = (r2, w2)" by fastforce
  obtain r3 w3 where m3: "m (begin_tx w2) = (r3, w3)" by fastforce
  obtain r4 w4 where c4: "commit (db w2) w3 = (r4, w4)" by fastforce
  have d: "db w1 = db w" "db w2 = db w" "bus w2 = bus w"
    using control_db [of w] control_db [of w1] control_bus [of w] control_bus [of w1]
    by (simp_all add: c1 c2)
  have d4: "db w4 = db w2 \<or> (\<not> tx_aborted w3 \<and> db w4 = db w3)"
    using c4 by (auto simp: commit_def Let_def split: outcome.splits if_splits)
  show ?thesis
  proof (cases r1; cases r2; cases r3)
    fix u1 u2 x assume r: "r1 = Inr u1" "r2 = Inr u2" "r3 = Inr x"
    have "db (snd (withTransaction m w)) = db w4"
      by (simp add: withTransaction_def c1 c2 m3 c4 r split: sum.split)
    then show ?thesis using d4 d m3 r(3) begin_tx_simps by metis
  qed (simp_all add: withTransaction_def c1 c2 m3 d)
qed

text \<open>A transaction that returns ran its callback to the end.\<close>

lemma withTransaction_InrD:
  assumes "withTransaction m w = (Inr x, w')"
  shows "\<exists>w2 w3. db w2 = db w \<and> bus w2 = bus w \<and> \<not> tx_aborted w2 \<and> m w2 = (Inr x, w3) \<and>
    bus w' = bus w3 \<and> (if tx_aborted w3 then db w' = db w else db w' = db w3)"
proof -
  obtain r1 w1 where c1: "control w = (r1, w1)" by fastforce
  obtain r2 w2 where c2: "control w1 = (r2, w2)" by fastforce
  obtain r3 w3 where m3: "m (begin_tx w2) = (r3, w3)" by fastforce
  obtain r4 w4 where c4: "commit (db w2) w3 = (r4, w4)" by fastforce
  have d: "db w1 = db w" "db w2 = db w" "bus w2 = bus w"
    using control_db [of w] control_db [of w1] control_bus [of w] control_bus [of w1]
    by (simp_all add: c1 c2)
  have b: "bus w4 = bus w3"
    using c4 by (auto simp: commit_def Let_def split: outcome.splits if_splits)
  show ?thesis
  proof (cases r1; cases r2; cases r3; cases r4)
    fix u1 u2 y u4 assume r: "r1 = Inr u1" "r2 = Inr u2" "r3 = Inr y" "r4 = Inr u4"
    from assms have xy: "y = x" "w' = w4\<lparr>tx_aborted := False\<rparr>"
      by (simp_all add: withTransaction_def c1 c2 m3 c4 r)
    have "if tx_aborted w3 then db w4 = db w2 else db w4 = db w3"
      using c4 r(4) by (auto simp: commit_def Let_def split: outcome.splits)
    then show ?thesis using m3 r(3) d b xy
      by (intro exI [of _ "begin_tx w2"] exI [of _ w3]) (auto split: if_splits)
  qed (use assms in \<open>simp_all add: withTransaction_def c1 c2 m3 c4\<close>)
qed

section \<open>What holds of every run\<close>

text \<open>
  \<open>run_follows S m\<close>: whatever happens, the world after \<open>m\<close> is related by \<open>S\<close> to the
  world before, where \<open>S\<close> ignores the parts of the world that calls do change.
\<close>

definition run_follows :: "(world \<Rightarrow> world \<Rightarrow> bool) \<Rightarrow> 'a op \<Rightarrow> bool" where
  "run_follows S m \<longleftrightarrow> (\<forall>w. S w (snd (m w)))"

lemma run_followsD: "run_follows S m \<Longrightarrow> S w (snd (m w))"
  by (simp add: run_follows_def)

locale run_preorder =
  fixes S :: "world \<Rightarrow> world \<Rightarrow> bool"
  assumes S_refl: "S w w"
    and S_trans: "S u v \<Longrightarrow> S v x \<Longrightarrow> S u x"
begin

lemma run_pure:
  "run_follows S (returnE x)" "run_follows S (throwE e)" "run_follows S (liftE r)"
  "run_follows S (getsE f)" "run_follows S clock" "run_follows S iso_now"
  by (simp_all add: run_follows_def run_defs S_refl)

lemma run_bindE: 
  assumes "run_follows S m" "\<And>x. run_follows S (k x)"
  shows "run_follows S (bindE m k)"
  unfolding run_follows_def
proof
  fix w
  have "S w (snd (m w))" using assms(1) by (rule run_followsD)
  with assms(2) show "S w (snd (bindE m k w))"
    by (auto simp: bindE_def run_follows_def split: prod.splits sum.splits) (metis S_trans snd_conv)
qed

lemma run_bindE_value:
  assumes "run_follows S m" "\<And>w x w'. m w = (Inr x, w') \<Longrightarrow> P x" "\<And>x. P x \<Longrightarrow> run_follows S (k x)"
  shows "run_follows S (bindE m k)"
  unfolding run_follows_def
proof
  fix w
  have "S w (snd (m w))" using assms(1) by (rule run_followsD)
  moreover have "S (snd (m w)) (snd (k x (snd (m w))))" if "fst (m w) = Inr x" for x
    using assms(2) [of w x "snd (m w)"] assms(3) [of x] that run_followsD by (metis prod.collapse)
  ultimately show "S w (snd (bindE m k w))"
    using S_trans by (cases "m w") (auto simp: bindE_def split: sum.split)
qed

lemma run_thenE: "run_follows S m \<Longrightarrow> run_follows S n \<Longrightarrow> run_follows S (thenE m n)"
  by (simp add: thenE_def run_bindE)

lemma run_tryE:
  assumes "run_follows S m" "\<And>e. run_follows S (h e)"
  shows "run_follows S (tryE m h)"
  unfolding run_follows_def
proof
  fix w
  have "S w (snd (m w))" using assms(1) by (rule run_followsD)
  with assms(2) show "S w (snd (tryE m h w))"
    by (auto simp: tryE_def run_follows_def split: prod.splits sum.splits) (metis S_trans snd_conv)
qed

lemma run_whenE: "(b \<Longrightarrow> run_follows S m) \<Longrightarrow> run_follows S (whenE b m)"
  by (simp add: whenE_def run_pure)

lemma run_forE: "(\<And>x. x \<in> set xs \<Longrightarrow> run_follows S (f x)) \<Longrightarrow> run_follows S (forE xs f)"
  by (induction xs) (auto intro: run_pure run_thenE)

lemma run_modifyE: "(\<And>w. S w (f w)) \<Longrightarrow> run_follows S (modifyE f)"
  by (simp add: run_follows_def modifyE_def)

lemma run_if: "(b \<Longrightarrow> run_follows S m) \<Longrightarrow> (\<not> b \<Longrightarrow> run_follows S n) \<Longrightarrow> run_follows S (if b then m else n)"
  by simp

lemma run_option:
  "run_follows S m \<Longrightarrow> (\<And>y. run_follows S (k y)) \<Longrightarrow> run_follows S (case x of None \<Rightarrow> m | Some y \<Rightarrow> k y)"
  by (simp split: option.split)

lemmas run_compose =
  run_pure run_bindE run_thenE run_tryE run_whenE run_forE run_if run_option

end

text \<open>
  The relations that every call but a send respects: time and the supply of uuids only move
  on, the rest is free.  \<open>run_relation\<close> adds the sends.
\<close>

locale run_calls = run_preorder S
  for S :: "world \<Rightarrow> world \<Rightarrow> bool" +
  assumes S_db: "S w (w\<lparr>db := d\<rparr>)"
    and S_now: "now w \<le> n \<Longrightarrow> S w (w\<lparr>now := n\<rparr>)"
    and S_uuid: "uuid_next w \<le> n \<Longrightarrow> S w (w\<lparr>uuid_next := n\<rparr>)"
    and S_rand: "S w (w\<lparr>rand_next := n\<rparr>)"
    and S_db_script: "S w (w\<lparr>db_script := tl (db_script w)\<rparr>)"
    and S_kafka_script: "S w (w\<lparr>kafka_script := tl (kafka_script w)\<rparr>)"
    and S_aborted: "S w (w\<lparr>tx_aborted := t\<rparr>)"
    and S_tx_time: "S w (w\<lparr>tx_time := n\<rparr>)"
begin

lemma S_db_tick: "S w (db_tick w)"
  using S_trans [OF S_db_script, of w "db_tick w"] S_now [of "w\<lparr>db_script := tl (db_script w)\<rparr>"]
  by (cases w) (simp add: db_tick_def)

lemma S_kafka_tick: "S w (kafka_tick w)"
  using S_trans [OF S_kafka_script, of w "kafka_tick w"] S_now [of "w\<lparr>kafka_script := tl (kafka_script w)\<rparr>"]
  by (cases w) (simp add: kafka_tick_def)

lemma S_after_error: "S w (after_error r w)"
  by (simp add: after_error_def S_refl S_aborted)

lemma S_begin_tx: "S w (begin_tx w)"
  using S_trans [OF S_aborted S_tx_time] by (simp add: begin_tx_def)

lemma run_basic:
  "run_follows S (returnE x)" "run_follows S (throwE e)" "run_follows S (liftE r)"
  "run_follows S (getsE f)" "run_follows S uuid" "run_follows S (random_below n)"
  "run_follows S clock" "run_follows S iso_now" "run_follows S (sleep k)"
  by (simp_all add: run_follows_def run_defs S_refl S_uuid S_rand S_now)

lemma run_query: "run_follows S (query r s)"
proof -
  have "S w (db_tick w)" "S w (after_error r (db_tick w))"
    "S w ((db_tick w)\<lparr>db := d\<rparr>)" "S w (after_error r ((db_tick w)\<lparr>db := d\<rparr>))" for w d
    using S_trans [OF S_db_tick S_after_error, of w] S_trans [OF S_db_tick S_db, of w]
      S_trans [OF S_trans [OF S_db_tick S_db] S_after_error, of w] S_db_tick by auto
  then show ?thesis
    by (auto simp: run_follows_def query_def Let_def S_refl split: outcome.split sum.split)
qed

lemma run_control: "run_follows S control"
  by (simp add: run_follows_def control_def Let_def S_db_tick split: outcome.split)

lemma run_commit: "run_follows S (commit d)"
proof -
  have "S w (db_tick w)" "S w ((db_tick w)\<lparr>db := x\<rparr>)" "S w ((db_tick w)\<lparr>db := x, db := y\<rparr>)" for w x y
    using S_trans [OF S_db_tick S_db, of w] S_trans [OF S_trans [OF S_db_tick S_db] S_db, of w] S_db_tick by auto
  then show ?thesis
    by (auto simp: run_follows_def commit_def Let_def split: outcome.split)
qed

lemma run_uuid8: "run_follows S uuid8"
  unfolding uuid8_def by (intro run_bindE run_basic)

lemma run_withTransaction:
  assumes "run_follows S m" shows "run_follows S (withTransaction m)"
  unfolding run_follows_def
proof
  fix w
  obtain r1 w1 where c1: "control w = (r1, w1)" by fastforce
  obtain r2 w2 where c2: "control w1 = (r2, w2)" by fastforce
  obtain r3 w3 where m3: "m (begin_tx w2) = (r3, w3)" by fastforce
  obtain r4 w4 where c4: "commit (db w2) w3 = (r4, w4)" by fastforce
  have 1: "S w w1" using run_followsD [OF run_control, of w] by (simp add: c1)
  have 2: "S w w2" using S_trans [OF 1] run_followsD [OF run_control, of w1] by (simp add: c2)
  have 3: "S w w3" using S_trans [OF S_trans [OF 2 S_begin_tx]] run_followsD [OF assms, of "begin_tx w2"]
    by (simp add: m3)
  have 4: "S w w4" using S_trans [OF 3] run_followsD [OF run_commit, of w3 "db w2"] by (simp add: c4)
  have rolled: "S w (snd (control v))" if "S w v" for v
    using S_trans [OF that] run_followsD [OF run_control] by blast
  have "S w (w3\<lparr>db := db w2, tx_aborted := False\<rparr>)" "S w (w4\<lparr>tx_aborted := False\<rparr>)"
    using S_trans [OF S_trans [OF 3 S_db] S_aborted] S_trans [OF 4 S_aborted] by auto
  then show "S w (snd (withTransaction m w))"
    using 1 2 rolled by (auto simp: withTransaction_def c1 c2 m3 c4 split: sum.split)
qed

lemmas call_rules =
  run_if run_option run_basic run_query run_control run_bindE run_thenE run_tryE run_whenE
  run_forE run_uuid8 run_withTransaction

end

locale run_relation = run_calls S
  for S :: "world \<Rightarrow> world \<Rightarrow> bool" +
  assumes S_bus: "S w (w\<lparr>bus := bus w @ ms\<rparr>)"
begin

lemma run_producer_send: "run_follows S (producer_send ms)"
proof -
  have "S w ((kafka_tick w)\<lparr>bus := bus w @ ms\<rparr>)" for w
    using S_trans [OF S_kafka_tick S_bus, of w ms] by simp
  then show ?thesis
    using S_kafka_tick by (auto simp: run_follows_def producer_send_def Let_def split: outcome.split)
qed

lemmas run_rules = call_rules run_producer_send

end

text \<open>
  No service writes the sources of randomness, the string formats, the stack traces or the
  chaos configuration.
\<close>

definition environment :: "world \<Rightarrow>
  (nat \<Rightarrow> string) \<times> (nat \<Rightarrow> nat) \<times> (string \<Rightarrow> string \<Rightarrow> bool) \<times> (exn \<Rightarrow> string option) \<times> chaos_config" where
  "environment w = (uuid_src w, rand_src w, zod_format w, error_stack w, chaos w)"

interpretation steady: run_relation "\<lambda>w w'. environment w' = environment w"
  by unfold_locales (simp_all add: environment_def)

text \<open>A database, a broker that has no failures left stays so.\<close>

interpretation db_calm: run_relation "\<lambda>w w'. db_script w = [] \<longrightarrow> db_script w' = []"
  by unfold_locales simp_all

interpretation kafka_calm: run_relation "\<lambda>w w'. kafka_script w = [] \<longrightarrow> kafka_script w' = []"
  by unfold_locales simp_all

lemmas quiet_rules =
  quiet_basic quiet_query quiet_bindE quiet_thenE quiet_tryE quiet_whenE quiet_forE quiet_modifyE
  quiet_withTransaction

lemmas sends_rules =
  sends_if sends_option
  sends_bindE sends_thenE sends_tryE sends_whenE sends_forE sends_producer_send

section \<open>Runs without failures\<close>

lemma query_done [simp]:
  "db_script w = [] \<Longrightarrow> \<not> (r = Client \<and> tx_aborted w) \<Longrightarrow>
   query r s w =
     (case s (if r = Client then tx_time w else now w) (db w) of
        Inl e \<Rightarrow> (Inl e, after_error r w)
      | Inr (x, d) \<Rightarrow> (Inr x, w\<lparr>db := d\<rparr>))"
  by (auto simp: query_def split: sum.split)

lemma producer_send_done [simp]:
  "kafka_script w = [] \<Longrightarrow> producer_send ms w = (Inr (), w\<lparr>bus := bus w @ ms\<rparr>)"
  by (simp add: producer_send_def)

lemma control_done [simp]: "db_script w = [] \<Longrightarrow> control w = (Inr (), w)"
  by (simp add: control_def)

lemma commit_done [simp]:
  "db_script w = [] \<Longrightarrow> \<not> tx_aborted w \<Longrightarrow> commit d w = (Inr (), w)"
  by (simp add: commit_def)

end
