(* ===== verification/Lease.thy ===== *)
theory Lease
  imports World
begin

text \<open>
  The lease protocol that \<open>outbox_events\<close> and \<open>dlq_outbox\<close> share
  (\<open>src/src/services/database.ts\<close>, the statements of \<open>getPendingOutboxEvents\<close>,
  \<open>markOutboxEventPublished\<close>, \<open>markOutboxEventFailed\<close> and of their \<open>DLQOutbox\<close> twins):
  the row-level operations on any table with the lease columns, and what they promise.
  \<open>Db_Outbox\<close> puts them on the two tables.
\<close>

section \<open>The operations\<close>

text \<open>
  The \<open>WHERE\<close> clause of the claim: pending, or processing with a lease that is absent or
  expired, and fewer than ten attempts.
\<close>

definition eligible :: "nat \<Rightarrow> 'a lease_row_scheme \<Rightarrow> bool" where
  "eligible t r \<longleftrightarrow>
     (ob_status r = ObPending \<or>
      (ob_status r = ObProcessing \<and>
       (case ob_lease_expires_at r of None \<Rightarrow> True | Some e \<Rightarrow> e < t))) \<and>
     ob_attempts r < 10"

text \<open>
  The inner SELECT: oldest first, at most \<open>limit\<close>, rows locked by another transaction
  (\<open>locked\<close>) skipped.  Rows of the same age are taken in table order, which SQL leaves open.
\<close>

definition claim_ids :: "string list \<Rightarrow> nat \<Rightarrow> nat \<Rightarrow> 'a lease_row_scheme list \<Rightarrow> string list" where
  "claim_ids locked t limit tbl =
     map ob_id (take limit (sort_key ob_created_at
       (filter (\<lambda>r. eligible t r \<and> ob_id r \<notin> set locked) tbl)))"

definition lease :: "nat \<Rightarrow> string \<Rightarrow> nat \<Rightarrow> 'a lease_row_scheme \<Rightarrow> 'a lease_row_scheme" where
  "lease t worker secs r =
     r\<lparr>ob_status := ObProcessing, ob_lease_owner := Some worker, ob_leased_at := Some t,
       ob_lease_expires_at := Some (t + 1000 * secs), ob_attempts := ob_attempts r + 1\<rparr>"

definition claim ::
  "string list \<Rightarrow> nat \<Rightarrow> nat \<Rightarrow> string \<Rightarrow> nat \<Rightarrow> 'a lease_row_scheme list \<Rightarrow> 'a lease_row_scheme list" where
  "claim locked t limit worker secs tbl =
     update_rows (\<lambda>r. ob_id r \<in> set (claim_ids locked t limit tbl)) (lease t worker secs) tbl"

text \<open>\<open>RETURNING *\<close>: the updated rows in the order in which the table holds them.\<close>

definition claimed ::
  "string list \<Rightarrow> nat \<Rightarrow> nat \<Rightarrow> string \<Rightarrow> nat \<Rightarrow> 'a lease_row_scheme list \<Rightarrow> 'a lease_row_scheme list" where
  "claimed locked t limit worker secs tbl =
     map (lease t worker secs) (filter (\<lambda>r. ob_id r \<in> set (claim_ids locked t limit tbl)) tbl)"

text \<open>
  The guard of the two updates that end a lease; \<open>workerId || null\<close> makes a missing or
  empty worker match every row.
\<close>

definition holds_lease :: "string \<Rightarrow> string option \<Rightarrow> 'a lease_row_scheme \<Rightarrow> bool" where
  "holds_lease i worker r \<longleftrightarrow>
     ob_id r = i \<and> ob_status r = ObProcessing \<and>
     (case worker of None \<Rightarrow> True | Some w \<Rightarrow> w = [] \<or> ob_lease_owner r = Some w)"

definition mark_published ::
  "nat \<Rightarrow> string \<Rightarrow> string option \<Rightarrow> 'a lease_row_scheme list \<Rightarrow> 'a lease_row_scheme list" where
  "mark_published t i worker tbl =
     update_rows (holds_lease i worker)
       (\<lambda>r. r\<lparr>ob_status := ObPublished, ob_published_at := Some t, ob_lease_owner := None,
              ob_lease_expires_at := None\<rparr>) tbl"

definition mark_failed ::
  "string \<Rightarrow> string \<Rightarrow> string option \<Rightarrow> 'a lease_row_scheme list \<Rightarrow> 'a lease_row_scheme list" where
  "mark_failed i err worker tbl =
     update_rows (holds_lease i worker)
       (\<lambda>r. r\<lparr>ob_last_error := Some err, ob_lease_owner := None, ob_lease_expires_at := None,
              ob_status := (if 10 \<le> ob_attempts r then ObFailed else ObPending)\<rparr>) tbl"

section \<open>Claims\<close>

lemma lease_simps [simp]:
  "ob_id (lease t w s r) = ob_id r" "ob_status (lease t w s r) = ObProcessing"
  "ob_lease_owner (lease t w s r) = Some w" "ob_attempts (lease t w s r) = ob_attempts r + 1"
  "ob_lease_expires_at (lease t w s r) = Some (t + 1000 * s)"
  "ob_created_at (lease t w s r) = ob_created_at r" "ob_topic (lease t w s r) = ob_topic r"
  "ob_payload (lease t w s r) = ob_payload r" "ob_published_at (lease t w s r) = ob_published_at r"
  "lease_row.more (lease t w s r) = lease_row.more r"
  by (simp_all add: lease_def)

lemma claim_ids_mem:
  assumes "i \<in> set (claim_ids locked t limit tbl)"
  shows "i \<notin> set locked" "\<exists>r \<in> set tbl. ob_id r = i \<and> eligible t r"
  using assms by (auto simp: claim_ids_def dest!: in_set_takeD)

lemma length_claim_ids: "length (claim_ids locked t limit tbl) \<le> limit"
  by (simp add: claim_ids_def)

lemma unique_row: "unique_by key tbl \<Longrightarrow> r \<in> set tbl \<Longrightarrow> r' \<in> set tbl \<Longrightarrow> key r = key r' \<Longrightarrow> r = r'"
  by (metis lookup_row_mem option.inject)

lemma claim_eligible:
  assumes "unique_by ob_id tbl" "r \<in> set tbl" "ob_id r \<in> set (claim_ids locked t limit tbl)"
  shows "eligible t r"
  using claim_ids_mem(2) [OF assms(3)] unique_row [OF assms(1)] assms(2) by metis

lemma unique_claim: "unique_by ob_id (claim locked t limit w s tbl) = unique_by ob_id tbl"
  by (simp add: claim_def unique_by_update_rows)

lemma set_claimed_subset: "set (claimed locked t limit w s tbl) \<subseteq> set (claim locked t limit w s tbl)"
  by (auto simp: claimed_def claim_def set_update_rows)

lemma length_claimed:
  assumes "unique_by ob_id tbl"
  shows "length (claimed locked t limit w s tbl) \<le> limit"
proof -
  have "length (claimed locked t limit w s tbl)
        = length (map ob_id (filter (\<lambda>r. ob_id r \<in> set (claim_ids locked t limit tbl)) tbl))"
    by (simp add: claimed_def)
  also have "\<dots> = card (set (map ob_id (filter (\<lambda>r. ob_id r \<in> set (claim_ids locked t limit tbl)) tbl)))"
    using assms by (simp only: distinct_card distinct_map_filter unique_by_def)
  also have "\<dots> \<le> card (set (claim_ids locked t limit tbl))"
    by (rule card_mono) auto
  also have "\<dots> \<le> limit"
    using card_length length_claim_ids le_trans by blast
  finally show ?thesis .
qed

lemma sorted_take_le:
  assumes "sorted (map f xs)" "x \<in> set (take n xs)" "y \<in> set (drop n xs)"
  shows "f x \<le> f y"
proof -
  have "sorted (map f (take n xs) @ map f (drop n xs))"
    using assms(1) by (metis append_take_drop_id map_append)
  then show ?thesis using assms(2,3) by (auto simp: sorted_append)
qed

text \<open>Oldest first: an eligible row that was passed over is no older than a claimed one.\<close>

lemma claim_oldest_first:
  assumes uniq: "unique_by ob_id tbl"
    and r: "r \<in> set tbl" "ob_id r \<in> set (claim_ids locked t limit tbl)"
    and q: "q \<in> set tbl" "eligible t q" "ob_id q \<notin> set locked"
      "ob_id q \<notin> set (claim_ids locked t limit tbl)"
  shows "ob_created_at r \<le> ob_created_at q"
proof -
  let ?s = "sort_key ob_created_at (filter (\<lambda>r. eligible t r \<and> ob_id r \<notin> set locked) tbl)"
  obtain r' where r': "r' \<in> set (take limit ?s)" "ob_id r' = ob_id r"
    using r(2) by (auto simp: claim_ids_def)
  then have "r' \<in> set tbl" by (auto dest!: in_set_takeD)
  then have "r' = r" using unique_row [OF uniq] r' r(1) by metis
  moreover have "q \<in> set ?s" using q by simp
  then have "q \<in> set (take limit ?s) \<union> set (drop limit ?s)"
    by (metis append_take_drop_id set_append)
  then have "q \<in> set (drop limit ?s)"
    using q(4) by (auto simp: claim_ids_def)
  moreover have "sorted (map ob_created_at ?s)" by (rule sorted_sort_key)
  ultimately show ?thesis
    using r'(1) sorted_take_le [of ob_created_at ?s r' limit q] by simp
qed

text \<open>When fewer than \<open>limit\<close> rows are claimed, every eligible row was.\<close>

lemma claim_complete:
  assumes "length (claim_ids locked t limit tbl) < limit"
    and "q \<in> set tbl" "eligible t q" "ob_id q \<notin> set locked"
  shows "ob_id q \<in> set (claim_ids locked t limit tbl)"
  using assms by (auto simp: claim_ids_def)

section \<open>The end of a lease\<close>

lemma holds_leaseD:
  "holds_lease i (Some w) r \<Longrightarrow> w \<noteq> [] \<Longrightarrow> ob_id r = i \<and> ob_status r = ObProcessing \<and> ob_lease_owner r = Some w"
  by (auto simp: holds_lease_def)

text \<open>Fencing: a worker that no longer holds the lease changes nothing.\<close>

lemma fenced_published:
  "(\<And>r. r \<in> set tbl \<Longrightarrow> \<not> holds_lease i w r) \<Longrightarrow> mark_published t i w tbl = tbl"
  unfolding mark_published_def by (rule update_rows_id)

lemma fenced_failed:
  "(\<And>r. r \<in> set tbl \<Longrightarrow> \<not> holds_lease i w r) \<Longrightarrow> mark_failed i err w tbl = tbl"
  unfolding mark_failed_def by (rule update_rows_id)

lemma unique_mark_published: "unique_by ob_id (mark_published t i w tbl) = unique_by ob_id tbl"
  by (simp add: mark_published_def unique_by_update_rows)

lemma unique_mark_failed: "unique_by ob_id (mark_failed i err w tbl) = unique_by ob_id tbl"
  by (simp add: mark_failed_def unique_by_update_rows)

section \<open>The invariant of a lease table\<close>

text \<open>
  At most ten attempts; a processing row has an owner and an expiry; a published row has a
  time of publication and no lease; a failed row used all its attempts.
\<close>

definition lease_row_ok :: "'a lease_row_scheme \<Rightarrow> bool" where
  "lease_row_ok r \<longleftrightarrow>
     ob_attempts r \<le> 10 \<and>
     (ob_status r = ObProcessing \<longrightarrow>
        0 < ob_attempts r \<and> ob_lease_owner r \<noteq> None \<and> ob_lease_expires_at r \<noteq> None) \<and>
     (ob_status r \<noteq> ObProcessing \<longrightarrow> ob_lease_owner r = None \<and> ob_lease_expires_at r = None) \<and>
     (ob_status r = ObPublished \<longleftrightarrow> ob_published_at r \<noteq> None) \<and>
     (ob_status r = ObPublished \<longrightarrow> 0 < ob_attempts r) \<and>
     (ob_status r = ObPending \<longrightarrow> ob_attempts r < 10) \<and>
     (ob_status r = ObFailed \<longrightarrow> ob_attempts r = 10)"

definition lease_table_ok :: "'a lease_row_scheme list \<Rightarrow> bool" where
  "lease_table_ok tbl \<longleftrightarrow> unique_by ob_id tbl \<and> (\<forall>r \<in> set tbl. lease_row_ok r)"

lemma lease_table_ok_Nil: "lease_table_ok []"
  by (simp add: lease_table_ok_def)

lemma lease_row_ok_lease: "lease_row_ok r \<Longrightarrow> eligible t r \<Longrightarrow> lease_row_ok (lease t w s r)"
  by (auto simp: lease_row_ok_def eligible_def)

lemma lease_table_ok_claim:
  assumes "lease_table_ok tbl"
  shows "lease_table_ok (claim locked t limit w s tbl)"
proof -
  from assms have uniq: "unique_by ob_id tbl" and ok: "\<And>r. r \<in> set tbl \<Longrightarrow> lease_row_ok r"
    by (simp_all add: lease_table_ok_def)
  have "lease_row_ok r" if mem: "r \<in> set (claim locked t limit w s tbl)" for r
  proof -
    obtain x where x: "x \<in> set tbl"
      and "r = (if ob_id x \<in> set (claim_ids locked t limit tbl) then lease t w s x else x)"
      using mem by (auto simp: claim_def set_update_rows)
    then show ?thesis
      using ok [OF x] claim_eligible [OF uniq x] by (auto intro: lease_row_ok_lease)
  qed
  then show ?thesis using uniq by (simp add: lease_table_ok_def unique_claim)
qed

lemma lease_table_ok_mark_published:
  "lease_table_ok tbl \<Longrightarrow> lease_table_ok (mark_published t i w tbl)"
  unfolding lease_table_ok_def unique_mark_published
  by (auto simp: mark_published_def set_update_rows lease_row_ok_def holds_lease_def)

lemma lease_table_ok_mark_failed:
  "lease_table_ok tbl \<Longrightarrow> lease_table_ok (mark_failed i err w tbl)"
  unfolding lease_table_ok_def unique_mark_failed
  by (auto simp: mark_failed_def set_update_rows lease_row_ok_def holds_lease_def split: if_splits)

lemma lease_table_ok_insert:
  assumes "lease_table_ok tbl" and "lease_row_ok r"
  shows "lease_table_ok (insert_ignore ob_id r tbl)"
  using assms by (auto simp: lease_table_ok_def unique_by_insert_ignore insert_ignore_def)
    (auto simp: unique_by_def)

section \<open>Progress of one row\<close>

text \<open>
  \<open>row_after r r'\<close>: what one or more operations may do to a row.  The message never
  changes, the attempts never decrease, and a published or failed row stays as it is.
\<close>

definition same_message :: "'a lease_row_scheme \<Rightarrow> 'a lease_row_scheme \<Rightarrow> bool" where
  "same_message r r' \<longleftrightarrow>
     ob_id r' = ob_id r \<and> ob_topic r' = ob_topic r \<and> ob_payload r' = ob_payload r \<and>
     ob_created_at r' = ob_created_at r \<and> lease_row.more r' = lease_row.more r"

definition row_after :: "'a lease_row_scheme \<Rightarrow> 'a lease_row_scheme \<Rightarrow> bool" where
  "row_after r r' \<longleftrightarrow>
     same_message r r' \<and> ob_attempts r \<le> ob_attempts r' \<and>
     (ob_status r = ObPublished \<or> ob_status r = ObFailed \<longrightarrow> r' = r)"

definition table_after :: "'a lease_row_scheme list \<Rightarrow> 'a lease_row_scheme list \<Rightarrow> bool" where
  "table_after tbl tbl' \<longleftrightarrow>
     (\<forall>i r. lookup_row ob_id i tbl = Some r \<longrightarrow>
        (\<exists>r'. lookup_row ob_id i tbl' = Some r' \<and> row_after r r'))"

lemma row_after_refl [simp]: "row_after r r"
  by (simp add: row_after_def same_message_def)

lemma row_after_trans: "row_after a b \<Longrightarrow> row_after b c \<Longrightarrow> row_after a c"
  by (auto simp: row_after_def same_message_def)

lemma table_after_refl [simp]: "table_after t t"
  by (simp add: table_after_def)

lemma table_after_trans: "table_after a b \<Longrightarrow> table_after b c \<Longrightarrow> table_after a c"
  unfolding table_after_def by (metis row_after_trans)

lemma table_after_update:
  assumes "\<And>r. p r \<Longrightarrow> ob_id (f r) = ob_id r"
    and "\<And>r. r \<in> set tbl \<Longrightarrow> p r \<Longrightarrow> row_after r (f r)"
  shows "table_after tbl (update_rows p f tbl)"
  using assms by (auto simp: table_after_def lookup_row_update_rows dest: lookup_row_Some)

lemma table_after_claim:
  assumes "unique_by ob_id tbl"
  shows "table_after tbl (claim locked t limit w s tbl)"
proof -
  have "row_after r (lease t w s r)" if "eligible t r" for r :: "'a lease_row_scheme"
    using that by (auto simp: row_after_def same_message_def eligible_def)
  then show ?thesis
    unfolding claim_def using claim_eligible [OF assms] by (intro table_after_update) auto
qed

lemma table_after_published: "table_after tbl (mark_published t i w tbl)"
  unfolding mark_published_def
  by (rule table_after_update) (auto simp: row_after_def same_message_def holds_lease_def)

lemma table_after_failed: "table_after tbl (mark_failed i err w tbl)"
  unfolding mark_failed_def
  by (rule table_after_update) (auto simp: row_after_def same_message_def holds_lease_def)

lemma table_after_insert: "table_after tbl (insert_ignore ob_id r tbl)"
  unfolding table_after_def lookup_insert_ignore
  by (metis lookup_row_None option.distinct(1) row_after_refl)

section \<open>Exclusive leases\<close>

text \<open>While a lease has not expired no claim takes its row.\<close>

lemma live_lease_not_claimed:
  assumes "unique_by ob_id tbl" "r \<in> set tbl" "ob_status r = ObProcessing"
    and "ob_lease_expires_at r = Some e" "t \<le> e"
  shows "ob_id r \<notin> set (claim_ids locked t limit tbl)"
  using claim_eligible [OF assms(1,2), of locked t limit] assms(3-5) by (auto simp: eligible_def)

text \<open>A row that was claimed ten times and whose last worker died is never claimed again.\<close>

lemma exhausted_not_claimed:
  assumes "unique_by ob_id tbl" "r \<in> set tbl" "10 \<le> ob_attempts r"
  shows "ob_id r \<notin> set (claim_ids locked t limit tbl)"
  using claim_eligible [OF assms(1,2), of locked t limit] assms(3) by (auto simp: eligible_def)

end
