(* ===== verification/Db_Outbox.thy ===== *)
theory Db_Outbox
  imports Lease
begin

text \<open>
  \<open>src/src/services/database.ts\<close>, the methods of the two outbox tables: the transactional
  outbox \<open>outbox_events\<close> and the outbox of the dead-letter queue \<open>dlq_outbox\<close>.  Both are
  \<open>lease_store\<close>s: the locale derives once, for whole computations and every fault script,
  that the table keeps its invariant and that no row ever goes back.
\<close>

section \<open>Statements on a table of the database\<close>

text \<open>A SELECT and an unconditional write; the argument of a write is CURRENT_TIMESTAMP.\<close>

definition selects :: "(database \<Rightarrow> 'a) \<Rightarrow> 'a stmt" where
  [run_defs]: "selects f = (\<lambda>t d. Inr (f d, d))"

definition writes :: "(nat \<Rightarrow> database \<Rightarrow> database) \<Rightarrow> unit stmt" where
  [run_defs]: "writes f = (\<lambda>t d. Inr ((), f t d))"

text \<open>An UPDATE whose row count is asked for: whether some row matched.\<close>

definition updates :: "(database \<Rightarrow> nat) \<Rightarrow> (nat \<Rightarrow> database \<Rightarrow> database) \<Rightarrow> bool stmt" where
  [run_defs]: "updates count f = (\<lambda>t d. Inr (0 < count d, f t d))"

context db_relation
begin

lemma follows_selects: "stmt_follows R (selects f)"
  by (auto simp: stmt_follows_def selects_def R_refl)

end

lemma stmt_follows_writes: "(\<And>t d. R d (f t d)) \<Longrightarrow> stmt_follows R (writes f)"
  by (auto simp: stmt_follows_def writes_def)

lemma stmt_follows_updates: "(\<And>t d. R d (f t d)) \<Longrightarrow> stmt_follows R (updates c f)"
  by (auto simp: stmt_follows_def updates_def)

definition claim_stmt ::
  "(database \<Rightarrow> 'a lease_row_scheme list) \<Rightarrow> ('a lease_row_scheme list \<Rightarrow> database \<Rightarrow> database) \<Rightarrow>
   nat \<Rightarrow> string \<Rightarrow> nat \<Rightarrow> 'a lease_row_scheme list stmt" where
  "claim_stmt get put limit worker secs =
     (\<lambda>t d. Inr (claimed [] t limit worker secs (get d), put (claim [] t limit worker secs (get d)) d))"

definition publish_stmt ::
  "(database \<Rightarrow> 'a lease_row_scheme list) \<Rightarrow> ('a lease_row_scheme list \<Rightarrow> database \<Rightarrow> database) \<Rightarrow>
   string \<Rightarrow> string option \<Rightarrow> bool stmt" where
  "publish_stmt get put i worker =
     updates (\<lambda>d. matching (holds_lease i worker) (get d)) (\<lambda>t d. put (mark_published t i worker (get d)) d)"

definition fail_stmt ::
  "(database \<Rightarrow> 'a lease_row_scheme list) \<Rightarrow> ('a lease_row_scheme list \<Rightarrow> database \<Rightarrow> database) \<Rightarrow>
   string \<Rightarrow> string \<Rightarrow> string option \<Rightarrow> bool stmt" where
  "fail_stmt get put i err worker =
     updates (\<lambda>d. matching (holds_lease i worker) (get d)) (\<lambda>t d. put (mark_failed i err worker (get d)) d)"

section \<open>The outbox of the aggregates\<close>

text \<open>The argument of \<open>insertOutboxEvent\<close>.\<close>

record outbox_event =
  ev_id :: string
  ev_aggregateId :: string
  ev_aggregateType :: string
  ev_eventType :: event_type
  ev_eventVersion :: "int option"
  ev_payload :: obj
  ev_correlationId :: string
  ev_causationId :: string
  ev_topic :: topic

definition new_outbox_row :: "nat \<Rightarrow> outbox_event \<Rightarrow> outbox_row" where
  "new_outbox_row t e =
     \<lparr>ob_id = ev_id e, ob_topic = ev_topic e, ob_payload = obj_json (ev_payload e),
      ob_status = ObPending, ob_attempts = 0, ob_last_error = None, ob_lease_owner = None,
      ob_leased_at = None, ob_lease_expires_at = None, ob_created_at = t, ob_published_at = None,
      ob_aggregate_id = ev_aggregateId e, ob_aggregate_type = ev_aggregateType e,
      ob_event_type = ev_eventType e, ob_event_version = or_int (ev_eventVersion e) 1,
      ob_correlation_id = ev_correlationId e, ob_causation_id = ev_causationId e\<rparr>"

definition insertOutboxEvent :: "runner \<Rightarrow> outbox_event \<Rightarrow> unit op" where
  "insertOutboxEvent r e =
     query r (writes (\<lambda>t d. d\<lparr>outbox_events := insert_ignore ob_id (new_outbox_row t e) (outbox_events d)\<rparr>))"

abbreviation put_outbox :: "outbox_row list \<Rightarrow> database \<Rightarrow> database" where
  "put_outbox t d \<equiv> d\<lparr>outbox_events := t\<rparr>"

definition getPendingOutboxEvents :: "runner \<Rightarrow> nat \<Rightarrow> string \<Rightarrow> nat \<Rightarrow> outbox_row list op" where
  "getPendingOutboxEvents r limit worker secs = query r (claim_stmt outbox_events put_outbox limit worker secs)"

definition markOutboxEventPublished :: "runner \<Rightarrow> string \<Rightarrow> string option \<Rightarrow> bool op" where
  "markOutboxEventPublished r i worker = query r (publish_stmt outbox_events put_outbox i worker)"

definition markOutboxEventFailed :: "runner \<Rightarrow> string \<Rightarrow> string \<Rightarrow> string option \<Rightarrow> bool op" where
  "markOutboxEventFailed r i err worker = query r (fail_stmt outbox_events put_outbox i err worker)"

section \<open>The outbox of the dead-letter queue\<close>

record dlq_outbox_event =
  dx_id :: string
  dx_dlqId :: string
  dx_topic :: topic
  dx_payload :: obj

definition new_dlq_outbox_row :: "nat \<Rightarrow> dlq_outbox_event \<Rightarrow> dlq_outbox_row" where
  "new_dlq_outbox_row t e =
     \<lparr>ob_id = dx_id e, ob_topic = dx_topic e, ob_payload = obj_json (dx_payload e),
      ob_status = ObPending, ob_attempts = 0, ob_last_error = None, ob_lease_owner = None,
      ob_leased_at = None, ob_lease_expires_at = None, ob_created_at = t, ob_published_at = None,
      ob_dlq_id = dx_dlqId e\<rparr>"

definition insertDLQOutboxEvent :: "runner \<Rightarrow> dlq_outbox_event \<Rightarrow> unit op" where
  "insertDLQOutboxEvent r e =
     query r (writes (\<lambda>t d. d\<lparr>dlq_outbox := insert_ignore ob_id (new_dlq_outbox_row t e) (dlq_outbox d)\<rparr>))"

abbreviation put_dlq_outbox :: "dlq_outbox_row list \<Rightarrow> database \<Rightarrow> database" where
  "put_dlq_outbox t d \<equiv> d\<lparr>dlq_outbox := t\<rparr>"

definition getPendingDLQOutboxEvents :: "runner \<Rightarrow> nat \<Rightarrow> string \<Rightarrow> nat \<Rightarrow> dlq_outbox_row list op" where
  "getPendingDLQOutboxEvents r limit worker secs =
     query r (claim_stmt dlq_outbox put_dlq_outbox limit worker secs)"

text \<open>
  \<open>markDLQOutboxPublished\<close> keeps the guard on the lease: a row that no worker claimed (still
  PENDING, as \<open>insertDLQOutboxEvent\<close> leaves it) does not match.
\<close>

definition markDLQOutboxPublished :: "runner \<Rightarrow> string \<Rightarrow> string option \<Rightarrow> bool op" where
  "markDLQOutboxPublished r i worker = query r (publish_stmt dlq_outbox put_dlq_outbox i worker)"

definition markDLQOutboxFailed :: "runner \<Rightarrow> string \<Rightarrow> string \<Rightarrow> string option \<Rightarrow> bool op" where
  "markDLQOutboxFailed r i err worker = query r (fail_stmt dlq_outbox put_dlq_outbox i err worker)"

section \<open>A table of the database under the lease protocol\<close>

definition lease_after ::
  "(database \<Rightarrow> 'a lease_row_scheme list) \<Rightarrow> database \<Rightarrow> database \<Rightarrow> bool" where
  "lease_after get d d' \<longleftrightarrow>
     (lease_table_ok (get d) \<longrightarrow> lease_table_ok (get d') \<and> table_after (get d) (get d'))"

locale lease_store =
  fixes get :: "database \<Rightarrow> 'a lease_row_scheme list"
    and put :: "'a lease_row_scheme list \<Rightarrow> database \<Rightarrow> database"
  assumes get_put: "get (put t d) = t"

sublocale lease_store \<subseteq> after: db_relation "lease_after get"
  by unfold_locales (auto simp: lease_after_def intro: table_after_trans)

context lease_store
begin

lemma after_claim: "stmt_follows (lease_after get) (claim_stmt get put limit w s)"
  by (auto simp: stmt_follows_def claim_stmt_def lease_after_def get_put lease_table_ok_claim
      table_after_claim lease_table_ok_def [THEN iffD1])

lemma after_publish: "stmt_follows (lease_after get) (publish_stmt get put i w)"
  unfolding publish_stmt_def
  by (rule stmt_follows_updates)
    (simp add: lease_after_def get_put lease_table_ok_mark_published table_after_published)

lemma after_fail: "stmt_follows (lease_after get) (fail_stmt get put i e w)"
  unfolding fail_stmt_def
  by (rule stmt_follows_updates)
    (simp add: lease_after_def get_put lease_table_ok_mark_failed table_after_failed)

lemma after_insert:
  assumes "\<And>t. lease_row_ok (r t)"
  shows "stmt_follows (lease_after get) (writes (\<lambda>t d. put (insert_ignore ob_id (r t) (get d)) d))"
  by (rule stmt_follows_writes)
    (simp add: lease_after_def get_put lease_table_ok_insert assms table_after_insert)

lemma after_untouched: "db_follows (\<lambda>d d'. get d' = get d) m \<Longrightarrow> db_follows (lease_after get) m"
  by (simp add: db_follows_def lease_after_def)

lemma after_keeps_published:
  assumes "lease_after get d d'" "lease_table_ok (get d)"
    and "lookup_row ob_id i (get d) = Some r" "ob_status r = ObPublished"
  shows "lookup_row ob_id i (get d') = Some r"
  using assms by (auto simp: lease_after_def table_after_def row_after_def)

end

interpretation outbox: lease_store outbox_events "\<lambda>t d. d\<lparr>outbox_events := t\<rparr>"
  by unfold_locales simp

interpretation dlqbox: lease_store dlq_outbox "\<lambda>t d. d\<lparr>dlq_outbox := t\<rparr>"
  by unfold_locales simp

lemma new_rows_ok: "lease_row_ok (new_outbox_row t e)" "lease_row_ok (new_dlq_outbox_row t e')"
  by (simp_all add: lease_row_ok_def new_outbox_row_def new_dlq_outbox_row_def)

lemmas outbox_stmt_defs =
  insertOutboxEvent_def getPendingOutboxEvents_def markOutboxEventPublished_def
  markOutboxEventFailed_def insertDLQOutboxEvent_def getPendingDLQOutboxEvents_def
  markDLQOutboxPublished_def markDLQOutboxFailed_def

lemma outbox_ops_after:
  "db_follows (lease_after outbox_events) (insertOutboxEvent r e)"
  "db_follows (lease_after outbox_events) (getPendingOutboxEvents r limit w s)"
  "db_follows (lease_after outbox_events) (markOutboxEventPublished r i w')"
  "db_follows (lease_after outbox_events) (markOutboxEventFailed r i err w')"
  unfolding outbox_stmt_defs
  by (intro outbox.after.follows_query outbox.after_insert outbox.after_claim
      outbox.after_publish outbox.after_fail new_rows_ok)+

lemma dlqbox_ops_after:
  "db_follows (lease_after dlq_outbox) (insertDLQOutboxEvent r e)"
  "db_follows (lease_after dlq_outbox) (getPendingDLQOutboxEvents r limit w s)"
  "db_follows (lease_after dlq_outbox) (markDLQOutboxPublished r i w')"
  "db_follows (lease_after dlq_outbox) (markDLQOutboxFailed r i err w')"
  unfolding outbox_stmt_defs
  by (intro dlqbox.after.follows_query dlqbox.after_insert dlqbox.after_claim
      dlqbox.after_publish dlqbox.after_fail new_rows_ok)+

section \<open>What the statements leave alone\<close>

lemma keep_writes: "(\<And>t d. g (f t d) = g d) \<Longrightarrow> stmt_follows (\<lambda>d d'. g d' = g d) (writes f)"
  by (rule stmt_follows_writes)

lemma keep_updates: "(\<And>t d. g (f t d) = g d) \<Longrightarrow> stmt_follows (\<lambda>d d'. g d' = g d) (updates c f)"
  by (rule stmt_follows_updates)

lemma keep_claim:
  "(\<And>t d. g (put t d) = g d) \<Longrightarrow> stmt_follows (\<lambda>d d'. g d' = g d) (claim_stmt get put limit w s)"
  by (auto simp: stmt_follows_def claim_stmt_def)

lemma keep_outbox_ops [frame_rules]:
  assumes "\<And>t d. g (d\<lparr>outbox_events := t\<rparr>) = g d"
  shows "db_follows (\<lambda>d d'. g d' = g d) (insertOutboxEvent r e)"
    "db_follows (\<lambda>d d'. g d' = g d) (getPendingOutboxEvents r limit w s)"
    "db_follows (\<lambda>d d'. g d' = g d) (markOutboxEventPublished r i w')"
    "db_follows (\<lambda>d d'. g d' = g d) (markOutboxEventFailed r i err w')"
  unfolding outbox_stmt_defs publish_stmt_def fail_stmt_def
  by (intro keep.follows_query keep_writes keep_updates keep_claim assms)+

lemma keep_dlq_outbox_ops [frame_rules]:
  assumes "\<And>t d. g (d\<lparr>dlq_outbox := t\<rparr>) = g d"
  shows "db_follows (\<lambda>d d'. g d' = g d) (insertDLQOutboxEvent r e)"
    "db_follows (\<lambda>d d'. g d' = g d) (getPendingDLQOutboxEvents r limit w s)"
    "db_follows (\<lambda>d d'. g d' = g d) (markDLQOutboxPublished r i w')"
    "db_follows (\<lambda>d d'. g d' = g d) (markDLQOutboxFailed r i err w')"
  unfolding outbox_stmt_defs publish_stmt_def fail_stmt_def
  by (intro keep.follows_query keep_writes keep_updates keep_claim assms)+

lemma quiet_outbox_ops [inv_rules]:
  "bus_quiet (insertOutboxEvent r e)" "bus_quiet (getPendingOutboxEvents r limit w s)"
  "bus_quiet (markOutboxEventPublished r i w')" "bus_quiet (markOutboxEventFailed r i err w')"
  "bus_quiet (insertDLQOutboxEvent r e')" "bus_quiet (getPendingDLQOutboxEvents r limit w s)"
  "bus_quiet (markDLQOutboxPublished r i w')" "bus_quiet (markDLQOutboxFailed r i err w')"
  unfolding outbox_stmt_defs by (rule quiet_query)+

end
