(* ===== verification/Db_Events.thy ===== *)
theory Db_Events
  imports Db_Outbox
begin

text \<open>
  \<open>src/src/services/database.ts\<close>, the methods behind exactly-once effects: the idempotency
  table \<open>processed_events\<close>, the log \<open>projection_applied_events\<close>, the append-only
  \<open>event_store\<close> and the dead-letter queue \<open>dlq_messages\<close>.
\<close>

section \<open>Idempotency: processed\_events\<close>

definition is_processed :: "string \<Rightarrow> string \<Rightarrow> processed_row \<Rightarrow> bool" where
  "is_processed i consumer r \<longleftrightarrow>
     pe_event_id r = i \<and> pe_consumer_name r = consumer \<and> pe_status r = ''PROCESSED''"

definition event_processed :: "string \<Rightarrow> string \<Rightarrow> database \<Rightarrow> bool" where
  "event_processed i consumer d \<longleftrightarrow> list_ex (is_processed i consumer) (processed_events d)"

definition isEventProcessed :: "string \<Rightarrow> string \<Rightarrow> bool op" where
  "isEventProcessed i consumer = query Pool (selects (event_processed i consumer))"

definition resetProcessedEventForReplay :: "string \<Rightarrow> string option \<Rightarrow> unit op" where
  "resetProcessedEventForReplay i consumer = query Pool (writes (\<lambda>t d.
     d\<lparr>processed_events := delete_rows (\<lambda>r. pe_event_id r = i \<and>
         (case consumer of None \<Rightarrow> True | Some c \<Rightarrow> c = [] \<or> pe_consumer_name r = c)) (processed_events d)\<rparr>))"

definition getProcessedEvent :: "string \<Rightarrow> bool op" where
  "getProcessedEvent i = query Pool (selects (\<lambda>d.
     list_ex (\<lambda>r. pe_event_id r = i \<and> pe_status r = ''PROCESSED'') (processed_events d)))"

text \<open>\<open>error || null\<close>.\<close>

definition or_null :: "string option \<Rightarrow> string option" where
  "or_null x = (case x of Some s \<Rightarrow> if s = [] then None else Some s | None \<Rightarrow> None)"

definition merge_processed :: "nat \<Rightarrow> processed_row \<Rightarrow> processed_row \<Rightarrow> processed_row" where
  "merge_processed t old excluded =
     old\<lparr>pe_status := pe_status excluded, pe_error := pe_error excluded, pe_processed_at := t\<rparr>"

definition new_processed_row :: "nat \<Rightarrow> string \<Rightarrow> string \<Rightarrow> string \<Rightarrow> string option \<Rightarrow> processed_row" where
  "new_processed_row t i consumer st err =
     \<lparr>pe_event_id = i, pe_consumer_name = consumer, pe_status = st, pe_attempts = 1,
      pe_error = or_null err, pe_processed_at = t\<rparr>"

definition put_processed :: "string \<Rightarrow> string \<Rightarrow> string \<Rightarrow> string option \<Rightarrow> nat \<Rightarrow> database \<Rightarrow> database" where
  "put_processed i consumer st err t d =
     d\<lparr>processed_events := upsert pe_key (merge_processed t)
         (new_processed_row t i consumer st err) (processed_events d)\<rparr>"

definition markEventProcessed :: "runner \<Rightarrow> string \<Rightarrow> string \<Rightarrow> string \<Rightarrow> string option \<Rightarrow> unit op" where
  "markEventProcessed r i consumer st err = query r (writes (put_processed i consumer st err))"

definition markProcessed :: "string \<Rightarrow> unit op" where
  "markProcessed i = markEventProcessed Pool i ''default-consumer'' ''PROCESSED'' None"

interpretation processed: keyed_table pe_key "merge_processed t" for t
  by unfold_locales (simp add: merge_processed_def pe_key_def)

section \<open>Projection log: projection\_applied\_events\<close>

definition projection_applied :: "string \<Rightarrow> string \<Rightarrow> database \<Rightarrow> bool" where
  "projection_applied name i d \<longleftrightarrow> (name, i) \<in> set (map pa_key (projection_applied_events d))"

definition isProjectionEventApplied :: "runner \<Rightarrow> string \<Rightarrow> string \<Rightarrow> bool op" where
  "isProjectionEventApplied r name i = query r (selects (projection_applied name i))"

definition put_applied :: "string \<Rightarrow> string \<Rightarrow> string \<Rightarrow> nat \<Rightarrow> database \<Rightarrow> database" where
  "put_applied name i agg t d =
     d\<lparr>projection_applied_events := insert_ignore pa_key
         \<lparr>pa_projection_name = name, pa_event_id = i, pa_aggregate_id = agg, pa_applied_at = t\<rparr>
         (projection_applied_events d)\<rparr>"

definition markProjectionEventApplied :: "runner \<Rightarrow> string \<Rightarrow> string \<Rightarrow> string \<Rightarrow> unit op" where
  "markProjectionEventApplied r name i agg = query r (writes (put_applied name i agg))"

text \<open>Four statements; the inventory read model is not among them.\<close>

definition resetReadModelForAggregate :: "runner \<Rightarrow> string \<Rightarrow> unit op" where
  "resetReadModelForAggregate r agg =
     thenE (query r (writes (\<lambda>t d. d\<lparr>order_read_model := delete_rows (\<lambda>x. om_order_id x = agg) (order_read_model d)\<rparr>)))
     (thenE (query r (writes (\<lambda>t d. d\<lparr>payment_read_model := delete_rows (\<lambda>x. pm_order_id x = agg) (payment_read_model d)\<rparr>)))
     (thenE (query r (writes (\<lambda>t d. d\<lparr>shipment_read_model := delete_rows (\<lambda>x. sh_order_id x = agg) (shipment_read_model d)\<rparr>)))
            (query r (writes (\<lambda>t d. d\<lparr>projection_applied_events :=
               delete_rows (\<lambda>x. pa_aggregate_id x = agg) (projection_applied_events d)\<rparr>)))))"

lemma applied_put [simp]:
  "projection_applied name i (put_applied name' i' agg t d) \<longleftrightarrow>
     (name = name' \<and> i = i') \<or> projection_applied name i d"
  by (auto simp: projection_applied_def put_applied_def insert_ignore_def pa_key_def)

section \<open>Event store\<close>

text \<open>The rows of an aggregate in insertion order, and the next sequence number.\<close>

definition stream :: "string \<Rightarrow> event_row list \<Rightarrow> event_row list" where
  "stream agg tbl = filter (\<lambda>r. es_aggregate_id r = agg) tbl"

definition next_sequence :: "string \<Rightarrow> event_row list \<Rightarrow> int" where
  "next_sequence agg tbl = foldr max (map es_sequence_number (stream agg tbl)) 0 + 1"

text \<open>\<open>event.sequence_number || null\<close> under COALESCE.\<close>

definition chosen_sequence :: "envelope \<Rightarrow> event_row list \<Rightarrow> int" where
  "chosen_sequence e tbl =
     (case sequence_number e of
        Some n \<Rightarrow> if n = 0 then next_sequence (aggregate_id e) tbl else n
      | None \<Rightarrow> next_sequence (aggregate_id e) tbl)"

definition new_event_row :: "nat \<Rightarrow> envelope \<Rightarrow> int \<Rightarrow> event_row" where
  "new_event_row t e n =
     \<lparr>es_event_id = event_id e, es_aggregate_id = aggregate_id e,
      es_aggregate_type = aggregate_type e, es_event_type = event_type e,
      es_event_version = event_version e, es_sequence_number = n,
      es_payload = obj_json (payload e), es_correlation_id = correlation_id e,
      es_causation_id = causation_id e, es_producer = producer e,
      es_occurred_at = occurred_at e, es_created_at = t\<rparr>"

text \<open>
  The INSERT.  A known \<open>event_id\<close> is skipped; otherwise a sequence number that the
  aggregate already has violates \<open>uq_event_store_aggregate_seq\<close>.
\<close>

definition append_stmt :: "envelope \<Rightarrow> unit stmt" where
  "append_stmt e t d =
     (let n = chosen_sequence e (event_store d) in
      if event_id e \<in> set (map es_event_id (event_store d)) then Inr ((), d)
      else if n \<in> set (map es_sequence_number (stream (aggregate_id e) (event_store d)))
           then Inl (PgError ''duplicate key value violates unique constraint'')
           else Inr ((), d\<lparr>event_store := event_store d @ [new_event_row t e n]\<rparr>))"

text \<open>
  \<open>SELECT pg_advisory_xact_lock\<close> serialises the appends of an aggregate; an error of it is
  caught, and has aborted the transaction.
\<close>

definition append_execute :: "envelope \<Rightarrow> unit op" where
  "append_execute e =
     thenE (tryE (query Client (selects (\<lambda>d. ()))) (\<lambda>_. returnE ()))
           (query Client (append_stmt e))"

definition appendToEventStore :: "runner \<Rightarrow> envelope \<Rightarrow> unit op" where
  "appendToEventStore r e =
     (case r of Client \<Rightarrow> append_execute e | Pool \<Rightarrow> withTransaction (append_execute e))"

text \<open>\<open>ORDER BY sequence_number ASC\<close> (unique within an aggregate) and the row mapping.\<close>

definition envelope_of_row :: "event_row \<Rightarrow> envelope" where
  "envelope_of_row r =
     \<lparr>event_id = es_event_id r, event_type = es_event_type r, event_version = es_event_version r,
      sequence_number = Some (es_sequence_number r), aggregate_id = es_aggregate_id r,
      aggregate_type = es_aggregate_type r, occurred_at = es_occurred_at r,
      producer = es_producer r, correlation_id = es_correlation_id r,
      causation_id = es_causation_id r, schema_version = 1, payload = es_payload r\<rparr>"

definition aggregate_events :: "string \<Rightarrow> database \<Rightarrow> envelope list" where
  "aggregate_events agg d = map envelope_of_row (sort_key es_sequence_number (stream agg (event_store d)))"

definition getEventsByAggregateId :: "string \<Rightarrow> envelope list op" where
  "getEventsByAggregateId agg = query Pool (selects (aggregate_events agg))"

section \<open>Dead-letter queue\<close>

record dlq_record =
  dq_id :: string
  dq_eventId :: string
  dq_topic :: topic
  dq_partition :: nat
  dq_offset :: string
  dq_consumerName :: string
  dq_errorMessage :: string
  dq_stackTrace :: "string option"
  dq_payload :: obj
  dq_correlationId :: "string option"

definition new_dlq_row :: "nat \<Rightarrow> dlq_record \<Rightarrow> dlq_row" where
  "new_dlq_row t q =
     \<lparr>dl_id = dq_id q, dl_event_id = dq_eventId q, dl_topic = dq_topic q,
      dl_partition = dq_partition q, dl_offset = dq_offset q,
      dl_consumer_name = dq_consumerName q, dl_error_message = dq_errorMessage q,
      dl_stack_trace = or_null (dq_stackTrace q), dl_payload = obj_json (dq_payload q),
      dl_correlation_id = or_null (dq_correlationId q), dl_attempts = 1, dl_status = UNRESOLVED,
      dl_failed_at = t, dl_resolved_at = None\<rparr>"

definition merge_dlq :: "nat \<Rightarrow> dlq_row \<Rightarrow> dlq_row \<Rightarrow> dlq_row" where
  "merge_dlq t old excluded =
     old\<lparr>dl_attempts := dl_attempts old + 1, dl_error_message := dl_error_message excluded,
         dl_failed_at := t\<rparr>"

interpretation dlq: keyed_table dl_id "merge_dlq t" for t
  by unfold_locales (simp add: merge_dlq_def)

definition put_dlq :: "dlq_record \<Rightarrow> nat \<Rightarrow> database \<Rightarrow> database" where
  "put_dlq q t d = d\<lparr>dlq_messages := upsert dl_id (merge_dlq t) (new_dlq_row t q) (dlq_messages d)\<rparr>"

definition recordDLQMessage :: "runner \<Rightarrow> dlq_record \<Rightarrow> unit op" where
  "recordDLQMessage r q = query r (writes (put_dlq q))"

definition put_dlq_status :: "string \<Rightarrow> dlq_status \<Rightarrow> nat \<Rightarrow> database \<Rightarrow> database" where
  "put_dlq_status i st t d =
     d\<lparr>dlq_messages := update_rows (\<lambda>r. dl_id r = i)
         (\<lambda>r. r\<lparr>dl_status := st,
                dl_resolved_at := (if st = REPLAYED \<or> st = DISCARDED then Some t else dl_resolved_at r)\<rparr>)
         (dlq_messages d)\<rparr>"

definition setDLQStatus :: "string \<Rightarrow> dlq_status \<Rightarrow> unit op" where
  "setDLQStatus i st = query Pool (writes (put_dlq_status i st))"

text \<open>\<open>ORDER BY failed_at DESC LIMIT\<close>.\<close>

definition newest_first :: "('r \<Rightarrow> nat) \<Rightarrow> 'r list \<Rightarrow> 'r list" where
  "newest_first key tbl = sort_key (\<lambda>r. - int (key r)) tbl"

definition listDLQMessages :: "nat \<Rightarrow> dlq_status \<Rightarrow> dlq_row list op" where
  "listDLQMessages limit st = query Pool (selects (\<lambda>d.
     take limit (newest_first dl_failed_at (filter (\<lambda>r. dl_status r = st) (dlq_messages d)))))"

definition getDLQMessage :: "string \<Rightarrow> dlq_row option op" where
  "getDLQMessage i = query Pool (selects (\<lambda>d. lookup_row dl_id i (dlq_messages d)))"

definition markDLQResolved :: "string \<Rightarrow> dlq_status \<Rightarrow> unit op" where
  "markDLQResolved i st = setDLQStatus i st"

section \<open>Facts\<close>

text \<open>A processed mark stands until it is overwritten for the same event and consumer.\<close>

lemma processed_key: "is_processed i c r \<Longrightarrow> pe_key r = (i, c)"
  by (simp add: is_processed_def pe_key_def)

lemma event_processed_lookup:
  assumes "unique_by pe_key (processed_events d)"
  shows "event_processed i c d \<longleftrightarrow>
         (\<exists>r. lookup_row pe_key (i, c) (processed_events d) = Some r \<and> pe_status r = ''PROCESSED'')"
proof
  assume "event_processed i c d"
  then obtain r where "r \<in> set (processed_events d)" "is_processed i c r"
    by (auto simp: event_processed_def list_ex_iff)
  with assms have "lookup_row pe_key (i, c) (processed_events d) = Some r" "pe_status r = ''PROCESSED''"
    using lookup_row_mem [of pe_key "processed_events d" r] processed_key [of i c r]
    by (simp_all add: is_processed_def)
  then show "\<exists>r. lookup_row pe_key (i, c) (processed_events d) = Some r \<and> pe_status r = ''PROCESSED''"
    by blast
next
  assume "\<exists>r. lookup_row pe_key (i, c) (processed_events d) = Some r \<and> pe_status r = ''PROCESSED''"
  then show "event_processed i c d"
    by (auto simp: event_processed_def list_ex_iff is_processed_def pe_key_def dest!: lookup_row_Some)
qed

lemma processed_row_ok:
  "pe_key r = (i, c) \<Longrightarrow> pe_status r = ''PROCESSED'' \<Longrightarrow> is_processed i c r"
  by (simp add: is_processed_def pe_key_def)

lemma lookup_put_processed:
  "\<exists>r. lookup_row pe_key (i, c) (processed_events (put_processed i c st err t d)) = Some r \<and>
       pe_status r = st \<and> pe_error r = or_null err \<and> pe_processed_at r = t"
proof -
  let ?r = "new_processed_row t i c st err"
  have "pe_key ?r = (i, c)" by (simp add: pe_key_def new_processed_row_def)
  then have "lookup_row pe_key (i, c) (processed_events (put_processed i c st err t d)) =
      (case lookup_row pe_key (i, c) (processed_events d) of
         None \<Rightarrow> Some ?r | Some old \<Rightarrow> Some (merge_processed t old ?r))"
    using processed.lookup_upsert_same [of ?r t "processed_events d"] by (simp add: put_processed_def)
  then show ?thesis
    by (auto simp: merge_processed_def new_processed_row_def split: option.splits)
qed

lemma event_processed_put [simp]: "event_processed i c (put_processed i c ''PROCESSED'' err t d)"
proof -
  obtain r where "lookup_row pe_key (i, c) (processed_events (put_processed i c ''PROCESSED'' err t d)) = Some r"
    "pe_status r = ''PROCESSED''"
    using lookup_put_processed by blast
  then show ?thesis
    by (auto simp: event_processed_def list_ex_iff is_processed_def pe_key_def dest!: lookup_row_Some)
qed

lemma keep_event_ops [frame_rules]:
  shows "db_follows (\<lambda>d d'. g d' = g d) (isEventProcessed i c)"
    and "(\<And>t d. g (d\<lparr>processed_events := t\<rparr>) = g d) \<Longrightarrow>
         db_follows (\<lambda>d d'. g d' = g d) (markEventProcessed r i c st err)"
  by (auto simp: isEventProcessed_def markEventProcessed_def put_processed_def
      intro!: keep.follows_query keep.follows_selects keep_writes)

lemma keep_recordDLQMessage [frame_rules]:
  "(\<And>t d. g (d\<lparr>dlq_messages := t\<rparr>) = g d) \<Longrightarrow>
   db_follows (\<lambda>d d'. g d' = g d) (recordDLQMessage r q)"
  by (auto simp: recordDLQMessage_def put_dlq_def intro!: keep.follows_query keep_writes)

lemma quiet_event_ops [inv_rules]:
  "bus_quiet (isEventProcessed i c)" "bus_quiet (markEventProcessed r i c st err)"
  "bus_quiet (recordDLQMessage r q)" "bus_quiet (resetProcessedEventForReplay i c')"
  "bus_quiet (isProjectionEventApplied r n i)" "bus_quiet (markProjectionEventApplied r n i a)"
  "bus_quiet (setDLQStatus i s)" "bus_quiet (getDLQMessage i)" "bus_quiet (listDLQMessages l s)"
  "bus_quiet (getEventsByAggregateId a)" "bus_quiet (resetReadModelForAggregate r a)"
  unfolding isEventProcessed_def markEventProcessed_def recordDLQMessage_def
    resetProcessedEventForReplay_def isProjectionEventApplied_def markProjectionEventApplied_def
    setDLQStatus_def getDLQMessage_def listDLQMessages_def getEventsByAggregateId_def
    resetReadModelForAggregate_def
  by (intro quiet_query quiet_thenE)+

end
