(* ===== verification/Db_State.thy ===== *)
theory Db_State
  imports Db_Events "HOL-Library.List_Lexorder" "HOL-Library.Char_ord"
begin

text \<open>
  \<open>src/src/services/database.ts\<close>, the remaining methods: start-up, saga instances, orders
  and their read model, the legacy timeline, the metrics and the benchmark reset.
\<close>

section \<open>Start-up\<close>

text \<open>
  \<open>createTables\<close> and \<open>initialize\<close>: up to ten attempts, two seconds apart; only an error
  of the last one is thrown.  The argument of the loop is the number of attempts left.
\<close>

text \<open>
  \<open>createTables\<close>: seven statements that create the tables that do not exist yet, the seeds of
  the inventory, and four more such statements; each is a call that may fail, and what ran
  before stays.  The tables themselves are those of \<open>database\<close> from the start.
\<close>

primrec ddl :: "nat \<Rightarrow> unit op" where
  "ddl 0 = returnE ()"
| "ddl (Suc n) = thenE (query Pool (selects (\<lambda>d. ()))) (ddl n)"

lemma ddl_done [simp]: "db_script w = [] \<Longrightarrow> ddl n w = (Inr (), w)"
  by (induction n) (simp_all add: returnE_def thenE_def bindE_def selects_def)

definition createTables_op :: "unit op" where
  "createTables_op =
     thenE control (thenE (ddl 7) (thenE (query Pool (writes createTables)) (ddl 4)))"

definition initialize_attempt :: "unit op" where
  "initialize_attempt = thenE control (thenE (query Pool (selects (\<lambda>d. ()))) createTables_op)"

fun initialize_loop :: "nat \<Rightarrow> unit op" where
  "initialize_loop 0 = returnE ()"
| "initialize_loop (Suc left) =
     tryE initialize_attempt
       (\<lambda>e. if left = 0 then throwE e else thenE (sleep 2000) (initialize_loop left))"

definition initialize :: "unit op" where
  "initialize = initialize_loop 10"

definition ping :: "bool op" where
  "ping = tryE (thenE (query Pool (selects (\<lambda>d. ()))) (returnE True)) (\<lambda>_. returnE False)"

section \<open>Saga instances\<close>

text \<open>The argument of \<open>saveSagaInstance\<close>.\<close>

record saga_data =
  sv_sagaId :: string
  sv_aggregateId :: string
  sv_sagaType :: string
  sv_state :: saga_state
  sv_currentStep :: string
  sv_correlationId :: string
  sv_context :: obj
  sv_failureReason :: "string option"

definition new_saga_row :: "nat \<Rightarrow> saga_data \<Rightarrow> saga_row" where
  "new_saga_row t s =
     \<lparr>saga_id = sv_sagaId s, sg_aggregate_id = sv_aggregateId s, saga_type = sv_sagaType s,
      state = sv_state s, current_step = sv_currentStep s, sg_correlation_id = sv_correlationId s,
      sg_context = obj_json (sv_context s), failure_reason = or_null (sv_failureReason s),
      sg_created_at = t, sg_updated_at = t\<rparr>"

definition merge_saga :: "nat \<Rightarrow> saga_row \<Rightarrow> saga_row \<Rightarrow> saga_row" where
  "merge_saga t old excluded =
     old\<lparr>state := state excluded, current_step := current_step excluded,
         sg_context := sg_context excluded, failure_reason := failure_reason excluded,
         sg_updated_at := t\<rparr>"

definition put_saga :: "saga_data \<Rightarrow> nat \<Rightarrow> database \<Rightarrow> database" where
  "put_saga s t d = d\<lparr>saga_instances := upsert saga_id (merge_saga t) (new_saga_row t s) (saga_instances d)\<rparr>"

definition saveSagaInstance :: "runner \<Rightarrow> saga_data \<Rightarrow> unit op" where
  "saveSagaInstance r s = query r (writes (put_saga s))"

definition getSagaInstance :: "runner \<Rightarrow> string \<Rightarrow> saga_row option op" where
  "getSagaInstance r i = query r (selects (\<lambda>d. lookup_row saga_id i (saga_instances d)))"

text \<open>\<open>ORDER BY created_at DESC LIMIT 1\<close>.\<close>

definition latest_saga :: "string \<Rightarrow> saga_row list \<Rightarrow> saga_row option" where
  "latest_saga agg tbl =
     (case newest_first sg_created_at (filter (\<lambda>r. sg_aggregate_id r = agg) tbl) of
        [] \<Rightarrow> None | r # _ \<Rightarrow> Some r)"

definition getSagaByAggregateId :: "runner \<Rightarrow> string \<Rightarrow> saga_row option op" where
  "getSagaByAggregateId r agg = query r (selects (\<lambda>d. latest_saga agg (saga_instances d)))"

definition getSagaByAggregateIdForUpdate :: "string \<Rightarrow> saga_row option op" where
  "getSagaByAggregateIdForUpdate agg = query Client (selects (\<lambda>d. latest_saga agg (saga_instances d)))"

definition listSagas :: "nat \<Rightarrow> saga_row list op" where
  "listSagas limit = query Pool (selects (\<lambda>d. take limit (newest_first sg_created_at (saga_instances d))))"

interpretation saga: keyed_table saga_id "merge_saga t" for t
  by unfold_locales (simp add: merge_saga_def)

section \<open>Orders and the order read model\<close>

text \<open>
  \<open>Order\<close> of types.ts; the dates are times, and the user id is whatever the request brought,
  which the driver turns into the text of the parameter.
\<close>

record order =
  order_id :: string
  order_user_id :: js
  order_items :: js
  order_status :: string
  order_total_amount :: jnum
  order_created_at :: nat
  order_updated_at :: nat

definition new_order_row :: "order \<Rightarrow> string \<Rightarrow> jnum \<Rightarrow> order_row" where
  "new_order_row ord user amount =
     \<lparr>or_id = order_id ord, or_user_id = user, or_status = order_status ord,
      or_total_amount = amount, or_metadata = obj_json [(''items'', order_items ord)],
      or_created_at = order_created_at ord, or_updated_at = order_updated_at ord\<rparr>"

definition merge_order :: "order_row \<Rightarrow> order_row \<Rightarrow> order_row" where
  "merge_order old excluded =
     old\<lparr>or_status := or_status excluded, or_metadata := or_metadata excluded,
         or_updated_at := or_updated_at excluded\<rparr>"

definition insertOrder_stmt :: "order \<Rightarrow> unit stmt" where
  "insertOrder_stmt ord t d =
     bind_sum (text_column 100 (order_user_id ord)) (\<lambda>user.
     bind_sum (pg_decimal (JNum (order_total_amount ord))) (\<lambda>amount.
     Inr ((), d\<lparr>orders := upsert or_id merge_order (new_order_row ord user amount) (orders d)\<rparr>)))"

definition insertOrder :: "runner \<Rightarrow> order \<Rightarrow> unit op" where
  "insertOrder r ord = query r (insertOrder_stmt ord)"

interpretation order: keyed_table or_id merge_order
  by unfold_locales (simp add: merge_order_def)

text \<open>
  What the API returns (\<open>ORDER BY created_at DESC\<close> compares ISO texts of one format).  \<open>parseFloat\<close> of the DECIMAL text is the double nearest to it.
  Times are the ISO texts of the read model, or those of the write model.
\<close>

record order_view =
  view_id :: string
  view_user_id :: string
  view_items :: js
  view_status :: string
  view_total_amount :: jnum
  view_created_at :: string
  view_updated_at :: string

definition parse_decimal :: "jnum \<Rightarrow> jnum" where
  "parse_decimal n = (case n of Fin r \<Rightarrow> fl r | _ \<Rightarrow> n)"

definition view_of_read_row :: "order_read_row \<Rightarrow> order_view" where
  "view_of_read_row r =
     \<lparr>view_id = om_order_id r, view_user_id = om_user_id r, view_items = js_or (om_items r) (JArr []),
      view_status = om_status r, view_total_amount = parse_decimal (om_total_amount r),
      view_created_at = om_created_at r, view_updated_at = om_updated_at r\<rparr>"

definition mapOrderRow :: "order_row \<Rightarrow> order_view" where
  "mapOrderRow r =
     \<lparr>view_id = or_id r, view_user_id = or_user_id r,
      view_items = js_or (obj_get (or_metadata r) ''items'') (JArr []),
      view_status = or_status r, view_total_amount = parse_decimal (or_total_amount r),
      view_created_at = toISOString (or_created_at r), view_updated_at = toISOString (or_updated_at r)\<rparr>"

definition getOrder :: "string \<Rightarrow> order_view option op" where
  "getOrder i =
     bindE (query Pool (selects (\<lambda>d. lookup_row om_order_id i (order_read_model d)))) (\<lambda>row.
       case row of
         Some r \<Rightarrow> returnE (Some (view_of_read_row r))
       | None \<Rightarrow> bindE (query Pool (selects (\<lambda>d. lookup_row or_id i (orders d))))
                  (\<lambda>legacy. returnE (map_option mapOrderRow legacy)))"

definition newest_first_iso :: "('r \<Rightarrow> string) \<Rightarrow> 'r list \<Rightarrow> 'r list" where
  "newest_first_iso key tbl = rev (sort_key key (rev tbl))"

definition listOrders :: "nat \<Rightarrow> order_view list op" where
  "listOrders limit =
     bindE (query Pool (selects (\<lambda>d. take limit (newest_first_iso om_created_at (order_read_model d))))) (\<lambda>rows.
       if rows \<noteq> [] then returnE (map view_of_read_row rows)
       else bindE (query Pool (selects (\<lambda>d. take limit (newest_first or_created_at (orders d)))))
              (\<lambda>legacy. returnE (map mapOrderRow legacy)))"

definition recordEvent :: "string \<Rightarrow> string \<Rightarrow> string \<Rightarrow> unit op" where
  "recordEvent i ty tpc = query Pool (writes (\<lambda>t d. d\<lparr>order_events := order_events d @
     [\<lparr>oe_order_id = i, oe_event_type = ty, oe_topic = tpc, oe_created_at = t\<rparr>]\<rparr>))"

record timeline_entry =
  tl_event_type :: string
  tl_topic :: string
  tl_timestamp :: string

definition timeline_of_event :: "event_row \<Rightarrow> timeline_entry" where
  "timeline_of_event r =
     \<lparr>tl_event_type = event_name (es_event_type r), tl_topic = es_producer r, tl_timestamp = es_occurred_at r\<rparr>"

definition timeline_of_legacy :: "order_event_row \<Rightarrow> timeline_entry" where
  "timeline_of_legacy r =
     \<lparr>tl_event_type = oe_event_type r, tl_topic = oe_topic r, tl_timestamp = toISOString (oe_created_at r)\<rparr>"

definition getOrderEvents :: "string \<Rightarrow> timeline_entry list op" where
  "getOrderEvents i =
     bindE (query Pool (selects (\<lambda>d. sort_key es_sequence_number (stream i (event_store d))))) (\<lambda>rows.
       if rows \<noteq> [] then returnE (map timeline_of_event rows)
       else bindE (query Pool (selects (\<lambda>d. sort_key oe_created_at
                     (filter (\<lambda>r. oe_order_id r = i) (order_events d)))))
              (\<lambda>legacy. returnE (map timeline_of_legacy legacy)))"

text \<open>\<open>metadata || $2\<close> of JSONB: the right operand wins.\<close>

definition json_merge :: "obj \<Rightarrow> obj \<Rightarrow> obj" where
  "json_merge a b = fold (\<lambda>(k, v) ob. obj_put k v ob) b a"

definition updateOrderStatus :: "string \<Rightarrow> string \<Rightarrow> obj \<Rightarrow> unit op" where
  "updateOrderStatus i st metadata = query Pool (writes (\<lambda>t d. d\<lparr>orders :=
     update_rows (\<lambda>r. or_id r = i)
       (\<lambda>r. r\<lparr>or_status := st, or_metadata := json_merge (or_metadata r) (obj_json metadata),
              or_updated_at := t\<rparr>) (orders d)\<rparr>))"

section \<open>Metrics\<close>

record metrics =
  total_orders :: nat
  orders_created_total :: nat
  completed_orders :: nat
  orders_completed_total :: nat
  orders_cancelled_total :: nat
  failed_orders :: nat
  avg_order_value :: jnum
  outbox_pending :: nat
  outbox_processing :: nat
  outbox_published_total :: nat
  outbox_failed_total :: nat
  saga_started_total :: nat
  saga_completed_total :: nat
  saga_compensated_total :: nat
  saga_failed_total :: nat
  dlq_messages_total :: nat
  dlq_unresolved_total :: nat
  dlq_replayed_total :: nat
  event_store_events_total :: nat

text \<open>
  AVG of a numeric column, then \<open>parseFloat(...) || 0\<close>.  PostgreSQL rounds the quotient
  to its own number of digits before the double is taken, here the exact quotient is; a
  NaN in the column makes the average NaN and the metric 0.
\<close>

definition average_amount :: "order_row list \<Rightarrow> jnum" where
  "average_amount tbl =
     (if tbl = [] \<or> list_ex (\<lambda>r. or_total_amount r = NaN) tbl then Fin 0
      else fl (sum_list (map (\<lambda>r. case or_total_amount r of Fin x \<Rightarrow> x | _ \<Rightarrow> 0) tbl)
                    / of_nat (length tbl)))"

definition metrics_of :: "database \<Rightarrow> metrics" where
  "metrics_of d =
     \<lparr>total_orders = length (orders d),
      orders_created_total = length (orders d),
      completed_orders = matching (\<lambda>r. om_status r = ''completed'') (order_read_model d),
      orders_completed_total = matching (\<lambda>r. om_status r = ''completed'') (order_read_model d),
      orders_cancelled_total = matching (\<lambda>r. om_status r = ''cancelled'') (order_read_model d),
      failed_orders = matching (\<lambda>r. om_status r = ''failed'' \<or> om_status r = ''cancelled'') (order_read_model d),
      avg_order_value = average_amount (orders d),
      outbox_pending = matching (\<lambda>r. ob_status r = ObPending) (outbox_events d),
      outbox_processing = matching (\<lambda>r. ob_status r = ObProcessing) (outbox_events d),
      outbox_published_total = matching (\<lambda>r. ob_status r = ObPublished) (outbox_events d),
      outbox_failed_total = matching (\<lambda>r. ob_status r = ObFailed) (outbox_events d),
      saga_started_total = length (saga_instances d),
      saga_completed_total = matching (\<lambda>r. state r = COMPLETED) (saga_instances d),
      saga_compensated_total = matching (\<lambda>r. state r = CANCELLED) (saga_instances d),
      saga_failed_total = matching (\<lambda>r. state r = FAILED) (saga_instances d),
      dlq_messages_total = length (dlq_messages d),
      dlq_unresolved_total = matching (\<lambda>r. dl_status r = UNRESOLVED) (dlq_messages d),
      dlq_replayed_total = matching (\<lambda>r. dl_status r = REPLAYED) (dlq_messages d),
      event_store_events_total = length (event_store d)\<rparr>"

definition getMetrics :: "metrics op" where
  "getMetrics = query Pool (selects metrics_of)"

section \<open>Benchmark reset\<close>

definition benchmark_stock :: "nat \<Rightarrow> inventory_read_row list" where
  "benchmark_stock t =
     [seed_item t ''LAPTOP-001'' ''High Performance Workstation'' 1000000,
      seed_item t ''PHONE-002'' ''Smartphone Pro Max'' 1000000,
      seed_item t ''KEYBOARD-003'' ''Wireless Mechanical Keyboard'' 1000000,
      seed_item t ''MONITOR-004'' ''4K Ultra-wide Monitor'' 1000000,
      seed_item t ''OUT_OF_STOCK_ITEM'' ''Limited Edition Collectible'' 0]"

definition merge_benchmark_stock :: "inventory_read_row \<Rightarrow> inventory_read_row \<Rightarrow> inventory_read_row" where
  "merge_benchmark_stock old excluded =
     old\<lparr>iv_total_stock := 1000000, iv_reserved_stock := 0, iv_available_stock := 1000000\<rparr>"

definition truncateBenchmarkData :: "unit op" where
  "truncateBenchmarkData =
     thenE control
     (thenE (query Pool (writes (\<lambda>t d. empty_database)))
            (query Pool (writes (\<lambda>t d. d\<lparr>inventory_read_model :=
               foldl (\<lambda>tbl r. upsert iv_sku merge_benchmark_stock r tbl)
                 (inventory_read_model d) (benchmark_stock t)\<rparr>))))"

interpretation stock_reset: keyed_table iv_sku merge_benchmark_stock
  by unfold_locales (simp add: merge_benchmark_stock_def)

section \<open>Facts\<close>

lemma keep_saga_ops [frame_rules]:
  shows "db_follows (\<lambda>d d'. g d' = g d) (getSagaByAggregateId r a)"
    and "db_follows (\<lambda>d d'. g d' = g d) (getSagaByAggregateIdForUpdate a)"
    and "(\<And>t d. g (d\<lparr>saga_instances := t\<rparr>) = g d) \<Longrightarrow>
         db_follows (\<lambda>d d'. g d' = g d) (saveSagaInstance r s)"
  by (auto simp: getSagaByAggregateId_def getSagaByAggregateIdForUpdate_def saveSagaInstance_def
      put_saga_def intro!: keep.follows_query keep.follows_selects keep_writes)

lemma quiet_state_ops [inv_rules]:
  "bus_quiet (getSagaByAggregateId r a)" "bus_quiet (getSagaByAggregateIdForUpdate a)"
  "bus_quiet (saveSagaInstance r s)" "bus_quiet (insertOrder r ord)"
  unfolding getSagaByAggregateId_def getSagaByAggregateIdForUpdate_def saveSagaInstance_def
    insertOrder_def
  by (rule quiet_query)+

lemma latest_saga_mem: "latest_saga agg tbl = Some r \<Longrightarrow> r \<in> set tbl \<and> sg_aggregate_id r = agg"
proof -
  assume "latest_saga agg tbl = Some r"
  then have "r \<in> set (newest_first sg_created_at (filter (\<lambda>r. sg_aggregate_id r = agg) tbl))"
    by (simp add: latest_saga_def split: list.splits)
  then show ?thesis by (simp add: newest_first_def)
qed

lemma initialize_gives_up_last:
  "fst (initialize_loop n w) = Inl e \<Longrightarrow> 0 < n"
  by (cases n) (simp_all add: returnE_def)

text \<open>With a database that answers, the first attempt creates the tables.\<close>

lemma initialize_first_attempt:
  "db_script w = [] \<Longrightarrow> initialize w = (Inr (), w\<lparr>db := createTables (now w) (db w)\<rparr>)"
  by (simp add: initialize_def eval_nat_numeral initialize_attempt_def createTables_op_def run_defs)

end
