(* ===== verification/Payloads.thy ===== *)
theory Payloads
  imports Contracts
begin

text \<open>
  The payload schemas of \<open>src/src/contracts/events\<close> and the schemas shared with the
  real-time layer (\<open>src/src/contracts/events.ts\<close>).  \<open>payload_schema\<close> gives the schema
  of each event type, by the schemas' names.
\<close>

section \<open>events/order.ts\<close>

definition OrderItemSchema :: schema where
  "OrderItemSchema = ZObject
     [(''sku'', z_nonempty),
      (''name'', z_nonempty),
      (''price'', ZNumber [NPositive]),
      (''quantity'', ZNumber [NInt, NPositive])]"

definition OrderCreatedPayloadSchema :: schema where
  "OrderCreatedPayloadSchema = ZObject
     [(''order_id'', z_nonempty),
      (''user_id'', z_nonempty),
      (''items'', ZArray OrderItemSchema 1),
      (''total_amount'', ZNumber [NPositive]),
      (''currency'', ZDefault (ZString 0) (JStr ''USD'')),
      (''shipping_address'', ZDefault (ZObject [(''street'', ZOptional (ZString 0)), (''city'', ZOptional (ZString 0)),
         (''zip'', ZOptional (ZString 0)), (''country'', ZDefault (ZString 0) (JStr ''US''))])
        (JObj [(''country'', JStr ''US'')]))]"

definition OrderCancelledPayloadSchema :: schema where
  "OrderCancelledPayloadSchema = ZObject
     [(''order_id'', z_nonempty),
      (''user_id'', z_nonempty),
      (''reason'', z_nonempty),
      (''cancelled_at'', z_datetime_or_string),
      (''compensated_steps'', ZDefault (ZArray (ZString 0) 0) (JArr []))]"

section \<open>events/payment.ts\<close>

definition PaymentRequestedPayloadSchema :: schema where
  "PaymentRequestedPayloadSchema = ZObject
     [(''order_id'', z_nonempty),
      (''user_id'', z_nonempty),
      (''amount'', ZNumber [NPositive]),
      (''currency'', ZDefault (ZString 0) (JStr ''USD'')),
      (''payment_method'', ZDefault (ZString 0) (JStr ''credit_card''))]"

definition PaymentAuthorizedPayloadSchema :: schema where
  "PaymentAuthorizedPayloadSchema = ZObject
     [(''payment_id'', z_nonempty),
      (''order_id'', z_nonempty),
      (''user_id'', z_nonempty),
      (''amount'', ZNumber [NPositive]),
      (''authorization_code'', z_nonempty),
      (''authorized_at'', z_datetime_or_string)]"

definition PaymentRejectedPayloadSchema :: schema where
  "PaymentRejectedPayloadSchema = ZObject
     [(''order_id'', z_nonempty),
      (''user_id'', z_nonempty),
      (''amount'', ZNumber [NPositive]),
      (''reason'', z_nonempty),
      (''rejected_at'', z_datetime_or_string)]"

definition PaymentRefundRequestedPayloadSchema :: schema where
  "PaymentRefundRequestedPayloadSchema = ZObject
     [(''order_id'', z_nonempty),
      (''payment_id'', ZOptional (ZString 0)),
      (''amount'', ZNumber [NPositive]),
      (''reason'', z_nonempty)]"

definition PaymentRefundedPayloadSchema :: schema where
  "PaymentRefundedPayloadSchema = ZObject
     [(''refund_id'', z_nonempty),
      (''payment_id'', z_nonempty),
      (''order_id'', z_nonempty),
      (''amount'', ZNumber [NPositive]),
      (''refunded_at'', z_datetime_or_string)]"

section \<open>events/inventory.ts\<close>

definition InventoryReservationRequestedPayloadSchema :: schema where
  "InventoryReservationRequestedPayloadSchema = ZObject
     [(''order_id'', z_nonempty),
      (''items'', ZArray OrderItemSchema 1)]"

definition InventoryReservedPayloadSchema :: schema where
  "InventoryReservedPayloadSchema = ZObject
     [(''reservation_id'', z_nonempty),
      (''order_id'', z_nonempty),
      (''items'', ZArray OrderItemSchema 1),
      (''reserved_at'', z_datetime_or_string)]"

definition InventoryReservationFailedPayloadSchema :: schema where
  "InventoryReservationFailedPayloadSchema = ZObject
     [(''order_id'', z_nonempty),
      (''items'', ZArray OrderItemSchema 1),
      (''reason'', z_nonempty),
      (''failed_at'', z_datetime_or_string)]"

definition InventoryReleasedPayloadSchema :: schema where
  "InventoryReleasedPayloadSchema = ZObject
     [(''reservation_id'', ZOptional (ZString 0)),
      (''order_id'', z_nonempty),
      (''items'', ZArray OrderItemSchema 1),
      (''released_at'', z_datetime_or_string),
      (''reason'', z_nonempty)]"

section \<open>events/fraud.ts\<close>

definition FraudCheckRequestedPayloadSchema :: schema where
  "FraudCheckRequestedPayloadSchema = ZObject
     [(''order_id'', z_nonempty),
      (''user_id'', z_nonempty),
      (''amount'', ZNumber [NPositive]),
      (''payment_id'', z_nonempty)]"

definition FraudApprovedPayloadSchema :: schema where
  "FraudApprovedPayloadSchema = ZObject
     [(''fraud_check_id'', z_nonempty),
      (''order_id'', z_nonempty),
      (''risk_score'', ZNumber [NMin 0, NMax 100]),
      (''approved_at'', z_datetime_or_string)]"

definition FraudRejectedPayloadSchema :: schema where
  "FraudRejectedPayloadSchema = ZObject
     [(''fraud_check_id'', z_nonempty),
      (''order_id'', z_nonempty),
      (''risk_score'', ZNumber [NMin 0, NMax 100]),
      (''reason'', z_nonempty),
      (''rejected_at'', z_datetime_or_string)]"

section \<open>events/shipping.ts\<close>

definition ShipmentRequestedPayloadSchema :: schema where
  "ShipmentRequestedPayloadSchema = ZObject
     [(''order_id'', z_nonempty),
      (''user_id'', z_nonempty),
      (''items'', ZArray OrderItemSchema 1),
      (''shipping_address'', ZDefault ZRecord (JObj []))]"

definition ShipmentCreatedPayloadSchema :: schema where
  "ShipmentCreatedPayloadSchema = ZObject
     [(''shipment_id'', z_nonempty),
      (''order_id'', z_nonempty),
      (''tracking_number'', z_nonempty),
      (''carrier'', ZDefault (ZString 0) (JStr ''FEDEX'')),
      (''estimated_delivery'', z_datetime_or_string),
      (''created_at'', z_datetime_or_string)]"

definition ShipmentFailedPayloadSchema :: schema where
  "ShipmentFailedPayloadSchema = ZObject
     [(''order_id'', z_nonempty),
      (''reason'', z_nonempty),
      (''failed_at'', z_datetime_or_string)]"

section \<open>events/notification.ts\<close>

definition NotificationRequestedPayloadSchema :: schema where
  "NotificationRequestedPayloadSchema = ZObject
     [(''order_id'', z_nonempty),
      (''user_id'', z_nonempty),
      (''channel'', ZDefault (ZEnum [''EMAIL'', ''SMS'', ''PUSH'', ''WEBHOOK'']) (JStr ''EMAIL'')),
      (''template'', z_nonempty),
      (''recipient'', z_nonempty),
      (''data'', ZRecord)]"

definition NotificationSentPayloadSchema :: schema where
  "NotificationSentPayloadSchema = ZObject
     [(''notification_id'', z_nonempty),
      (''order_id'', z_nonempty),
      (''user_id'', z_nonempty),
      (''channel'', z_nonempty),
      (''sent_at'', z_datetime_or_string)]"

section \<open>events/saga.ts\<close>

definition OrderCompletedPayloadSchema :: schema where
  "OrderCompletedPayloadSchema = ZObject
     [(''order_id'', z_nonempty),
      (''user_id'', z_nonempty),
      (''completed_at'', z_datetime_or_string),
      (''total_amount'', ZNumber [NPositive]),
      (''payment_id'', ZOptional (ZString 0)),
      (''shipment_id'', ZOptional (ZString 0)),
      (''tracking_number'', ZOptional (ZString 0))]"

definition OrderFailedPayloadSchema :: schema where
  "OrderFailedPayloadSchema = ZObject
     [(''order_id'', z_nonempty),
      (''user_id'', z_nonempty),
      (''reason'', z_nonempty),
      (''failed_at'', z_datetime_or_string),
      (''failed_step'', z_nonempty),
      (''compensation_status'', ZEnum [''COMPENSATED'', ''NO_COMPENSATION_NEEDED'', ''COMPENSATION_FAILED''])]"

section \<open>events.ts\<close>

definition orderStatusSchema :: schema where
  "orderStatusSchema = ZEnum
     [''pending'', ''payment_pending'', ''payment_processing'', ''payment_approved'',
      ''payment_rejected'', ''inventory_pending'', ''inventory_reserved'', ''inventory_failed'',
      ''fraud_pending'', ''fraud_approved'', ''fraud_rejected'', ''shipping_pending'',
      ''shipping_created'', ''shipping_failed'', ''completed'', ''compensating'', ''cancelled'',
      ''failed'']"

definition orderSummarySchema :: schema where
  "orderSummarySchema = ZObject
     [(''order_id'', ZString 0),
      (''user_id'', ZString 0),
      (''status'', orderStatusSchema),
      (''total_amount'', ZNumber []),
      (''created_at'', ZOptional (ZString 0))]"

definition orderUpdateSchema :: schema where
  "orderUpdateSchema = ZObject
     [(''order_id'', ZString 0),
      (''status'', orderStatusSchema),
      (''step'', ZOptional (ZString 0)),
      (''metadata'', ZOptional ZRecord)]"

definition orderEventPayloadSchema :: schema where
  "orderEventPayloadSchema = ZObject
     [(''event_type'', ZString 0),
      (''topic'', ZString 0),
      (''timestamp'', ZString 0),
      (''correlation_id'', ZOptional (ZString 0)),
      (''causation_id'', ZOptional (ZString 0)),
      (''payload'', ZOptional ZRecord)]"

section \<open>The schema of each event\<close>

fun payload_schema :: "event_type \<Rightarrow> schema" where
  "payload_schema OrderCreated = OrderCreatedPayloadSchema"
| "payload_schema OrderCancelled = OrderCancelledPayloadSchema"
| "payload_schema PaymentRequested = PaymentRequestedPayloadSchema"
| "payload_schema PaymentAuthorized = PaymentAuthorizedPayloadSchema"
| "payload_schema PaymentRejected = PaymentRejectedPayloadSchema"
| "payload_schema PaymentRefundRequested = PaymentRefundRequestedPayloadSchema"
| "payload_schema PaymentRefunded = PaymentRefundedPayloadSchema"
| "payload_schema InventoryReservationRequested = InventoryReservationRequestedPayloadSchema"
| "payload_schema InventoryReserved = InventoryReservedPayloadSchema"
| "payload_schema InventoryReservationFailed = InventoryReservationFailedPayloadSchema"
| "payload_schema InventoryReleased = InventoryReleasedPayloadSchema"
| "payload_schema FraudCheckRequested = FraudCheckRequestedPayloadSchema"
| "payload_schema FraudApproved = FraudApprovedPayloadSchema"
| "payload_schema FraudRejected = FraudRejectedPayloadSchema"
| "payload_schema ShipmentRequested = ShipmentRequestedPayloadSchema"
| "payload_schema ShipmentCreated = ShipmentCreatedPayloadSchema"
| "payload_schema ShipmentFailed = ShipmentFailedPayloadSchema"
| "payload_schema NotificationRequested = NotificationRequestedPayloadSchema"
| "payload_schema NotificationSent = NotificationSentPayloadSchema"
| "payload_schema OrderCompleted = OrderCompletedPayloadSchema"
| "payload_schema OrderFailed = OrderFailedPayloadSchema"
| "payload_schema (OtherEvent _) = ZRecord"

lemmas payload_schema_defs =
  OrderItemSchema_def
  OrderCreatedPayloadSchema_def
  OrderCancelledPayloadSchema_def
  PaymentRequestedPayloadSchema_def
  PaymentAuthorizedPayloadSchema_def
  PaymentRejectedPayloadSchema_def
  PaymentRefundRequestedPayloadSchema_def
  PaymentRefundedPayloadSchema_def
  InventoryReservationRequestedPayloadSchema_def
  InventoryReservedPayloadSchema_def
  InventoryReservationFailedPayloadSchema_def
  InventoryReleasedPayloadSchema_def
  FraudCheckRequestedPayloadSchema_def
  FraudApprovedPayloadSchema_def
  FraudRejectedPayloadSchema_def
  ShipmentRequestedPayloadSchema_def
  ShipmentCreatedPayloadSchema_def
  ShipmentFailedPayloadSchema_def
  NotificationRequestedPayloadSchema_def
  NotificationSentPayloadSchema_def
  OrderCompletedPayloadSchema_def
  OrderFailedPayloadSchema_def

end
