(* ===== verification/Base_Consumer.thy ===== *)
theory Base_Consumer
  imports Db_State Payloads
begin

text \<open>
  \<open>src/src/consumers/base-consumer.ts\<close>: what every consumer does with a Kafka message.
  \<open>emit\<close> sends a domain event; \<open>handleMessage\<close> parses and validates, skips what was
  already processed, retries the handler with exponential backoff, and records what
  cannot be processed in the dead-letter queue.  The domain handler (\<open>processEvent\<close>) is
  the argument of \<open>handleMessage\<close>; the locale \<open>event_handler\<close> states what the base class
  relies on, and every consumer of the program interprets it.
\<close>

section \<open>Emitting events\<close>

record emit_params =
  e_topic :: topic
  e_eventType :: event_type
  e_aggregateId :: string
  e_aggregateType :: string
  e_payload :: obj
  e_correlationId :: string
  e_causationId :: string
  e_eventId :: "string option"

definition emit_envelope :: "string \<Rightarrow> nat \<Rightarrow> string \<Rightarrow> emit_params \<Rightarrow> envelope" where
  "emit_envelope name t u p = createEventEnvelope t u
     \<lparr>p_eventId = e_eventId p, p_eventType = e_eventType p, p_eventVersion = None,
      p_sequenceNumber = None, p_aggregateId = e_aggregateId p, p_aggregateType = e_aggregateType p,
      p_occurredAt = None, p_producer = name, p_correlationId = e_correlationId p,
      p_causationId = e_causationId p, p_schemaVersion = None, p_payload = e_payload p\<rparr>"

definition emit_message :: "string \<Rightarrow> emit_params \<Rightarrow> envelope \<Rightarrow> message" where
  "emit_message name p e =
     \<lparr>m_topic = e_topic p, m_key = e_aggregateId p, m_value = wire_of (js_of_envelope e),
      m_headers =
        [(''correlation-id'', e_correlationId p), (''causation-id'', e_causationId p),
         (''event-id'', event_id e), (''event-type'', event_name (e_eventType p)),
         (''source-service'', name), (''timestamp'', occurred_at e)]\<rparr>"

text \<open>The uuid is drawn only when the caller gives no event id.\<close>

definition emit :: "string \<Rightarrow> emit_params \<Rightarrow> envelope op" where
  "emit name p =
     bindE (case e_eventId p of Some (c # s) \<Rightarrow> returnE [] | _ \<Rightarrow> uuid) (\<lambda>u.
     bindE clock (\<lambda>t.
       let e = emit_envelope name t u p
       in thenE (producer_send [emit_message name p e]) (returnE e)))"

section \<open>The consumer's own state\<close>

definition update_consumer :: "string \<Rightarrow> (consumer_state \<Rightarrow> consumer_state) \<Rightarrow> unit op" where
  "update_consumer name f = modifyE (\<lambda>w. w\<lparr>consumers := (consumers w)(name := f (consumers w name))\<rparr>)"

definition initial_consumer :: consumer_state where
  "initial_consumer =
     \<lparr>status = Down, lastEventTimestamp = None, lastProcessedTimestamp = None,
      processedCount = 0, failureCount = 0\<rparr>"

text \<open>A call of the Kafka client without a message: connect, subscribe, run, disconnect.\<close>

definition kafka_call :: "unit op" where
  "kafka_call w =
     (let w1 = kafka_tick w
      in case fst (next_call (kafka_script w)) of
           Done \<Rightarrow> (Inr (), w1)
         | Refused m \<Rightarrow> (Inl (KafkaError m), w1)
         | AckLost m \<Rightarrow> (Inl (KafkaError m), w1))"

definition start :: "string \<Rightarrow> topic list \<Rightarrow> unit op" where
  "start name ts =
     tryE (thenE kafka_call (thenE kafka_call (thenE (forE ts (\<lambda>t. kafka_call)) (thenE kafka_call
            (update_consumer name (\<lambda>c. c\<lparr>status := Healthy\<rparr>))))))
       (\<lambda>e. thenE (update_consumer name (\<lambda>c. c\<lparr>status := Down\<rparr>)) (throwE e))"

definition stop :: "string \<Rightarrow> unit op" where
  "stop name =
     thenE (update_consumer name (\<lambda>c. c\<lparr>status := Down\<rparr>))
           (tryE (thenE kafka_call kafka_call) (\<lambda>_. returnE ()))"

section \<open>Parsing\<close>

record each_message =
  em_topic :: topic
  em_partition :: nat
  em_offset :: string
  em_value :: wire

text \<open>The fields that a legacy message lacks, filled in as the source does, one after another.\<close>

definition copy_field :: "string \<Rightarrow> string \<Rightarrow> obj \<Rightarrow> obj" where
  "copy_field k from ob =
     (if \<not> truthy (obj_get ob k) \<and> truthy (obj_get ob from) then obj_put k (obj_get ob from) ob else ob)"

definition default_field :: "string \<Rightarrow> js \<Rightarrow> obj \<Rightarrow> obj" where
  "default_field k v ob = (if truthy (obj_get ob k) then ob else obj_put k v ob)"

definition envelope_fields :: "string list" where
  "envelope_fields =
     [''event_id'', ''event_type'', ''aggregate_id'', ''aggregate_type'', ''correlation_id'',
      ''causation_id'', ''occurred_at'', ''producer'']"

definition rest_fields :: "obj \<Rightarrow> obj" where
  "rest_fields ob = filter (\<lambda>(k, v). k \<notin> set envelope_fields) ob"

definition legacy_ids :: "obj \<Rightarrow> obj" where
  "legacy_ids ob =
     copy_field ''correlation_id'' ''aggregate_id''
       (default_field ''aggregate_type'' (JStr ''Order'')
         (copy_field ''aggregate_id'' ''order_id''
           (copy_field ''event_type'' ''type''
             (copy_field ''event_id'' ''id'' ob))))"

definition legacy_rest :: "string \<Rightarrow> obj \<Rightarrow> obj" where
  "legacy_rest now_text ob =
     (let ob1 = default_field ''producer'' (JStr ''legacy-producer'')
                  (default_field ''occurred_at'' (JStr now_text) ob)
      in default_field ''payload'' (JObj (rest_fields ob1)) ob1)"

definition normalize :: "obj \<Rightarrow> obj op" where
  "normalize ob =
     (let ob1 = legacy_ids ob in
      bindE (if truthy (obj_get ob1 ''causation_id'') then returnE ob1
             else if truthy (obj_get ob1 ''event_id'')
                  then returnE (obj_put ''causation_id'' (obj_get ob1 ''event_id'') ob1)
                  else bindE uuid8 (\<lambda>u. returnE (obj_put ''causation_id'' (JStr (''cmd_'' @ u)) ob1))) (\<lambda>ob2.
      bindE iso_now (\<lambda>ts. returnE (legacy_rest ts ob2))))"

definition type_name :: "js \<Rightarrow> string" where
  "type_name v = (case v of JBool _ \<Rightarrow> ''boolean'' | JNum _ \<Rightarrow> ''number'' | _ \<Rightarrow> ''string'')"

text \<open>
  \<open>JSON.parse\<close>, the legacy fields, \<open>validateEventEnvelope\<close>.  \<open>null\<close> has no properties to
  read; a primitive cannot be given one (strict mode); an array is no object to zod.
\<close>

definition parse_message :: "wire \<Rightarrow> envelope op" where
  "parse_message v =
     (case wire_parse v of
        None \<Rightarrow> throwE (SyntaxError ''Unexpected token in JSON'')
      | Some JNull \<Rightarrow> throwE (TypeError ''Cannot read properties of null (reading 'event_id')'')
      | Some (JObj ob) \<Rightarrow>
          bindE (normalize ob) (\<lambda>ob'. bindE (getsE zod_format) (\<lambda>fmt.
            liftE (validateEventEnvelope fmt (JObj ob') None)))
      | Some (JArr vs) \<Rightarrow> bindE uuid8 (\<lambda>_. throwE (ZodError ''invalid envelope''))
      | Some p \<Rightarrow> throwE (TypeError
          (''Cannot create property 'aggregate_type' on '' @ type_name p @ '' '' @ [CHR 0x27] @ js_string p @ [CHR 0x27])))"

section \<open>The dead-letter queue\<close>

definition js_nat :: "nat \<Rightarrow> js" where
  "js_nat n = js_int (int n)"

definition js_option :: "string option \<Rightarrow> js" where
  "js_option x = (case x of None \<Rightarrow> JUndef | Some s \<Rightarrow> JStr s)"

definition malformed_payload :: "string \<Rightarrow> string \<Rightarrow> each_message \<Rightarrow> exn \<Rightarrow> string option \<Rightarrow> string \<Rightarrow> obj" where
  "malformed_payload name dlqId m err st ts =
     [(''dlq_id'', JStr dlqId),
      (''original_topic'', JStr (topic_name (topics (em_topic m)))),
      (''original_partition'', js_nat (em_partition m)),
      (''original_offset'', JStr (em_offset m)),
      (''consumer_name'', JStr name),
      (''error_message'', JStr (err_message err)),
      (''stack_trace'', js_option st),
      (''raw_message'', JStr (wire_text (em_value m))),
      (''failed_at'', JStr ts),
      (''reason'', JStr ''MALFORMED_OR_NON_RETRYABLE'')]"

text \<open>
  The transaction, the message to \<open>platform.dlq\<close>, the mark of the outbox row; any error is
  logged and swallowed.
\<close>

definition handleNonRetryableDLQ :: "string \<Rightarrow> each_message \<Rightarrow> exn \<Rightarrow> unit op" where
  "handleNonRetryableDLQ name m err =
     bindE uuid8 (\<lambda>u.
     bindE (getsE (\<lambda>w. error_stack w err)) (\<lambda>st.
     bindE iso_now (\<lambda>ts.
       let dlqId = ''dlq_'' @ u;
           dlqOutboxId = ''outbox_'' @ dlqId;
           dlqPayload = malformed_payload name dlqId m err st ts
       in tryE
         (thenE (withTransaction (thenE
            (recordDLQMessage Client
               \<lparr>dq_id = dlqId, dq_eventId = ''malformed_event'', dq_topic = em_topic m,
                dq_partition = em_partition m, dq_offset = em_offset m, dq_consumerName = name,
                dq_errorMessage = err_message err, dq_stackTrace = st, dq_payload = dlqPayload,
                dq_correlationId = None\<rparr>)
            (insertDLQOutboxEvent Client
               \<lparr>dx_id = dlqOutboxId, dx_dlqId = dlqId, dx_topic = DlqTopic, dx_payload = dlqPayload\<rparr>)))
         (thenE (producer_send
            [\<lparr>m_topic = DlqTopic, m_key = dlqId, m_value = wire_of (JObj dlqPayload), m_headers = []\<rparr>])
         (thenE (markDLQOutboxPublished Pool dlqOutboxId (Some name)) (returnE ()))))
         (\<lambda>_. returnE ()))))"

definition exhausted_payload ::
  "string \<Rightarrow> string \<Rightarrow> envelope \<Rightarrow> each_message \<Rightarrow> exn \<Rightarrow> string option \<Rightarrow> nat \<Rightarrow> string \<Rightarrow> obj" where
  "exhausted_payload name dlqId e m err st attempts ts =
     [(''dlq_id'', JStr dlqId),
      (''original_event'', js_of_envelope e),
      (''original_topic'', JStr (topic_name (topics (em_topic m)))),
      (''original_partition'', js_nat (em_partition m)),
      (''original_offset'', JStr (em_offset m)),
      (''consumer_name'', JStr name),
      (''error_message'', JStr (err_message err)),
      (''stack_trace'', js_option st),
      (''attempts'', js_nat attempts),
      (''failed_at'', JStr ts),
      (''correlation_id'', JStr (correlation_id e))]"

definition exhausted_transaction ::
  "string \<Rightarrow> string \<Rightarrow> envelope \<Rightarrow> each_message \<Rightarrow> exn \<Rightarrow> string option \<Rightarrow> obj \<Rightarrow> unit op" where
  "exhausted_transaction name dlqId e m err st dlqPayload =
     withTransaction (thenE
       (recordDLQMessage Client
          \<lparr>dq_id = dlqId, dq_eventId = event_id e, dq_topic = em_topic m,
           dq_partition = em_partition m, dq_offset = em_offset m, dq_consumerName = name,
           dq_errorMessage = err_message err, dq_stackTrace = st, dq_payload = dlqPayload,
           dq_correlationId = Some (correlation_id e)\<rparr>)
       (thenE (markEventProcessed Client (event_id e) name ''FAILED'' (Some (err_message err)))
       (insertDLQOutboxEvent Client
          \<lparr>dx_id = ''outbox_'' @ dlqId, dx_dlqId = dlqId, dx_topic = DlqTopic, dx_payload = dlqPayload\<rparr>)))"

definition handleExhaustedRetriesDLQ :: "string \<Rightarrow> envelope \<Rightarrow> each_message \<Rightarrow> exn \<Rightarrow> nat \<Rightarrow> unit op" where
  "handleExhaustedRetriesDLQ name e m err attempts =
     bindE uuid8 (\<lambda>u.
     bindE (getsE (\<lambda>w. error_stack w err)) (\<lambda>st.
     bindE iso_now (\<lambda>ts.
       let dlqId = ''dlq_'' @ u;
           dlqPayload = exhausted_payload name dlqId e m err st attempts ts
       in tryE
         (thenE (exhausted_transaction name dlqId e m err st dlqPayload)
         (thenE (producer_send
            [\<lparr>m_topic = DlqTopic, m_key = or_string (Some (aggregate_id e)) dlqId,
              m_value = wire_of (JObj dlqPayload),
              m_headers =
                [(''dlq-id'', dlqId), (''original-topic'', topic_name (topics (em_topic m))),
                 (''correlation-id'', correlation_id e), (''source-service'', name)]\<rparr>])
         (thenE (markDLQOutboxPublished Pool (''outbox_'' @ dlqId) (Some name)) (returnE ()))))
         (\<lambda>_. returnE ()))))"

section \<open>handleMessage\<close>

definition maxRetries :: nat where "maxRetries = 3"
definition baseBackoffMs :: nat where "baseBackoffMs = 500"
definition jitterMs :: nat where "jitterMs = 200"

definition backoff :: "nat \<Rightarrow> nat" where
  "backoff attempt = min 10000 (baseBackoffMs * 2 ^ (attempt - 1))"

text \<open>The delay before the next attempt, when one is left.\<close>

definition wait_to_retry :: "nat \<Rightarrow> nat \<Rightarrow> unit op" where
  "wait_to_retry left attempt =
     whenE (0 < left) (bindE (random_below jitterMs) (\<lambda>j. sleep (backoff attempt + j)))"

text \<open>One attempt: the handler, the mark, the counters.\<close>

definition try_process :: "string \<Rightarrow> (envelope \<Rightarrow> unit op) \<Rightarrow> envelope \<Rightarrow> unit op" where
  "try_process name processEvent e =
     thenE (processEvent e)
     (thenE (markEventProcessed Pool (event_id e) name ''PROCESSED'' None)
     (bindE iso_now (\<lambda>ts. update_consumer name (\<lambda>c.
        c\<lparr>processedCount := processedCount c + 1, status := Healthy, lastProcessedTimestamp := Some ts\<rparr>))))"

text \<open>
  The \<open>while (attempt < maxRetries)\<close> loop with \<open>left\<close> attempts to go; the result is the
  last error and the number of attempts, or nothing when an attempt succeeded.
\<close>

fun retry_loop ::
  "string \<Rightarrow> (envelope \<Rightarrow> unit op) \<Rightarrow> envelope \<Rightarrow> nat \<Rightarrow> nat \<Rightarrow> exn option \<Rightarrow> (exn \<times> nat) option op" where
  "retry_loop name processEvent e 0 attempt lastError =
     returnE (Some (case lastError of Some err \<Rightarrow> err | None \<Rightarrow> AppError ''Unknown processing error'', attempt))"
| "retry_loop name processEvent e (Suc left) attempt lastError =
     tryE (thenE (try_process name processEvent e) (returnE None))
       (\<lambda>err. thenE (wait_to_retry left (attempt + 1))
          (retry_loop name processEvent e left (attempt + 1) (Some err)))"

definition process_valid :: "string \<Rightarrow> (envelope \<Rightarrow> unit op) \<Rightarrow> each_message \<Rightarrow> envelope \<Rightarrow> unit op" where
  "process_valid name processEvent m e =
     bindE (isEventProcessed (event_id e) name) (\<lambda>alreadyProcessed.
       if alreadyProcessed then returnE ()
       else bindE (retry_loop name processEvent e maxRetries 0 None) (\<lambda>r.
         case r of
           None \<Rightarrow> returnE ()
         | Some (err, attempts) \<Rightarrow>
             thenE (update_consumer name (\<lambda>c. c\<lparr>failureCount := failureCount c + 1, status := Degraded\<rparr>))
                   (handleExhaustedRetriesDLQ name e m err attempts)))"

text \<open>The result of the parsing \<open>try\<close>: the envelope, or the error that was caught.\<close>

definition parse_result :: "wire \<Rightarrow> (exn + envelope) op" where
  "parse_result v = tryE (bindE (parse_message v) (\<lambda>e. returnE (Inr e))) (\<lambda>err. returnE (Inl err))"

definition handleMessage :: "string \<Rightarrow> (envelope \<Rightarrow> unit op) \<Rightarrow> each_message \<Rightarrow> unit op" where
  "handleMessage name processEvent m =
     bindE iso_now (\<lambda>ts.
     thenE (update_consumer name (\<lambda>c. c\<lparr>lastEventTimestamp := Some ts\<rparr>))
     (bindE (parse_result (em_value m)) (\<lambda>r.
        case r of
          Inl err \<Rightarrow> handleNonRetryableDLQ name m err
        | Inr e \<Rightarrow> process_valid name processEvent m e)))"

end
