(* ===== verification/Event_Handler.thy ===== *)
theory Event_Handler
  imports Base_Consumer
begin

text \<open>
  What \<open>handleMessage\<close> of \<open>base-consumer.ts\<close> guarantees around any domain handler, for
  every fault script.  The locale \<open>event_handler\<close> is the contract between the base class
  and a consumer: the handler writes neither the idempotency table nor the dead-letter
  tables.  Every consumer of the program interprets it.
\<close>

section \<open>The envelope of an emitted event is read back\<close>

lemma default_field_present [simp]: "truthy (obj_get ob k) \<Longrightarrow> default_field k v ob = ob"
  by (simp add: default_field_def)

lemma copy_field_present [simp]: "truthy (obj_get ob k) \<Longrightarrow> copy_field k from ob = ob"
  by (simp add: copy_field_def)

text \<open>Nothing is filled in when no field is missing.\<close>

lemma normalize_complete:
  assumes "\<And>k. k \<in> {''event_id'', ''event_type'', ''aggregate_id'', ''aggregate_type'',
      ''correlation_id'', ''causation_id'', ''occurred_at'', ''producer'', ''payload''} \<Longrightarrow> truthy (obj_get ob k)"
  shows "normalize ob w = (Inr ob, w)"
proof -
  have "legacy_ids ob = ob" by (simp add: legacy_ids_def assms)
  moreover have "legacy_rest ts ob = ob" for ts by (simp add: legacy_rest_def Let_def assms)
  ultimately show ?thesis by (simp add: normalize_def Let_def assms run_defs)
qed

lemma parse_message_valid:
  assumes "valid_envelope e"
  shows "parse_message (wire_of (js_of_envelope e)) w = (Inr (e\<lparr>payload := obj_json (payload e)\<rparr>), w)"
proof -
  obtain ob where ob: "to_json (js_of_envelope e) = JObj ob" "obj_json (obj_of (js_of_envelope e)) = ob"
    by (simp add: js_of_envelope_def)
  have "distinct (map fst (obj_of (js_of_envelope e)))"
    by (simp add: js_of_envelope_def)
  then have get: "obj_get ob k = to_json (obj_get (obj_of (js_of_envelope e)) k)" for k
    using obj_get_json ob(2) by metis
  have "truthy (obj_get ob k)"
    if "k \<in> {''event_id'', ''event_type'', ''aggregate_id'', ''aggregate_type'',
      ''correlation_id'', ''causation_id'', ''occurred_at'', ''producer'', ''payload''}" for k
    using that assms unfolding get
    by (elim insertE emptyE) (auto simp: js_of_envelope_def valid_envelope_def iso_prefix_def)
  then have "normalize ob v = (Inr ob, v)" for v by (rule normalize_complete)
  then show ?thesis
    using validate_js_of_envelope [OF assms]
    by (simp add: parse_message_def wire_of_def ob(1) run_defs)
qed

lemma parse_result_valid:
  "valid_envelope e \<Longrightarrow>
   parse_result (wire_of (js_of_envelope e)) w = (Inr (Inr (e\<lparr>payload := obj_json (payload e)\<rparr>)), w)"
  by (simp add: parse_result_def run_defs parse_message_valid)

section \<open>What the steps leave alone\<close>

lemma quiet_base [inv_rules]:
  "bus_quiet (normalize ob)" "bus_quiet (parse_message v)" "bus_quiet (parse_result v)"
  "bus_quiet (update_consumer name f)" "bus_quiet uuid8"
proof -
  show u8: "bus_quiet uuid8" unfolding uuid8_def by (intro quiet_bindE quiet_basic)
  show n: "bus_quiet (normalize ob)" for ob
    unfolding normalize_def Let_def by (auto intro!: quiet_bindE quiet_basic u8)
  show p: "bus_quiet (parse_message v)"
    unfolding parse_message_def
    by (auto intro!: quiet_bindE quiet_basic u8 n split: option.split js.split)
  show "bus_quiet (parse_result v)"
    unfolding parse_result_def by (intro quiet_tryE quiet_bindE quiet_basic p)
  show "bus_quiet (update_consumer name f)"
    unfolding update_consumer_def by (rule quiet_modifyE) simp
qed

lemma keep_base [frame_rules]:
  "db_follows (\<lambda>d d'. g d' = g d) (normalize ob)"
  "db_follows (\<lambda>d d'. g d' = g d) (parse_message v)"
  "db_follows (\<lambda>d d'. g d' = g d) (parse_result v)"
  "db_follows (\<lambda>d d'. g d' = g d) (update_consumer name f)"
  "db_follows (\<lambda>d d'. g d' = g d) (emit name p)"
proof -
  show n: "db_follows (\<lambda>d d'. g d' = g d) (normalize ob)" for ob
    unfolding normalize_def Let_def by (auto intro!: keep.follows_rules)
  show p: "db_follows (\<lambda>d d'. g d' = g d) (parse_message v)"
    unfolding parse_message_def
    by (auto intro!: keep.follows_rules n split: option.split js.split)
  show "db_follows (\<lambda>d d'. g d' = g d) (parse_result v)"
    unfolding parse_result_def by (intro keep.follows_rules p)
  show "db_follows (\<lambda>d d'. g d' = g d) (update_consumer name f)"
    unfolding update_consumer_def by (rule keep.follows_modifyE) simp
  show "db_follows (\<lambda>d d'. g d' = g d) (emit name p)"
    unfolding emit_def Let_def
    by (auto intro!: keep.follows_rules split: option.split list.split)
qed

lemma update_consumer_simps [simp]:
  "update_consumer name f w = (Inr (), w\<lparr>consumers := (consumers w)(name := f (consumers w name))\<rparr>)"
  by (simp add: update_consumer_def modifyE_def)

section \<open>The messages of emit\<close>

text \<open>A message that follows up on an event: it carries its correlation and names its cause.\<close>

definition follow_up :: "string \<Rightarrow> string \<Rightarrow> string \<Rightarrow> message \<Rightarrow> bool" where
  "follow_up name corr cause m \<longleftrightarrow>
     map_of (m_headers m) ''correlation-id'' = Some corr \<and>
     map_of (m_headers m) ''causation-id'' = Some cause \<and>
     map_of (m_headers m) ''source-service'' = Some name"

lemma follow_up_emit_message [simp]:
  "follow_up name corr cause (emit_message name p e) \<longleftrightarrow>
     e_correlationId p = corr \<and> e_causationId p = cause"
  by (auto simp: follow_up_def emit_message_def)

lemma sends_emit:
  assumes "\<And>u t. P (emit_message name p (emit_envelope name t u p))"
  shows "sends P (emit name p)"
  unfolding emit_def Let_def
  by (intro sends_bindE sends_thenE sends_producer_send)
    (auto simp: assms intro!: quiet_sends quiet_basic split: option.split list.split)

text \<open>The run of \<open>emit\<close> when the broker answers.\<close>

lemma emit_done:
  "kafka_script w = [] \<Longrightarrow> e_eventId p = None \<Longrightarrow>
   emit name p w =
     (let e = emit_envelope name (now w) (uuid_src w (uuid_next w)) p
      in (Inr e, w\<lparr>uuid_next := Suc (uuid_next w), bus := bus w @ [emit_message name p e]\<rparr>))"
  by (simp add: emit_def Let_def run_defs)

section \<open>The contract and what follows from it\<close>

text \<open>The tables that belong to the base class.\<close>

definition base_tables :: "database \<Rightarrow> processed_row list \<times> dlq_row list \<times> dlq_outbox_row list" where
  "base_tables d = (processed_events d, dlq_messages d, dlq_outbox d)"

text \<open>What the dead-letter transaction leaves behind for an event.\<close>

definition dead_lettered :: "string \<Rightarrow> string \<Rightarrow> database \<Rightarrow> bool" where
  "dead_lettered name i d \<longleftrightarrow>
     (\<exists>k. (\<exists>q. lookup_row dl_id k (dlq_messages d) = Some q \<and> dl_event_id q = i \<and> dl_consumer_name q = name) \<and>
          (\<exists>p. lookup_row pe_key (i, name) (processed_events d) = Some p \<and> pe_status p = ''FAILED'') \<and>
          (\<exists>x. lookup_row ob_id (''outbox_'' @ k) (dlq_outbox d) = Some x))"

definition fresh_dlq_ids :: "world \<Rightarrow> bool" where
  "fresh_dlq_ids w \<longleftrightarrow> (\<forall>n. lookup_row dl_id (''dlq_'' @ take 8 (uuid_src w n)) (dlq_messages (db w)) = None)"

lemma lookup_put_dlq:
  assumes "lookup_row dl_id (dq_id q) (dlq_messages d) = None"
  shows "lookup_row dl_id (dq_id q) (dlq_messages (put_dlq q t d)) = Some (new_dlq_row t q)"
proof -
  have "dl_id (new_dlq_row t q) = dq_id q" by (simp add: new_dlq_row_def)
  then show ?thesis
    using dlq.lookup_upsert_same [of "new_dlq_row t q" t "dlq_messages d"] assms
    by (simp add: put_dlq_def)
qed

lemma other_tables_put [simp]:
  "dlq_messages (put_processed i c st err t d) = dlq_messages d"
  "dlq_outbox (put_processed i c st err t d) = dlq_outbox d"
  "processed_events (put_dlq q t d) = processed_events d"
  "dlq_outbox (put_dlq q t d) = dlq_outbox d"
  by (simp_all add: put_processed_def put_dlq_def)

lemma query_writes_InrD: "query r (writes f) w = (Inr x, w') \<Longrightarrow> \<exists>t. db w' = f t (db w)"
  by (drule query_InrD) (auto simp: writes_def intro: sym)

lemma bindE_InrD: "bindE m k w = (Inr x, w') \<Longrightarrow> \<exists>y w1. m w = (Inr y, w1) \<and> k y w1 = (Inr x, w')"
  by (auto simp: bindE_def split: prod.splits sum.splits)

lemma thenE_InrD: "thenE m n w = (Inr x, w') \<Longrightarrow> \<exists>y w1. m w = (Inr y, w1) \<and> n w1 = (Inr x, w')"
  by (auto simp: thenE_def dest: bindE_InrD)

definition exhausted_record :: "string \<Rightarrow> string \<Rightarrow> envelope \<Rightarrow> each_message \<Rightarrow> exn \<Rightarrow> string option \<Rightarrow> obj \<Rightarrow> dlq_record" where
  "exhausted_record name k e m err st pl =
     \<lparr>dq_id = k, dq_eventId = event_id e, dq_topic = em_topic m, dq_partition = em_partition m,
      dq_offset = em_offset m, dq_consumerName = name, dq_errorMessage = err_message err,
      dq_stackTrace = st, dq_payload = pl, dq_correlationId = Some (correlation_id e)\<rparr>"

definition exhausted_body :: "string \<Rightarrow> string \<Rightarrow> envelope \<Rightarrow> each_message \<Rightarrow> exn \<Rightarrow> string option \<Rightarrow> obj \<Rightarrow> unit op" where
  "exhausted_body name k e m err st pl =
     thenE (recordDLQMessage Client (exhausted_record name k e m err st pl))
     (thenE (markEventProcessed Client (event_id e) name ''FAILED'' (Some (err_message err)))
     (insertDLQOutboxEvent Client
        \<lparr>dx_id = ''outbox_'' @ k, dx_dlqId = k, dx_topic = DlqTopic, dx_payload = pl\<rparr>))"

lemma exhausted_transaction_body:
  "exhausted_transaction name k e m err st pl = withTransaction (exhausted_body name k e m err st pl)"
  by (simp add: exhausted_transaction_def exhausted_body_def exhausted_record_def)

lemma exhausted_body_records:
  assumes run: "exhausted_body name k e m err st pl w = (Inr x, w')"
    and fresh: "lookup_row dl_id k (dlq_messages (db w)) = None"
  shows "dead_lettered name (event_id e) (db w')"
proof -
  let ?q = "exhausted_record name k e m err st pl"
  let ?x = "\<lparr>dx_id = ''outbox_'' @ k, dx_dlqId = k, dx_topic = DlqTopic, dx_payload = pl\<rparr>"
  obtain a b wa wb where run: "recordDLQMessage Client ?q w = (Inr a, wa)"
    "markEventProcessed Client (event_id e) name ''FAILED'' (Some (err_message err)) wa = (Inr b, wb)"
    "insertDLQOutboxEvent Client ?x wb = (Inr x, w')"
    using run by (auto simp: exhausted_body_def dest!: thenE_InrD)
  obtain ta where da: "db wa = put_dlq ?q ta (db w)"
    using run(1) unfolding recordDLQMessage_def by (auto dest!: query_writes_InrD)
  obtain tb where d_b: "db wb = put_processed (event_id e) name ''FAILED'' (Some (err_message err)) tb (db wa)"
    using run(2) unfolding markEventProcessed_def by (auto dest!: query_writes_InrD)
  obtain tc where dc: "db w' = (db wb)\<lparr>dlq_outbox :=
      insert_ignore ob_id (new_dlq_outbox_row tc ?x) (dlq_outbox (db wb))\<rparr>"
    using run(3) unfolding insertDLQOutboxEvent_def by (auto dest!: query_writes_InrD)
  have k: "dq_id ?q = k" by (simp add: exhausted_record_def)
  have "lookup_row dl_id k (dlq_messages (db w')) = Some (new_dlq_row ta ?q)"
    using lookup_put_dlq [of ?q "db w" ta] fresh by (simp add: dc d_b da k)
  moreover have "dl_event_id (new_dlq_row ta ?q) = event_id e" "dl_consumer_name (new_dlq_row ta ?q) = name"
    by (simp_all add: new_dlq_row_def exhausted_record_def)
  moreover have "\<exists>p. lookup_row pe_key (event_id e, name) (processed_events (db w')) = Some p \<and> pe_status p = ''FAILED''"
    using lookup_put_processed [of "event_id e" name "''FAILED''" "Some (err_message err)" tb "db wa"]
    by (auto simp: dc d_b)
  moreover have "lookup_row ob_id (''outbox_'' @ k) (dlq_outbox (db w')) \<noteq> None"
    using lookup_insert_ignore_ne_None [of ob_id "new_dlq_outbox_row tc ?x"]
    by (simp add: dc new_dlq_outbox_row_def)
  ultimately show ?thesis unfolding dead_lettered_def by (metis not_None_eq)
qed

text \<open>The dead-letter transaction: all three records or none.\<close>

lemma exhausted_all_or_nothing:
  assumes "lookup_row dl_id k (dlq_messages (db w)) = None"
  shows "db (snd (exhausted_transaction name k e m err st pl w)) = db w \<or>
         dead_lettered name (event_id e) (db (snd (exhausted_transaction name k e m err st pl w)))"
  using withTransaction_atomic [of "exhausted_body name k e m err st pl" w]
    exhausted_body_records assms
  unfolding exhausted_transaction_body by metis

lemma exhausted_recorded:
  assumes "db_script w = []" "lookup_row dl_id k (dlq_messages (db w)) = None"
  shows "\<exists>w'. exhausted_transaction name k e m err st pl w = (Inr (), w') \<and> dead_lettered name (event_id e) (db w')"
proof -
  obtain w3 where w3: "exhausted_body name k e m err st pl (begin_tx w) = (Inr (), w3)"
    "db_script w3 = []" "\<not> tx_aborted w3"
    using assms(1)
    by (simp add: exhausted_body_def recordDLQMessage_def markEventProcessed_def
        insertDLQOutboxEvent_def thenE_def bindE_def writes_def)
  then have "dead_lettered name (event_id e) (db w3)"
    using exhausted_body_records [OF w3(1)] assms(2) by simp
  moreover have "exhausted_transaction name k e m err st pl w = (Inr (), w3\<lparr>tx_aborted := False\<rparr>)"
    using assms(1) w3 by (simp add: exhausted_transaction_body withTransaction_def)
  ultimately show ?thesis by simp
qed

lemma mark_keeps_dead_letter:
  "db_follows (\<lambda>d d'. dead_lettered n i d \<longrightarrow> dead_lettered n i d') (markDLQOutboxPublished r k w)"
proof -
  have "\<exists>x. lookup_row ob_id j (mark_published t k w tbl) = Some x"
    if "lookup_row ob_id j tbl = Some y" for j t y and tbl :: "dlq_outbox_row list"
    using that by (simp add: mark_published_def lookup_row_update_rows)
  then show ?thesis
    unfolding markDLQOutboxPublished_def publish_stmt_def
    by (intro always.follows_query stmt_follows_updates) (auto simp: dead_lettered_def; fast)
qed

text \<open>All of \<open>handleExhaustedRetriesDLQ\<close>: recorded, or the transaction failed.\<close>

lemma exhausted_outcome:
  assumes fresh: "fresh_dlq_ids w"
    and w'_def: "w' = snd (handleExhaustedRetriesDLQ name e m err n w)"
  shows "(dead_lettered name (event_id e) (db w') \<or>
          (processed_events (db w'), dlq_messages (db w')) = (processed_events (db w), dlq_messages (db w))) \<and>
         (db_script w = [] \<longrightarrow> dead_lettered name (event_id e) (db w'))"
proof -
  let ?g = "\<lambda>d. (processed_events d, dlq_messages d)"
  define k where "k = ''dlq_'' @ take 8 (uuid_src w (uuid_next w))"
  define w0 where "w0 = w\<lparr>uuid_next := Suc (uuid_next w)\<rparr>"
  define pl where "pl = exhausted_payload name k e m err (error_stack w err) n (toISOString (now w))"
  define T where "T = exhausted_transaction name k e m err (error_stack w err) pl"
  obtain rest :: "unit op" where
    run: "handleExhaustedRetriesDLQ name e m err n w = tryE (thenE T rest) (\<lambda>_. returnE ()) w0"
    and rest: "db_follows (\<lambda>d d'. ?g d' = ?g d) rest"
      "db_follows (\<lambda>d d'. dead_lettered name (event_id e) d \<longrightarrow> dead_lettered name (event_id e) d') rest"
  proof
    let ?rest = "thenE (producer_send
            [\<lparr>m_topic = DlqTopic, m_key = or_string (Some (aggregate_id e)) k, m_value = wire_of (JObj pl),
              m_headers =
                [(''dlq-id'', k), (''original-topic'', topic_name (topics (em_topic m))),
                 (''correlation-id'', correlation_id e), (''source-service'', name)]\<rparr>])
         (thenE (markDLQOutboxPublished Pool (''outbox_'' @ k) (Some name)) (returnE ()))"
    show "handleExhaustedRetriesDLQ name e m err n w = tryE (thenE T ?rest) (\<lambda>_. returnE ()) w0"
      by (simp add: handleExhaustedRetriesDLQ_def bindE_def uuid8_def uuid_def getsE_def iso_now_def
          returnE_def T_def pl_def k_def w0_def Let_def)
    show "db_follows (\<lambda>d d'. ?g d' = ?g d) ?rest"
      by (intro keep.follows_rules keep_dlq_outbox_ops) simp_all
    show "db_follows (\<lambda>d d'. dead_lettered name (event_id e) d \<longrightarrow> dead_lettered name (event_id e) d') ?rest"
      by (intro always.follows_rules mark_keeps_dead_letter)
  qed
  have fresh': "lookup_row dl_id k (dlq_messages (db w0)) = None" and d0: "db w0 = db w" "db_script w0 = db_script w"
    using fresh by (simp_all add: fresh_dlq_ids_def k_def w0_def)
  obtain r w1 where t: "T w0 = (r, w1)" by fastforce
  have 1: "db w1 = db w \<or> dead_lettered name (event_id e) (db w1)"
    using exhausted_all_or_nothing [OF fresh'] t d0 unfolding T_def by (metis snd_conv)
  have 2: "dead_lettered name (event_id e) (db w1)" "r = Inr ()" if "db_script w = []"
    using exhausted_recorded [OF _ fresh', of name e m err "error_stack w err" pl] that d0 t
    unfolding T_def by auto
  have w': "w' = snd (tryE (thenE T rest) (\<lambda>_. returnE ()) w0)" by (simp add: w'_def run)
  have 3: "db w' = db w1 \<or> w' = snd (rest w1)"
    by (simp add: w' run_defs t split: sum.split prod.split)
  have "?g (db (snd (rest w1))) = ?g (db w1)" using rest(1) by (rule db_followsD)
  moreover have "dead_lettered name (event_id e) (db w1) \<longrightarrow> dead_lettered name (event_id e) (db (snd (rest w1)))"
    using rest(2) by (rule db_followsD)
  ultimately show ?thesis using 1 2 3 by (metis (no_types, lifting))
qed

lemma db_follows_mono: "db_follows R m \<Longrightarrow> (\<And>d d'. R d d' \<Longrightarrow> S d d') \<Longrightarrow> db_follows S m"
  by (simp add: db_follows_def)

lemma steady_base [inv_rules]:
  "run_follows (\<lambda>w w'. environment w' = environment w) (update_consumer name f)"
  "run_follows (\<lambda>w w'. db_script w = [] \<longrightarrow> db_script w' = []) (update_consumer name f)"
  by (simp_all add: run_follows_def environment_def)

lemma wait_returns: "\<exists>w2. wait_to_retry left a w = (Inr (), w2)"
  by (cases "0 < left") (simp_all add: wait_to_retry_def run_defs)

lemma quiet_wait [inv_rules]: "bus_quiet (wait_to_retry left a)"
  unfolding wait_to_retry_def by (intro quiet_rules)

lemma keep_wait [frame_rules]: "db_follows (\<lambda>d d'. g d' = g d) (wait_to_retry left a)"
  unfolding wait_to_retry_def by (intro keep.follows_rules)

lemma steady_wait [inv_rules]:
  "run_follows (\<lambda>w w'. environment w' = environment w) (wait_to_retry left a)"
  "run_follows (\<lambda>w w'. db_script w = [] \<longrightarrow> db_script w' = []) (wait_to_retry left a)"
  unfolding wait_to_retry_def by (intro steady.run_rules db_calm.run_rules)+

definition dlq_tables :: "database \<Rightarrow> dlq_row list \<times> dlq_outbox_row list" where
  "dlq_tables d = (dlq_messages d, dlq_outbox d)"

lemma steady_event_ops [inv_rules]:
  "run_follows (\<lambda>w w'. environment w' = environment w) (markEventProcessed r i c st err)"
  "run_follows (\<lambda>w w'. db_script w = [] \<longrightarrow> db_script w' = []) (markEventProcessed r i c st err)"
  "run_follows (\<lambda>w w'. environment w' = environment w) (isEventProcessed i c)"
  "run_follows (\<lambda>w w'. db_script w = [] \<longrightarrow> db_script w' = []) (isEventProcessed i c)"
  unfolding markEventProcessed_def isEventProcessed_def
  by (rule steady.run_query db_calm.run_query)+

text \<open>
  Every row of the dead-letter outbox is still pending: the base class inserts rows that no
  worker has leased, and \<open>markDLQOutboxPublished\<close> updates leased rows only.
\<close>

definition dlq_outbox_pending :: "database \<Rightarrow> bool" where
  "dlq_outbox_pending d \<longleftrightarrow> (\<forall>r \<in> set (dlq_outbox d). ob_status r = ObPending)"

lemma keep_pending:
  "db_follows (\<lambda>d d'. dlq_outbox d' = dlq_outbox d) m \<Longrightarrow>
   db_follows (\<lambda>d d'. dlq_outbox_pending d \<longrightarrow> dlq_outbox_pending d') m"
  by (erule db_follows_mono) (simp add: dlq_outbox_pending_def)

lemma pending_ops:
  "db_follows (\<lambda>d d'. dlq_outbox_pending d \<longrightarrow> dlq_outbox_pending d') (insertDLQOutboxEvent r x)"
  "db_follows (\<lambda>d d'. dlq_outbox_pending d \<longrightarrow> dlq_outbox_pending d') (markDLQOutboxPublished r k w')"
  "db_follows (\<lambda>d d'. dlq_outbox_pending d \<longrightarrow> dlq_outbox_pending d') (recordDLQMessage r q)"
  "db_follows (\<lambda>d d'. dlq_outbox_pending d \<longrightarrow> dlq_outbox_pending d') (markEventProcessed r i c st err)"
  "db_follows (\<lambda>d d'. dlq_outbox_pending d \<longrightarrow> dlq_outbox_pending d') (isEventProcessed i c)"
proof -
  show "db_follows (\<lambda>d d'. dlq_outbox_pending d \<longrightarrow> dlq_outbox_pending d') (insertDLQOutboxEvent r x)"
    unfolding insertDLQOutboxEvent_def
    by (intro always.follows_query stmt_follows_writes)
      (simp add: dlq_outbox_pending_def insert_ignore_def new_dlq_outbox_row_def)
  show "db_follows (\<lambda>d d'. dlq_outbox_pending d \<longrightarrow> dlq_outbox_pending d') (markDLQOutboxPublished r k w')"
    unfolding markDLQOutboxPublished_def publish_stmt_def
    by (intro always.follows_query stmt_follows_updates)
      (auto simp: dlq_outbox_pending_def fenced_published holds_lease_def)
qed (intro keep_pending keep_recordDLQMessage keep_event_ops; simp)+

lemma pending_base:
  "db_follows (\<lambda>d d'. dlq_outbox_pending d \<longrightarrow> dlq_outbox_pending d') (parse_result v)"
  "db_follows (\<lambda>d d'. dlq_outbox_pending d \<longrightarrow> dlq_outbox_pending d') (update_consumer name f)"
  by (intro keep_pending keep_base)+

lemma parsed_envelope:
  assumes "parse_message v w = (Inr e, w')"
  shows "aggregate_id e \<noteq> []" "correlation_id e \<noteq> []"
proof -
  obtain fmt raw where "validateEventEnvelope fmt raw None = Inr e"
    using assms by (auto simp: parse_message_def throwE_def liftE_def getsE_def dest!: bindE_InrD
        split: option.splits js.splits)
  then show "aggregate_id e \<noteq> []" "correlation_id e \<noteq> []" by (rule validated_envelope)+
qed
section \<open>Housekeeping of the base class\<close>

text \<open>
  Around the handler, the base class writes its own three tables only and sends to the
  dead-letter topic only.  A relation between worlds that ignores this, and that holds of
  the handler on every validated envelope, holds of \<open>handleMessage\<close>.
\<close>

definition domain_tables :: "database \<Rightarrow> database" where
  "domain_tables d = d\<lparr>processed_events := [], dlq_messages := [], dlq_outbox := []\<rparr>"

definition housekeeping :: "world \<Rightarrow> world \<Rightarrow> bool" where
  "housekeeping w w' \<longleftrightarrow> domain_tables (db w') = domain_tables (db w) \<and>
     (\<exists>ms. bus w' = bus w @ ms \<and> list_all (\<lambda>m. m_topic m = DlqTopic) ms)"

interpretation house: run_preorder housekeeping
proof
  show "housekeeping w w" for w by (simp add: housekeeping_def)
  show "housekeeping u x" if "housekeeping u v" "housekeeping v x" for u v x
    using that unfolding housekeeping_def by (metis append_assoc list_all_append)
qed

lemma housekeepingI:
  "db_follows (\<lambda>d d'. domain_tables d' = domain_tables d) m \<Longrightarrow> sends (\<lambda>m. m_topic m = DlqTopic) m \<Longrightarrow>
   run_follows housekeeping m"
  by (simp add: run_follows_def housekeeping_def db_follows_def sends_def)

lemma housekeeping_steps:
  "run_follows housekeeping (update_consumer name f)" "run_follows housekeeping (parse_result v)"
  "run_follows housekeeping (isEventProcessed i name)"
  "run_follows housekeeping (markEventProcessed r i name st err)"
  "run_follows housekeeping (wait_to_retry l a)"
  by (intro housekeepingI keep_base keep_event_ops keep_wait quiet_sends quiet_base quiet_event_ops
      quiet_wait; simp add: domain_tables_def)+

lemma housekeeping_dlq:
  "run_follows housekeeping (handleExhaustedRetriesDLQ name e m err n)"
  "run_follows housekeeping (handleNonRetryableDLQ name m err)"
proof -
  show "run_follows housekeeping (handleExhaustedRetriesDLQ name e m err n)"
    unfolding handleExhaustedRetriesDLQ_def exhausted_transaction_def Let_def
    by (rule housekeepingI)
      ((intro keep.follows_rules keep_recordDLQMessage keep_event_ops keep_dlq_outbox_ops;
        simp add: domain_tables_def),
       (intro sends_rules quiet_sends [OF quiet_withTransaction] quiet_rules quiet_event_ops quiet_outbox_ops
          quiet_sends [OF quiet_outbox_ops(7)] quiet_sends [OF quiet_basic(1)] quiet_sends [OF quiet_basic(4)]
          quiet_sends [OF quiet_basic(8)] quiet_sends [OF quiet_base(5)]; simp))
  show "run_follows housekeeping (handleNonRetryableDLQ name m err)"
    unfolding handleNonRetryableDLQ_def Let_def
    by (rule housekeepingI)
      ((intro keep.follows_rules keep_recordDLQMessage keep_event_ops keep_dlq_outbox_ops;
        simp add: domain_tables_def),
       (intro sends_rules quiet_sends [OF quiet_withTransaction] quiet_rules quiet_event_ops quiet_outbox_ops
          quiet_sends [OF quiet_outbox_ops(7)] quiet_sends [OF quiet_basic(1)] quiet_sends [OF quiet_basic(4)]
          quiet_sends [OF quiet_basic(8)] quiet_sends [OF quiet_base(5)]; simp))
qed

lemma run_follows_mono: "run_follows S m \<Longrightarrow> (\<And>w w'. S w w' \<Longrightarrow> S' w w') \<Longrightarrow> run_follows S' m"
  by (simp add: run_follows_def)

context run_preorder
begin

lemma run_process_valid:
  assumes house: "\<And>w w'. housekeeping w w' \<Longrightarrow> S w w'" and handler: "run_follows S (processEvent e)"
  shows "run_follows S (process_valid name processEvent m e)"
proof -
  note steps = housekeeping_steps [THEN run_follows_mono, OF house]
  note dlq = housekeeping_dlq [THEN run_follows_mono, OF house]
  have loop: "run_follows S (retry_loop name processEvent e left a le)" for left a le
    by (induction left arbitrary: a le) (auto simp: try_process_def intro!: run_compose steps handler)
  show ?thesis
    unfolding process_valid_def by (auto intro!: run_compose steps dlq loop split: prod.split)
qed

lemma run_handleMessage_read:
  assumes house: "\<And>w w'. housekeeping w w' \<Longrightarrow> S w w'"
    and handler: "\<And>e v v'. parse_message (em_value m) v = (Inr e, v') \<Longrightarrow> run_follows S (processEvent e)"
  shows "run_follows S (handleMessage name processEvent m)"
proof -
  note steps = housekeeping_steps [THEN run_follows_mono, OF house]
  note dlq = housekeeping_dlq [THEN run_follows_mono, OF house]
  have "run_follows S (bindE (parse_result (em_value m)) (\<lambda>r. case r of
          Inl err \<Rightarrow> handleNonRetryableDLQ name m err | Inr e \<Rightarrow> process_valid name processEvent m e))"
  proof (rule run_bindE_value [where P = "\<lambda>r. case r of Inl _ \<Rightarrow> True | Inr e \<Rightarrow> run_follows S (processEvent e)"])
    show "case x of Inl _ \<Rightarrow> True | Inr e \<Rightarrow> run_follows S (processEvent e)" if "parse_result (em_value m) w = (Inr x, w')" for w x w'
      using that handler
      by (auto simp: parse_result_def tryE_def bindE_def returnE_def split: prod.splits sum.splits)
  qed (auto intro: steps dlq run_process_valid [OF house] split: sum.split)
  then show ?thesis
    unfolding handleMessage_def
    by (intro run_bindE [OF run_pure(6)] run_thenE [OF steps(1)])
qed

lemma run_handleMessage:
  assumes "\<And>w w'. housekeeping w w' \<Longrightarrow> S w w'"
    and "\<And>e. aggregate_id e \<noteq> [] \<Longrightarrow> run_follows S (processEvent e)"
  shows "run_follows S (handleMessage name processEvent m)"
  by (rule run_handleMessage_read) (use assms parsed_envelope(1) in blast)+

end

text \<open>A message is read once: it is dead-lettered, or it is the event that the rest handles.\<close>

lemma handleMessage_cases:
  obtains (rejected) "housekeeping w (snd (handleMessage name h m w))"
  | (read) e v v' w1 where "parse_message (em_value m) v = (Inr e, v')" "housekeeping w w1"
      "snd (handleMessage name h m w) = snd (process_valid name h m e w1)"
proof -
  let ?w0 = "snd (update_consumer name (\<lambda>c. c\<lparr>lastEventTimestamp := Some (toISOString (now w))\<rparr>) w)"
  obtain q w1 where q: "parse_message (em_value m) ?w0 = (q, w1)" by fastforce
  have "housekeeping w ?w0" using run_followsD [OF housekeeping_steps(1)] .
  moreover have "snd (parse_result (em_value m) ?w0) = w1"
    by (cases q) (simp_all add: parse_result_def tryE_def bindE_def returnE_def q del: update_consumer_simps)
  then have "housekeeping ?w0 w1" using run_followsD [OF housekeeping_steps(2), of ?w0 "em_value m"] by simp
  ultimately have h: "housekeeping w w1" by (rule house.S_trans)
  show thesis
  proof (cases q)
    case (Inl err)
    then have "snd (handleMessage name h m w) = snd (handleNonRetryableDLQ name m err w1)"
      using q by (simp add: handleMessage_def parse_result_def run_defs)
    then have "housekeeping w (snd (handleMessage name h m w))"
      using house.S_trans [OF h run_followsD [OF housekeeping_dlq(2)]] by simp
    then show thesis by (rule rejected)
  next
    case (Inr e)
    then have "snd (handleMessage name h m w) = snd (process_valid name h m e w1)"
      using q by (simp add: handleMessage_def parse_result_def run_defs)
    then show thesis using read q h Inr by blast
  qed
qed

locale event_handler =
  fixes name :: string
    and processEvent :: "envelope \<Rightarrow> unit op"
  assumes handler_keeps: "db_follows (\<lambda>d d'. base_tables d' = base_tables d) (processEvent e)"
    and handler_steady: "run_follows (\<lambda>w w'. environment w' = environment w) (processEvent e)"
    and handler_calm: "run_follows (\<lambda>w w'. db_script w = [] \<longrightarrow> db_script w' = []) (processEvent e)"
begin

lemma attempt_keeps_dlq:
  "db_follows (\<lambda>d d'. dlq_tables d' = dlq_tables d) (try_process name processEvent e)"
proof -
  have "db_follows (\<lambda>d d'. dlq_tables d' = dlq_tables d) (processEvent e)"
    using handler_keeps by (rule db_follows_mono) (simp add: base_tables_def dlq_tables_def)
  then show ?thesis
    unfolding try_process_def
    by (intro keep.follows_rules keep_event_ops keep_base) (simp_all add: dlq_tables_def)
qed

lemma loop_keeps_dlq:
  "db_follows (\<lambda>d d'. dlq_tables d' = dlq_tables d) (retry_loop name processEvent e left a le)"
  by (induction left arbitrary: a le)
    (auto intro!: keep.follows_rules attempt_keeps_dlq keep_wait simp del: One_nat_def)

lemma attempt_steady:
  "run_follows (\<lambda>w w'. environment w' = environment w) (try_process name processEvent e)"
  "run_follows (\<lambda>w w'. db_script w = [] \<longrightarrow> db_script w' = []) (try_process name processEvent e)"
  unfolding try_process_def
  by (intro steady.run_rules db_calm.run_rules steady_base steady_event_ops handler_steady handler_calm)+

lemma loop_steady:
  "run_follows (\<lambda>w w'. environment w' = environment w) (retry_loop name processEvent e left a le)"
  "run_follows (\<lambda>w w'. db_script w = [] \<longrightarrow> db_script w' = []) (retry_loop name processEvent e left a le)"
  by (induction left arbitrary: a le)
    (auto intro!: steady.run_rules db_calm.run_rules attempt_steady steady_wait)

lemma attempt_succeeds:
  assumes "try_process name processEvent e w = (Inr u, w')"
  shows "event_processed (event_id e) name (db w')"
proof -
  obtain w1 v w2 where "markEventProcessed Pool (event_id e) name ''PROCESSED'' None w1 = (Inr v, w2)"
    "db w' = db w2"
    using assms unfolding try_process_def
    by (auto dest!: thenE_InrD bindE_InrD simp: iso_now_def getsE_def)
  then show ?thesis
    unfolding markEventProcessed_def by (auto dest!: query_writes_InrD)
qed

text \<open>The loop ends without an error of its own; its result tells what happened.\<close>

lemma loop_returns: "\<exists>r w'. retry_loop name processEvent e left a le w = (Inr r, w')"
proof (induction left arbitrary: a le w)
  case 0
  then show ?case by (simp add: returnE_def)
next
  case (Suc left)
  obtain r w1 where r: "try_process name processEvent e w = (r, w1)" by fastforce
  show ?case
  proof (cases r)
    case (Inl err)
    obtain w2 where "wait_to_retry left (a + 1) w1 = (Inr (), w2)"
      using wait_returns by blast
    then show ?thesis using Suc [of "a + 1" "Some err" w2] by (auto simp: run_defs r Inl)
  qed (simp add: run_defs r)
qed

lemma loop_result:
  assumes "retry_loop name processEvent e left a le w = (Inr r, w')"
  shows "case r of None \<Rightarrow> event_processed (event_id e) name (db w') | Some (err, n) \<Rightarrow> n = a + left"
  using assms
proof (induction left arbitrary: a le w)
  case 0
  then show ?case by (auto simp: returnE_def)
next
  case (Suc left)
  obtain q w1 where q: "try_process name processEvent e w = (q, w1)" by fastforce
  show ?case
  proof (cases q)
    case (Inl err)
    obtain w2 where w2: "wait_to_retry left (a + 1) w1 = (Inr (), w2)"
      using wait_returns by blast
    have "retry_loop name processEvent e left (a + 1) (Some err) w2 = (Inr r, w')"
      using Suc.prems by (simp add: run_defs q Inl w2 [simplified])
    from Suc.IH [OF this] show ?thesis by (auto split: option.splits)
  next
    case (Inr u)
    then have "r = None" "w' = w1" using Suc.prems by (simp_all add: run_defs q)
    then show ?thesis using attempt_succeeds q Inr by auto
  qed
qed

text \<open>A duplicate costs one query.\<close>

lemma duplicate_skipped:
  assumes "event_processed (event_id e) name (db w)"
  shows "db (snd (process_valid name processEvent m e w)) = db w \<and>
         bus (snd (process_valid name processEvent m e w)) = bus w"
proof -
  obtain r w1 where q: "isEventProcessed (event_id e) name w = (r, w1)" by fastforce
  have "db w1 = db w" "bus w1 = bus w"
    using db_followsD [OF keep_event_ops(1) [of "\<lambda>d. d" "event_id e" name], of w]
      bus_quietD [OF quiet_event_ops(1), of "event_id e" name w] q by (metis snd_conv)+
  moreover have "r = Inr True" if "r = Inr b" for b
    using q that assms unfolding isEventProcessed_def
    by (auto dest!: query_InrD simp: selects_def)
  ultimately show ?thesis
    by (cases r) (auto simp: process_valid_def bindE_def q returnE_def)
qed

text \<open>
  What became of an event when \<open>handleMessage\<close> returned: processed, or recorded as failed
  together with its dead letter, or the dead-letter transaction failed as well and nothing
  was recorded.
\<close>

lemma process_valid_outcome:
  assumes "fresh_dlq_ids w" and "fst (process_valid name processEvent m e w) = Inr ()"
    and w'_def: "w' = snd (process_valid name processEvent m e w)"
  shows "event_processed (event_id e) name (db w') \<or> dead_lettered name (event_id e) (db w') \<or>
         (db_script w \<noteq> [] \<and> dlq_messages (db w') = dlq_messages (db w))"
proof -
  obtain r w1 where q: "isEventProcessed (event_id e) name w = (r, w1)" by fastforce
  have w1: "db w1 = db w" "environment w1 = environment w" "db_script w = [] \<longrightarrow> db_script w1 = []"
    using db_followsD [OF keep_event_ops(1) [of "\<lambda>d. d" "event_id e" name], of w]
      run_followsD [OF steady_event_ops(3) [of "event_id e" name], of w]
      run_followsD [OF steady_event_ops(4) [of "event_id e" name], of w] q
    by (metis snd_conv)+
  obtain b where b: "r = Inr b" using assms(2) q by (cases r) (simp_all add: process_valid_def bindE_def)
  show ?thesis
  proof (cases b)
    case True
    then have "event_processed (event_id e) name (db w)"
      using q b unfolding isEventProcessed_def by (auto dest!: query_InrD simp: selects_def)
    then show ?thesis using duplicate_skipped by (simp add: w'_def)
  next
    case False
    obtain res w2 where l: "retry_loop name processEvent e maxRetries 0 None w1 = (Inr res, w2)"
      using loop_returns by blast
    have w2: "environment w2 = environment w" "db_script w = [] \<longrightarrow> db_script w2 = []"
      "dlq_tables (db w2) = dlq_tables (db w)"
      using run_followsD [OF loop_steady(1) [of e maxRetries 0 None], of w1]
        run_followsD [OF loop_steady(2) [of e maxRetries 0 None], of w1]
        db_followsD [OF loop_keeps_dlq [of e maxRetries 0 None], of w1] w1 by (simp_all add: l)
    show ?thesis
    proof (cases res)
      case None
      then have "w' = w2" using q b False l by (simp add: w'_def process_valid_def bindE_def returnE_def)
      then show ?thesis using loop_result [OF l] None by simp
    next
      case (Some p)
      obtain err n where p: "p = (err, n)" by (cases p)
      let ?w3 = "w2\<lparr>consumers := (consumers w2)(name := (consumers w2 name)
          \<lparr>failureCount := failureCount (consumers w2 name) + 1, status := Degraded\<rparr>)\<rparr>"
      have w': "w' = snd (handleExhaustedRetriesDLQ name e m err n ?w3)"
        using q b False l Some p by (simp add: w'_def process_valid_def bindE_def thenE_def)
      have "fresh_dlq_ids ?w3"
        using assms(1) w2 by (simp add: fresh_dlq_ids_def environment_def dlq_tables_def)
      from exhausted_outcome [OF this, of _ name e m err n, OF refl] w2(2,3)
      show ?thesis unfolding w' [symmetric] by (auto simp: dlq_tables_def)
    qed
  qed
qed

lemma handle_message_keeps_pending:
  "db_follows (\<lambda>d d'. dlq_outbox_pending d \<longrightarrow> dlq_outbox_pending d') (handleMessage name processEvent m)"
proof -
  have "db_follows (\<lambda>d d'. dlq_outbox_pending d \<longrightarrow> dlq_outbox_pending d') (retry_loop name processEvent e left a le)"
    for e left a le
    using loop_keeps_dlq by (rule db_follows_mono) (simp add: dlq_tables_def dlq_outbox_pending_def)
  then show ?thesis
    unfolding handleMessage_def process_valid_def handleExhaustedRetriesDLQ_def handleNonRetryableDLQ_def
      exhausted_transaction_def Let_def
    by (auto intro!: always.follows_rules pending_ops pending_base split: sum.split option.split)
qed

end

end
