(* ===== verification/Domain_Consumers.thy ===== *)
theory Domain_Consumers
  imports Event_Handler
begin

text \<open>
  \<open>src/src/consumers/payment-consumer.ts\<close>, \<open>inventory-consumer.ts\<close>, \<open>fraud-consumer.ts\<close>,
  \<open>shipping-consumer.ts\<close> and \<open>notification-consumer.ts\<close>: the domain handlers.  Each reads
  the chaos configuration, ignores the events that are not its commands, and answers a
  command with one event.  None of them touches the database.
\<close>

section \<open>The chaos engine as the consumers call it\<close>

text \<open>The delay Node gives \<open>setTimeout\<close>: outside of 1 to 2\^31 - 1 it is one millisecond.\<close>

definition timeout_ms :: "jnum \<Rightarrow> nat" where
  "timeout_ms d = (case d of Fin r \<Rightarrow> if 1 \<le> r \<and> r \<le> 2147483647 then nat \<lfloor>r\<rfloor> else 1 | _ \<Rightarrow> 1)"

definition checkLatency :: "chaos_service \<Rightarrow> unit op" where
  "checkLatency s =
     bindE (getsE chaos) (\<lambda>c. whenE (js_gt (chaos_delay s c) (Fin 0)) (sleep (timeout_ms (chaos_delay s c))))"

definition should_fail :: "chaos_service \<Rightarrow> bool op" where
  "should_fail s = getsE (\<lambda>w. shouldFail s (chaos w))"

definition num :: "rat \<Rightarrow> js" where
  "num r = JNum (Fin r)"

text \<open>The parameters that every handler passes to \<open>emit\<close>.\<close>

definition reply :: "envelope \<Rightarrow> topic \<Rightarrow> event_type \<Rightarrow> string \<Rightarrow> obj \<Rightarrow> emit_params" where
  "reply e tpc ty agg pl =
     \<lparr>e_topic = tpc, e_eventType = ty, e_aggregateId = aggregate_id e, e_aggregateType = agg,
      e_payload = pl, e_correlationId = correlation_id e, e_causationId = event_id e, e_eventId = None\<rparr>"

definition emit_event :: "string \<Rightarrow> emit_params \<Rightarrow> unit op" where
  "emit_event name p = bindE (emit name p) (\<lambda>_. returnE ())"

section \<open>Payment\<close>

definition payment_rejected :: "envelope \<Rightarrow> string \<Rightarrow> obj" where
  "payment_rejected e ts = (let p = obj_get (payload e) in
     [(''order_id'', JStr (aggregate_id e)), (''user_id'', p ''user_id''), (''amount'', p ''amount''),
      (''reason'', JStr ''Card authorization failed (Chaos Injection)''), (''rejected_at'', JStr ts)])"

definition payment_authorized :: "envelope \<Rightarrow> string \<Rightarrow> nat \<Rightarrow> string \<Rightarrow> obj" where
  "payment_authorized e u n ts = (let p = obj_get (payload e) in
     [(''payment_id'', JStr (''pay_'' @ u)), (''order_id'', JStr (aggregate_id e)),
      (''user_id'', p ''user_id''), (''amount'', p ''amount''),
      (''authorization_code'', JStr (''AUTH_'' @ nat_string (100000 + int n))),
      (''authorized_at'', JStr ts)])"

definition payment_refunded :: "envelope \<Rightarrow> string \<Rightarrow> string \<Rightarrow> obj" where
  "payment_refunded e u ts = (let p = obj_get (payload e) in
     [(''refund_id'', JStr (''ref_'' @ u)), (''payment_id'', js_or (p ''payment_id'') (JStr ''pay_unknown'')),
      (''order_id'', JStr (aggregate_id e)), (''amount'', p ''amount''), (''refunded_at'', JStr ts)])"

definition payment_processEvent :: "envelope \<Rightarrow> unit op" where
  "payment_processEvent e =
     thenE (checkLatency SvPayment) (bindE (should_fail SvPayment) (\<lambda>failing.
       if event_type e = PaymentRequested then
         (if failing then
            bindE iso_now (\<lambda>ts. emit_event ''payment-service''
              (reply e PaymentsTopic PaymentRejected ''Payment'' (payment_rejected e ts)))
          else
            bindE uuid8 (\<lambda>u. bindE (random_below 900000) (\<lambda>n. bindE iso_now (\<lambda>ts.
              emit_event ''payment-service''
                (reply e PaymentsTopic PaymentAuthorized ''Payment'' (payment_authorized e u n ts))))))
       else if event_type e = PaymentRefundRequested then
         bindE uuid8 (\<lambda>u. bindE iso_now (\<lambda>ts. emit_event ''payment-service''
           (reply e PaymentsTopic PaymentRefunded ''Payment'' (payment_refunded e u ts))))
       else returnE ()))"

section \<open>Inventory\<close>

text \<open>\<open>items.some\<close>: in order, stopping at the first hit; an element may throw.\<close>

fun some_item :: "js list \<Rightarrow> exn + bool" where
  "some_item [] = Inr False"
| "some_item (i # rest) =
     (case member i ''sku'' of
        Inl err \<Rightarrow> Inl err
      | Inr sku \<Rightarrow>
          (case member i ''quantity'' of
             Inl err \<Rightarrow> Inl err
           | Inr q \<Rightarrow> if sku = JStr ''OUT_OF_STOCK_ITEM'' \<or> js_gt (js_number q) (Fin 500) then Inr True
                     else some_item rest))"

definition has_out_of_stock :: "js \<Rightarrow> exn + bool" where
  "has_out_of_stock items =
     (case items of JArr vs \<Rightarrow> some_item vs | _ \<Rightarrow> Inl (TypeError ''items.some is not a function''))"

definition reservation_failed :: "envelope \<Rightarrow> js \<Rightarrow> bool \<Rightarrow> string \<Rightarrow> obj" where
  "reservation_failed e items failing ts =
     [(''order_id'', JStr (aggregate_id e)), (''items'', items),
      (''reason'', JStr (if failing then ''Chaos forced inventory failure'' else ''SKU out of stock'')),
      (''failed_at'', JStr ts)]"

definition reservation_made :: "envelope \<Rightarrow> js \<Rightarrow> string \<Rightarrow> string \<Rightarrow> obj" where
  "reservation_made e items u ts =
     [(''reservation_id'', JStr (''res_'' @ u)), (''order_id'', JStr (aggregate_id e)),
      (''items'', items), (''reserved_at'', JStr ts)]"

definition inventory_processEvent :: "envelope \<Rightarrow> unit op" where
  "inventory_processEvent e =
     thenE (checkLatency SvInventory) (bindE (should_fail SvInventory) (\<lambda>failing.
       if event_type e = InventoryReservationRequested then
         (let items = js_or (obj_get (payload e) ''items'') (JArr [])
          in bindE (liftE (has_out_of_stock items)) (\<lambda>out_of_stock.
             if failing \<or> out_of_stock then
               bindE iso_now (\<lambda>ts. emit_event ''inventory-service''
                 (reply e InventoryTopic InventoryReservationFailed ''Inventory'' (reservation_failed e items failing ts)))
             else
               bindE uuid8 (\<lambda>u. bindE iso_now (\<lambda>ts. emit_event ''inventory-service''
                 (reply e InventoryTopic InventoryReserved ''Inventory'' (reservation_made e items u ts))))))
       else returnE ()))"

section \<open>Fraud\<close>

fun starts_with :: "string \<Rightarrow> string \<Rightarrow> bool" where
  "starts_with [] s = True"
| "starts_with (c # p) [] = False"
| "starts_with (c # p) (d # s) = (c = d \<and> starts_with p s)"

fun str_includes :: "string \<Rightarrow> string \<Rightarrow> bool" where
  "str_includes [] p = starts_with p []"
| "str_includes (c # s) p = (starts_with p (c # s) \<or> str_includes s p)"

text \<open>\<open>Number(payload.amount) || 0\<close>.\<close>

definition fraud_amount :: "js \<Rightarrow> jnum" where
  "fraud_amount v = (if js_number v = NaN then Fin 0 else js_number v)"

definition is_high_risk :: "bool \<Rightarrow> obj \<Rightarrow> bool" where
  "is_high_risk failing pl \<longleftrightarrow>
     failing \<or> js_gt (fraud_amount (obj_get pl ''amount'')) (Fin 10000) \<or>
     str_includes (js_string (js_or (obj_get pl ''user_id'') (JStr []))) ''fraudster''"

definition fraud_rejected :: "envelope \<Rightarrow> string \<Rightarrow> bool \<Rightarrow> string \<Rightarrow> obj" where
  "fraud_rejected e u failing ts =
     [(''fraud_check_id'', JStr (''fraud_'' @ u)), (''order_id'', JStr (aggregate_id e)),
      (''risk_score'', num 92),
      (''reason'', JStr (if failing then ''Chaos forced fraud rejection'' else ''Excessive risk score (>75)'')),
      (''rejected_at'', JStr ts)]"

definition fraud_approved :: "envelope \<Rightarrow> string \<Rightarrow> nat \<Rightarrow> string \<Rightarrow> obj" where
  "fraud_approved e u n ts =
     [(''fraud_check_id'', JStr (''fraud_'' @ u)), (''order_id'', JStr (aggregate_id e)),
      (''risk_score'', num (of_nat n + 5)), (''approved_at'', JStr ts)]"

definition fraud_processEvent :: "envelope \<Rightarrow> unit op" where
  "fraud_processEvent e =
     thenE (checkLatency SvFraud) (bindE (should_fail SvFraud) (\<lambda>failing.
       if event_type e = FraudCheckRequested then
         bindE uuid8 (\<lambda>u.
           if is_high_risk failing (payload e) then
             bindE iso_now (\<lambda>ts. emit_event ''fraud-service''
               (reply e FraudTopic FraudRejected ''Fraud'' (fraud_rejected e u failing ts)))
           else
             bindE (random_below 25) (\<lambda>n. bindE iso_now (\<lambda>ts. emit_event ''fraud-service''
               (reply e FraudTopic FraudApproved ''Fraud'' (fraud_approved e u n ts)))))
       else returnE ()))"

section \<open>Shipping\<close>

definition shipment_failed :: "envelope \<Rightarrow> string \<Rightarrow> obj" where
  "shipment_failed e ts =
     [(''order_id'', JStr (aggregate_id e)),
      (''reason'', JStr ''Carrier API unreachable (Chaos Injection)''), (''failed_at'', JStr ts)]"

definition shipment_created :: "envelope \<Rightarrow> string \<Rightarrow> nat \<Rightarrow> nat \<Rightarrow> obj" where
  "shipment_created e u n t =
     [(''shipment_id'', JStr (''ship_'' @ u)), (''order_id'', JStr (aggregate_id e)),
      (''tracking_number'', JStr (''TRK-'' @ nat_string (10000000 + int n))),
      (''carrier'', JStr ''FEDEX''),
      (''estimated_delivery'', JStr (toISOString (t + 3 * 24 * 60 * 60 * 1000))),
      (''created_at'', JStr (toISOString t))]"

definition shipping_processEvent :: "envelope \<Rightarrow> unit op" where
  "shipping_processEvent e =
     bindE (should_fail SvShipping) (\<lambda>failing.
       if event_type e = ShipmentRequested then
         (if failing then
            bindE iso_now (\<lambda>ts. emit_event ''shipping-service''
              (reply e ShippingTopic ShipmentFailed ''Shipment'' (shipment_failed e ts)))
          else
            bindE uuid8 (\<lambda>u. bindE (random_below 90000000) (\<lambda>n. bindE clock (\<lambda>t. emit_event ''shipping-service''
              (reply e ShippingTopic ShipmentCreated ''Shipment'' (shipment_created e u n t))))))
       else returnE ())"

section \<open>Notification\<close>

definition notification_sent :: "envelope \<Rightarrow> string \<Rightarrow> string \<Rightarrow> obj" where
  "notification_sent e u ts = (let p = obj_get (payload e) in
     [(''notification_id'', JStr (''notif_'' @ u)), (''order_id'', JStr (aggregate_id e)),
      (''user_id'', js_or (p ''user_id'') (JStr ''unknown'')),
      (''channel'', js_or (p ''channel'') (JStr ''EMAIL'')), (''sent_at'', JStr ts)])"

definition notification_processEvent :: "envelope \<Rightarrow> unit op" where
  "notification_processEvent e =
     bindE (should_fail SvNotification) (\<lambda>failing.
       if event_type e = NotificationRequested then
         (if failing then throwE (AppError ''Notification mail server unreachable (Chaos Injection)'')
          else bindE uuid8 (\<lambda>u. bindE iso_now (\<lambda>ts. emit_event ''notification-service''
                 (reply e NotificationsTopic NotificationSent ''Notification'' (notification_sent e u ts)))))
       else returnE ())"

section \<open>The contract of the base class\<close>

lemma keep_emit_event [frame_rules]: "db_follows (\<lambda>d d'. g d' = g d) (emit_event name p)"
  unfolding emit_def emit_event_def Let_def
  by (auto intro!: keep.follows_rules split: option.split list.split)

lemma steady_emit_event [inv_rules]:
  "run_follows (\<lambda>w w'. environment w' = environment w) (emit_event name p)"
  "run_follows (\<lambda>w w'. db_script w = [] \<longrightarrow> db_script w' = []) (emit_event name p)"
  unfolding emit_def emit_event_def Let_def
  by (auto intro!: steady.run_rules db_calm.run_rules split: option.split list.split)

lemma sends_emit_event:
  "(\<And>u t. P (emit_message name p (emit_envelope name t u p))) \<Longrightarrow> sends P (emit_event name p)"
  unfolding emit_event_def by (intro sends_bindE sends_emit quiet_sends quiet_basic)

lemmas handler_defs =
  payment_processEvent_def inventory_processEvent_def fraud_processEvent_def
  shipping_processEvent_def notification_processEvent_def checkLatency_def should_fail_def Let_def

lemma handlers_keep:
  "db_follows (\<lambda>d d'. g d' = g d) (payment_processEvent e)"
  "db_follows (\<lambda>d d'. g d' = g d) (inventory_processEvent e)"
  "db_follows (\<lambda>d d'. g d' = g d) (fraud_processEvent e)"
  "db_follows (\<lambda>d d'. g d' = g d) (shipping_processEvent e)"
  "db_follows (\<lambda>d d'. g d' = g d) (notification_processEvent e)"
  unfolding handler_defs by (auto intro!: keep.follows_rules keep_emit_event)

lemma handlers_steady:
  "run_follows (\<lambda>w w'. environment w' = environment w) (payment_processEvent e)"
  "run_follows (\<lambda>w w'. environment w' = environment w) (inventory_processEvent e)"
  "run_follows (\<lambda>w w'. environment w' = environment w) (fraud_processEvent e)"
  "run_follows (\<lambda>w w'. environment w' = environment w) (shipping_processEvent e)"
  "run_follows (\<lambda>w w'. environment w' = environment w) (notification_processEvent e)"
  unfolding handler_defs by (auto intro!: steady.run_rules steady_emit_event)

lemma handlers_calm:
  "run_follows (\<lambda>w w'. db_script w = [] \<longrightarrow> db_script w' = []) (payment_processEvent e)"
  "run_follows (\<lambda>w w'. db_script w = [] \<longrightarrow> db_script w' = []) (inventory_processEvent e)"
  "run_follows (\<lambda>w w'. db_script w = [] \<longrightarrow> db_script w' = []) (fraud_processEvent e)"
  "run_follows (\<lambda>w w'. db_script w = [] \<longrightarrow> db_script w' = []) (shipping_processEvent e)"
  "run_follows (\<lambda>w w'. db_script w = [] \<longrightarrow> db_script w' = []) (notification_processEvent e)"
  unfolding handler_defs by (auto intro!: db_calm.run_rules steady_emit_event)

interpretation payment: event_handler "''payment-service''" payment_processEvent
  by unfold_locales (rule handlers_keep handlers_steady handlers_calm)+

interpretation inventory: event_handler "''inventory-service''" inventory_processEvent
  by unfold_locales (rule handlers_keep handlers_steady handlers_calm)+

interpretation fraud: event_handler "''fraud-service''" fraud_processEvent
  by unfold_locales (rule handlers_keep handlers_steady handlers_calm)+

interpretation shipping: event_handler "''shipping-service''" shipping_processEvent
  by unfold_locales (rule handlers_keep handlers_steady handlers_calm)+

interpretation notification: event_handler "''notification-service''" notification_processEvent
  by unfold_locales (rule handlers_keep handlers_steady handlers_calm)+

end
