(* ===== verification/Saga.thy ===== *)
theory Saga
  imports Domain_Consumers
begin

text \<open>
  \<open>src/src/saga/saga-orchestrator.ts\<close>: one definition per case of the \<open>switch\<close> in
  \<open>processEvent\<close>, the compensation barrier \<open>handleCompensationCompletion\<close>, and the
  \<open>switch\<close> itself.
\<close>

abbreviation saga_name :: string where
  "saga_name \<equiv> ''saga-orchestrator''"

definition saga_topics :: "topic list" where
  "saga_topics = [OrdersTopic, PaymentsTopic, InventoryTopic, FraudTopic, ShippingTopic]"

text \<open>\<open>saveSagaInstance\<close> with the identity of an existing saga.\<close>

definition advance :: "envelope \<Rightarrow> saga_row \<Rightarrow> saga_state \<Rightarrow> string \<Rightarrow> obj \<Rightarrow> string option \<Rightarrow> saga_data" where
  "advance e saga st step ctx reason =
     \<lparr>sv_sagaId = saga_id saga, sv_aggregateId = aggregate_id e, sv_sagaType = saga_type saga,
      sv_state = st, sv_currentStep = step, sv_correlationId = correlation_id e,
      sv_context = ctx, sv_failureReason = reason\<rparr>"

definition send_command :: "envelope \<Rightarrow> topic \<Rightarrow> event_type \<Rightarrow> string \<Rightarrow> obj \<Rightarrow> unit op" where
  "send_command e tpc ty agg pl = emit_event saga_name (reply e tpc ty agg pl)"

text \<open>\<open>{ ...context, k1: v1, ... }\<close>.\<close>

definition with_fields :: "obj \<Rightarrow> (string \<times> js) list \<Rightarrow> obj" where
  "with_fields ctx kvs = fold (\<lambda>(k, v) ob. obj_put k v ob) kvs ctx"

text \<open>The guard \<open>!saga || saga.state !== s\<close>, negated.\<close>

definition in_state :: "saga_state \<Rightarrow> saga_row option \<Rightarrow> bool" where
  "in_state s saga \<longleftrightarrow> (case saga of None \<Rightarrow> False | Some r \<Rightarrow> state r = s)"

definition when_in :: "saga_state \<Rightarrow> saga_row option \<Rightarrow> (saga_row \<Rightarrow> unit op) \<Rightarrow> unit op" where
  "when_in s saga f =
     (case saga of None \<Rightarrow> returnE () | Some r \<Rightarrow> if state r = s then f r else returnE ())"

section \<open>1. OrderCreated\<close>

definition order_context :: "envelope \<Rightarrow> obj" where
  "order_context e = (let p = obj_get (payload e) in
     [(''order_id'', JStr (aggregate_id e)), (''user_id'', p ''user_id''),
      (''total_amount'', p ''total_amount''), (''items'', p ''items''),
      (''currency'', js_or (p ''currency'') (JStr ''USD'')),
      (''shipping_address'', js_or (p ''shipping_address'') (JObj [])),
      (''created_at'', JStr (occurred_at e))])"

definition payment_request :: "envelope \<Rightarrow> obj" where
  "payment_request e = (let p = obj_get (payload e) in
     [(''order_id'', JStr (aggregate_id e)), (''user_id'', p ''user_id''),
      (''amount'', p ''total_amount''), (''currency'', js_or (p ''currency'') (JStr ''USD'')),
      (''payment_method'', JStr ''credit_card'')])"

definition new_saga :: "envelope \<Rightarrow> saga_row option \<Rightarrow> saga_data" where
  "new_saga e saga =
     \<lparr>sv_sagaId = (case saga of
          Some r \<Rightarrow> if saga_id r = [] then ''saga_'' @ aggregate_id e else saga_id r
        | None \<Rightarrow> ''saga_'' @ aggregate_id e),
      sv_aggregateId = aggregate_id e, sv_sagaType = ''ORDER_FULFILLMENT'',
      sv_state = PAYMENT_PENDING, sv_currentStep = ''PAYMENT'', sv_correlationId = correlation_id e,
      sv_context = order_context e, sv_failureReason = None\<rparr>"

definition on_OrderCreated :: "envelope \<Rightarrow> saga_row option \<Rightarrow> unit op" where
  "on_OrderCreated e saga =
     (if saga \<noteq> None \<and> \<not> in_state CREATED saga then returnE ()
      else thenE (saveSagaInstance Pool (new_saga e saga))
                 (send_command e PaymentsTopic PaymentRequested ''Payment'' (payment_request e)))"

section \<open>2. Payment\<close>

definition on_PaymentAuthorized :: "envelope \<Rightarrow> saga_row option \<Rightarrow> unit op" where
  "on_PaymentAuthorized e saga = when_in PAYMENT_PENDING saga (\<lambda>r.
     let p = obj_get (payload e);
         ctx = with_fields (sg_context r) [(''payment_id'', p ''payment_id''), (''payment_authorized_at'', p ''authorized_at'')]
     in thenE (saveSagaInstance Pool (advance e r INVENTORY_PENDING ''INVENTORY'' ctx None))
              (send_command e InventoryTopic InventoryReservationRequested ''Inventory''
                 [(''order_id'', JStr (aggregate_id e)),
                  (''items'', js_or (obj_get ctx ''items'') (JArr []))]))"

definition on_PaymentRejected :: "envelope \<Rightarrow> saga_row option \<Rightarrow> unit op" where
  "on_PaymentRejected e saga = when_in PAYMENT_PENDING saga (\<lambda>r.
     let reason = obj_get (payload e) ''reason'';
         text = ''Payment declined: '' @ js_string reason
     in thenE (saveSagaInstance Pool (advance e r FAILED ''TERMINAL''
                 (with_fields (sg_context r) [(''payment_rejection_reason'', reason)]) (Some text)))
        (bindE iso_now (\<lambda>ts.
           send_command e OrdersTopic OrderFailed ''Order''
             [(''order_id'', JStr (aggregate_id e)),
              (''user_id'', js_or (obj_get (sg_context r) ''user_id'') (JStr ''unknown'')),
              (''reason'', JStr text), (''failed_at'', JStr ts), (''failed_step'', JStr ''PAYMENT''),
              (''compensation_status'', JStr ''NO_COMPENSATION_NEEDED'')])))"

section \<open>3. Inventory\<close>

definition on_InventoryReserved :: "envelope \<Rightarrow> saga_row option \<Rightarrow> unit op" where
  "on_InventoryReserved e saga = when_in INVENTORY_PENDING saga (\<lambda>r.
     let p = obj_get (payload e);
         ctx = with_fields (sg_context r) [(''reservation_id'', p ''reservation_id''), (''inventory_reserved_at'', p ''reserved_at'')]
     in thenE (saveSagaInstance Pool (advance e r FRAUD_PENDING ''FRAUD_CHECK'' ctx None))
              (send_command e FraudTopic FraudCheckRequested ''Fraud''
                 [(''order_id'', JStr (aggregate_id e)),
                  (''user_id'', js_or (obj_get ctx ''user_id'') (JStr ''unknown'')),
                  (''amount'', js_or (obj_get ctx ''total_amount'') (num 0)),
                  (''payment_id'', js_or (obj_get ctx ''payment_id'') (JStr ''pay_unknown''))]))"

definition start_compensation :: "string \<Rightarrow> js \<Rightarrow> string list \<Rightarrow> obj \<Rightarrow> obj" where
  "start_compensation key reason pending ctx =
     with_fields ctx [(key, reason), (''compensations_pending'', JArr (map JStr pending)),
                 (''compensations_completed'', JArr [])]"

definition refund_request :: "envelope \<Rightarrow> obj \<Rightarrow> string \<Rightarrow> obj" where
  "refund_request e ctx reason =
     [(''order_id'', JStr (aggregate_id e)), (''payment_id'', obj_get ctx ''payment_id''),
      (''amount'', js_or (obj_get ctx ''total_amount'') (num 0)), (''reason'', JStr reason)]"

definition on_InventoryReservationFailed :: "envelope \<Rightarrow> saga_row option \<Rightarrow> unit op" where
  "on_InventoryReservationFailed e saga = when_in INVENTORY_PENDING saga (\<lambda>r.
     let reason = obj_get (payload e) ''reason'';
         ctx = start_compensation ''inventory_failure_reason'' reason [''PAYMENT_REFUND''] (sg_context r)
     in thenE (saveSagaInstance Pool (advance e r COMPENSATING ''COMPENSATING_PAYMENT'' ctx
                 (Some (''Inventory out of stock: '' @ js_string reason))))
              (send_command e PaymentsTopic PaymentRefundRequested ''Payment''
                 (refund_request e ctx (''Inventory reservation failed: '' @ js_string reason))))"

section \<open>4. Fraud\<close>

definition on_FraudApproved :: "envelope \<Rightarrow> saga_row option \<Rightarrow> unit op" where
  "on_FraudApproved e saga = when_in FRAUD_PENDING saga (\<lambda>r.
     let p = obj_get (payload e);
         ctx = with_fields (sg_context r) [(''fraud_check_id'', p ''fraud_check_id''), (''risk_score'', p ''risk_score'')]
     in thenE (saveSagaInstance Pool (advance e r SHIPPING_PENDING ''SHIPPING'' ctx None))
              (send_command e ShippingTopic ShipmentRequested ''Shipment''
                 [(''order_id'', JStr (aggregate_id e)),
                  (''user_id'', js_or (obj_get ctx ''user_id'') (JStr ''unknown'')),
                  (''items'', js_or (obj_get ctx ''items'') (JArr [])),
                  (''shipping_address'', js_or (obj_get ctx ''shipping_address'') (JObj []))]))"

definition release_request :: "envelope \<Rightarrow> obj \<Rightarrow> string \<Rightarrow> string \<Rightarrow> obj" where
  "release_request e ctx ts reason =
     [(''order_id'', JStr (aggregate_id e)), (''reservation_id'', obj_get ctx ''reservation_id''),
      (''items'', js_or (obj_get ctx ''items'') (JArr [])), (''released_at'', JStr ts),
      (''reason'', JStr reason)]"

text \<open>The two compensations of a rejected fraud check or a failed shipment.\<close>

definition request_compensations :: "envelope \<Rightarrow> obj \<Rightarrow> string \<Rightarrow> unit op" where
  "request_compensations e ctx reason =
     thenE (bindE iso_now (\<lambda>ts.
              send_command e InventoryTopic InventoryReleased ''Inventory'' (release_request e ctx ts reason)))
           (send_command e PaymentsTopic PaymentRefundRequested ''Payment'' (refund_request e ctx reason))"

definition on_FraudRejected :: "envelope \<Rightarrow> saga_row option \<Rightarrow> unit op" where
  "on_FraudRejected e saga = when_in FRAUD_PENDING saga (\<lambda>r.
     let reason = obj_get (payload e) ''reason'';
         ctx = start_compensation ''fraud_rejection_reason'' reason [''INVENTORY_RELEASE'', ''PAYMENT_REFUND''] (sg_context r)
     in thenE (saveSagaInstance Pool (advance e r COMPENSATING ''COMPENSATING_FRAUD'' ctx
                 (Some (''Fraud risk check rejected: '' @ js_string reason))))
              (request_compensations e ctx (''Fraud rejection: '' @ js_string reason)))"

section \<open>5. Shipment\<close>

definition order_completed :: "envelope \<Rightarrow> obj \<Rightarrow> obj" where
  "order_completed e ctx =
     [(''order_id'', JStr (aggregate_id e)),
      (''user_id'', js_or (obj_get ctx ''user_id'') (JStr ''unknown'')),
      (''completed_at'', obj_get ctx ''completed_at''),
      (''total_amount'', js_or (obj_get ctx ''total_amount'') (num 0)),
      (''payment_id'', obj_get ctx ''payment_id''),
      (''shipment_id'', obj_get (payload e) ''shipment_id''),
      (''tracking_number'', obj_get (payload e) ''tracking_number'')]"

definition notification_request :: "envelope \<Rightarrow> obj \<Rightarrow> obj" where
  "notification_request e ctx =
     [(''order_id'', JStr (aggregate_id e)),
      (''user_id'', js_or (obj_get ctx ''user_id'') (JStr ''unknown'')),
      (''channel'', JStr ''EMAIL''), (''template'', JStr ''ORDER_CONFIRMATION_SHIPPED''),
      (''recipient'', JStr (js_string (js_or (obj_get ctx ''user_id'') (JStr ''customer'')) @ ''@example.com'')),
      (''data'', JObj [(''tracking_number'', obj_get (payload e) ''tracking_number''),
                       (''total_amount'', obj_get ctx ''total_amount'')])]"

definition on_ShipmentCreated :: "envelope \<Rightarrow> saga_row option \<Rightarrow> unit op" where
  "on_ShipmentCreated e saga = when_in SHIPPING_PENDING saga (\<lambda>r.
     bindE iso_now (\<lambda>ts.
     let p = obj_get (payload e);
         ctx = with_fields (sg_context r) [(''shipment_id'', p ''shipment_id''),
                 (''tracking_number'', p ''tracking_number''), (''completed_at'', JStr ts)]
     in thenE (saveSagaInstance Pool (advance e r COMPLETED ''TERMINAL_SUCCESS'' ctx None))
        (thenE (send_command e OrdersTopic OrderCompleted ''Order'' (order_completed e ctx))
               (send_command e NotificationsTopic NotificationRequested ''Notification''
                  (notification_request e ctx)))))"

definition on_ShipmentFailed :: "envelope \<Rightarrow> saga_row option \<Rightarrow> unit op" where
  "on_ShipmentFailed e saga = when_in SHIPPING_PENDING saga (\<lambda>r.
     let reason = obj_get (payload e) ''reason'';
         ctx = start_compensation ''shipment_failure_reason'' reason [''INVENTORY_RELEASE'', ''PAYMENT_REFUND''] (sg_context r)
     in thenE (saveSagaInstance Pool (advance e r COMPENSATING ''COMPENSATING_SHIPPING'' ctx
                 (Some (''Shipment dispatch failed: '' @ js_string reason))))
              (request_compensations e ctx (''Shipment failed: '' @ js_string reason)))"

section \<open>The compensation barrier\<close>

text \<open>\<open>Array.includes\<close>: identity on objects, so a copy of one is never found.\<close>

definition js_includes :: "js list \<Rightarrow> js \<Rightarrow> bool" where
  "js_includes vs v = (case v of JArr _ \<Rightarrow> False | JObj _ \<Rightarrow> False | _ \<Rightarrow> v \<in> set vs)"

definition completed_list :: "obj \<Rightarrow> string \<Rightarrow> js list" where
  "completed_list ctx action =
     (let done = array_elems (obj_get ctx ''compensations_completed'')
      in if js_includes done (JStr action) then done else done @ [JStr action])"

definition pending_list :: "obj \<Rightarrow> js list" where
  "pending_list ctx = (case obj_get ctx ''compensations_pending'' of
     JArr vs \<Rightarrow> vs | _ \<Rightarrow> [JStr ''PAYMENT_REFUND''])"

definition all_completed :: "obj \<Rightarrow> string \<Rightarrow> bool" where
  "all_completed ctx action = list_all (js_includes (completed_list ctx action)) (pending_list ctx)"

text \<open>The row that the barrier writes.\<close>

definition barrier_data :: "saga_row \<Rightarrow> string \<Rightarrow> string \<Rightarrow> string \<Rightarrow> saga_data" where
  "barrier_data cur orderId action corr =
     (let ctx = sg_context cur; finished = all_completed ctx action
      in \<lparr>sv_sagaId = or_string (Some (saga_id cur)) (''saga_'' @ orderId),
          sv_aggregateId = orderId,
          sv_sagaType = or_string (Some (saga_type cur)) ''ORDER_FULFILLMENT'',
          sv_state = (if finished then CANCELLED else COMPENSATING),
          sv_currentStep = (if finished then ''TERMINAL_CANCELLED'' else ''COMPENSATING_WAITING_'' @ action),
          sv_correlationId = corr,
          sv_context = obj_put ''compensations_completed'' (JArr (completed_list ctx action)) ctx,
          sv_failureReason = or_null (failure_reason cur)\<rparr>)"

text \<open>What the barrier decides to emit: the completed steps, the reason and the user.\<close>

definition cancellation :: "saga_row \<Rightarrow> string \<Rightarrow> js list \<times> string \<times> js" where
  "cancellation cur action =
     (completed_list (sg_context cur) action,
      or_string (or_null (failure_reason cur)) ''Order cancelled after full compensation'',
      js_or (obj_get (sg_context cur) ''user_id'') (JStr ''unknown''))"

text \<open>
  \<open>executeBarrierUpdate\<close>, inside the transaction: the row is read again under a lock; the
  result says whether to emit \<open>OrderCancelled\<close>.
\<close>

definition executeBarrierUpdate ::
  "saga_row \<Rightarrow> string \<Rightarrow> string \<Rightarrow> string \<Rightarrow> (js list \<times> string \<times> js) option op" where
  "executeBarrierUpdate sagaParam orderId action corr =
     bindE (getSagaByAggregateIdForUpdate orderId) (\<lambda>locked.
       let cur = (case locked of Some r \<Rightarrow> r | None \<Rightarrow> sagaParam)
       in if state cur \<noteq> COMPENSATING then returnE None
          else thenE (saveSagaInstance Client (barrier_data cur orderId action corr))
                 (returnE (if all_completed (sg_context cur) action
                           then Some (cancellation cur action) else None)))"

definition order_cancelled :: "string \<Rightarrow> string \<Rightarrow> js list \<times> string \<times> js \<Rightarrow> obj" where
  "order_cancelled orderId ts c =
     (case c of (completed, reason, user) \<Rightarrow>
        [(''order_id'', JStr orderId), (''user_id'', user), (''reason'', JStr reason),
         (''cancelled_at'', JStr ts), (''compensated_steps'', JArr completed)])"

definition barrier_order_id :: "saga_row \<Rightarrow> string" where
  "barrier_order_id saga =
     or_string (Some (sg_aggregate_id saga)) (str_of (obj_get (sg_context saga) ''order_id''))"

definition handleCompensationCompletion :: "saga_row \<Rightarrow> string \<Rightarrow> string \<Rightarrow> string \<Rightarrow> unit op" where
  "handleCompensationCompletion saga action eventId corr =
     (let orderId = barrier_order_id saga
      in bindE (withTransaction (executeBarrierUpdate saga orderId action corr)) (\<lambda>r.
           case r of
             None \<Rightarrow> returnE ()
           | Some c \<Rightarrow> bindE iso_now (\<lambda>ts. emit_event saga_name
               \<lparr>e_topic = OrdersTopic, e_eventType = OrderCancelled, e_aggregateId = orderId,
                e_aggregateType = ''Order'', e_payload = order_cancelled orderId ts c,
                e_correlationId = corr, e_causationId = eventId, e_eventId = None\<rparr>)))"

definition on_PaymentRefunded :: "envelope \<Rightarrow> saga_row option \<Rightarrow> unit op" where
  "on_PaymentRefunded e saga = when_in COMPENSATING saga (\<lambda>r.
     handleCompensationCompletion r ''PAYMENT_REFUND'' (event_id e) (correlation_id e))"

definition on_InventoryReleased :: "envelope \<Rightarrow> saga_row option \<Rightarrow> unit op" where
  "on_InventoryReleased e saga = when_in COMPENSATING saga (\<lambda>r.
     handleCompensationCompletion r ''INVENTORY_RELEASE'' (event_id e) (correlation_id e))"

section \<open>processEvent\<close>

definition saga_case :: "envelope \<Rightarrow> saga_row option \<Rightarrow> unit op" where
  "saga_case e saga =
     (case event_type e of
        OrderCreated \<Rightarrow> on_OrderCreated e saga
      | PaymentAuthorized \<Rightarrow> on_PaymentAuthorized e saga
      | PaymentRejected \<Rightarrow> on_PaymentRejected e saga
      | InventoryReserved \<Rightarrow> on_InventoryReserved e saga
      | InventoryReservationFailed \<Rightarrow> on_InventoryReservationFailed e saga
      | FraudApproved \<Rightarrow> on_FraudApproved e saga
      | FraudRejected \<Rightarrow> on_FraudRejected e saga
      | ShipmentCreated \<Rightarrow> on_ShipmentCreated e saga
      | ShipmentFailed \<Rightarrow> on_ShipmentFailed e saga
      | PaymentRefunded \<Rightarrow> on_PaymentRefunded e saga
      | InventoryReleased \<Rightarrow> on_InventoryReleased e saga
      | _ \<Rightarrow> returnE ())"

definition saga_processEvent :: "envelope \<Rightarrow> unit op" where
  "saga_processEvent e = bindE (getSagaByAggregateId Pool (aggregate_id e)) (saga_case e)"

section \<open>The contract of the base class\<close>

lemmas saga_case_defs =
  on_OrderCreated_def on_PaymentAuthorized_def on_PaymentRejected_def on_InventoryReserved_def
  on_InventoryReservationFailed_def on_FraudApproved_def on_FraudRejected_def
  on_ShipmentCreated_def on_ShipmentFailed_def on_PaymentRefunded_def on_InventoryReleased_def
  when_in_def request_compensations_def send_command_def handleCompensationCompletion_def
  executeBarrierUpdate_def Let_def

text \<open>Every case is one of the eleven handlers or nothing.\<close>

lemma saga_case_cases:
  assumes "P (on_OrderCreated e s)" "P (on_PaymentAuthorized e s)" "P (on_PaymentRejected e s)"
    "P (on_InventoryReserved e s)" "P (on_InventoryReservationFailed e s)" "P (on_FraudApproved e s)"
    "P (on_FraudRejected e s)" "P (on_ShipmentCreated e s)" "P (on_ShipmentFailed e s)"
    "P (on_PaymentRefunded e s)" "P (on_InventoryReleased e s)" "P (returnE ())"
  shows "P (saga_case e s)"
  unfolding saga_case_def by (cases "event_type e") (simp_all add: assms)

lemma saga_keeps:
  assumes "\<And>t d. g (d\<lparr>saga_instances := t\<rparr>) = g d"
  shows "db_follows (\<lambda>d d'. g d' = g d) (saga_processEvent e)"
proof -
  have "db_follows (\<lambda>d d'. g d' = g d) (saga_case e s)" for s
    by (rule saga_case_cases [where P = "db_follows (\<lambda>d d'. g d' = g d)"]; (unfold saga_case_defs)?)
      (intro keep.follows_rules keep_emit_event keep_saga_ops assms)+
  then show ?thesis
    unfolding saga_processEvent_def by (intro keep.follows_bindE keep_saga_ops)
qed

lemma saga_steady:
  "run_follows (\<lambda>w w'. environment w' = environment w) (saga_processEvent e)"
  "run_follows (\<lambda>w w'. db_script w = [] \<longrightarrow> db_script w' = []) (saga_processEvent e)"
proof -
  have "run_follows (\<lambda>w w'. environment w' = environment w) (saga_case e s)" for s
    by (rule saga_case_cases [where P = "run_follows (\<lambda>w w'. environment w' = environment w)"]; (unfold saga_case_defs saveSagaInstance_def getSagaByAggregateIdForUpdate_def)?)
      (intro steady.run_rules steady_emit_event)+
  then show "run_follows (\<lambda>w w'. environment w' = environment w) (saga_processEvent e)"
    unfolding saga_processEvent_def getSagaByAggregateId_def by (intro steady.run_rules)
  have "run_follows (\<lambda>w w'. db_script w = [] \<longrightarrow> db_script w' = []) (saga_case e s)" for s
    by (rule saga_case_cases [where P = "run_follows (\<lambda>w w'. db_script w = [] \<longrightarrow> db_script w' = [])"]; (unfold saga_case_defs saveSagaInstance_def getSagaByAggregateIdForUpdate_def)?)
      (intro db_calm.run_rules steady_emit_event)+
  then show "run_follows (\<lambda>w w'. db_script w = [] \<longrightarrow> db_script w' = []) (saga_processEvent e)"
    unfolding saga_processEvent_def getSagaByAggregateId_def by (intro db_calm.run_rules)
qed

interpretation saga_consumer: event_handler saga_name saga_processEvent
proof
  show "db_follows (\<lambda>d d'. base_tables d' = base_tables d) (saga_processEvent e)" for e
    by (rule saga_keeps) (simp add: base_tables_def)
qed (rule saga_steady)+

end
