(* ===== verification/Saga_Spec.thy ===== *)
theory Saga_Spec
  imports Saga
begin

text \<open>
  The contract of the saga orchestrator: a pure transition table \<open>saga_plan\<close> from the
  state of the saga and the event to the row to write and the commands to send, and the
  proof that \<open>processEvent\<close> implements it under every fault script.
\<close>

section \<open>The transition table\<close>

text \<open>The state graph.\<close>

inductive saga_step :: "saga_state \<Rightarrow> event_type \<Rightarrow> saga_state \<Rightarrow> bool" where
  "saga_step CREATED OrderCreated PAYMENT_PENDING"
| "saga_step PAYMENT_PENDING PaymentAuthorized INVENTORY_PENDING"
| "saga_step PAYMENT_PENDING PaymentRejected FAILED"
| "saga_step INVENTORY_PENDING InventoryReserved FRAUD_PENDING"
| "saga_step INVENTORY_PENDING InventoryReservationFailed COMPENSATING"
| "saga_step FRAUD_PENDING FraudApproved SHIPPING_PENDING"
| "saga_step FRAUD_PENDING FraudRejected COMPENSATING"
| "saga_step SHIPPING_PENDING ShipmentCreated COMPLETED"
| "saga_step SHIPPING_PENDING ShipmentFailed COMPENSATING"
| "saga_step COMPENSATING PaymentRefunded COMPENSATING"
| "saga_step COMPENSATING PaymentRefunded CANCELLED"
| "saga_step COMPENSATING InventoryReleased COMPENSATING"
| "saga_step COMPENSATING InventoryReleased CANCELLED"

inductive_cases saga_step_fromE: "saga_step s t s'"

inductive_simps saga_step_terminal [simp]:
  "saga_step COMPLETED t s'" "saga_step CANCELLED t s'" "saga_step FAILED t s'"

definition terminal :: "saga_state \<Rightarrow> bool" where
  "terminal s \<longleftrightarrow> s = COMPLETED \<or> s = CANCELLED \<or> s = FAILED"

text \<open>Compensation: both steps are undone after the reservation, the payment alone before.\<close>

definition plan_compensation ::
  "envelope \<Rightarrow> saga_row \<Rightarrow> string \<Rightarrow> string \<Rightarrow> string \<Rightarrow> string \<Rightarrow> string \<Rightarrow> saga_data \<times> emit_params list" where
  "plan_compensation e r ts key step failure text =
     (let reason = obj_get (payload e) ''reason'';
          ctx = start_compensation key reason [''INVENTORY_RELEASE'', ''PAYMENT_REFUND''] (sg_context r)
      in (advance e r COMPENSATING step ctx (Some (failure @ js_string reason)),
          [reply e InventoryTopic InventoryReleased ''Inventory'' (release_request e ctx ts (text @ js_string reason)),
           reply e PaymentsTopic PaymentRefundRequested ''Payment'' (refund_request e ctx (text @ js_string reason))]))"

definition plan_barrier :: "envelope \<Rightarrow> saga_row \<Rightarrow> string \<Rightarrow> string \<Rightarrow> saga_data \<times> emit_params list" where
  "plan_barrier e r ts action =
     (barrier_data r (aggregate_id e) action (correlation_id e),
      if all_completed (sg_context r) action
      then [reply e OrdersTopic OrderCancelled ''Order''
              (order_cancelled (aggregate_id e) ts (cancellation r action))]
      else [])"

text \<open>The steps of the forward path.\<close>

definition plan_order :: "envelope \<Rightarrow> saga_row option \<Rightarrow> saga_data \<times> emit_params list" where
  "plan_order e saga =
     (new_saga e saga, [reply e PaymentsTopic PaymentRequested ''Payment'' (payment_request e)])"

definition plan_forward ::
  "envelope \<Rightarrow> saga_row \<Rightarrow> saga_state \<Rightarrow> string \<Rightarrow> string list \<Rightarrow> (obj \<Rightarrow> emit_params list) \<Rightarrow>
   (string \<times> js) list \<Rightarrow> saga_data \<times> emit_params list" where
  "plan_forward e r st step keys cmds extra =
     (let ctx = with_fields (sg_context r) (map (\<lambda>k. (k, obj_get (payload e) k)) keys @ extra)
      in (advance e r st step ctx None, cmds ctx))"

definition saga_plan :: "envelope \<Rightarrow> string \<Rightarrow> saga_row option \<Rightarrow> (saga_data \<times> emit_params list) option" where
  "saga_plan e ts saga =
     (case saga of
        None \<Rightarrow> if event_type e = OrderCreated then Some (plan_order e None) else None
      | Some r \<Rightarrow>
          (case state r of
             CREATED \<Rightarrow> if event_type e = OrderCreated then Some (plan_order e (Some r)) else None
           | PAYMENT_PENDING \<Rightarrow>
               if event_type e = PaymentAuthorized then
                 Some (plan_forward e r INVENTORY_PENDING ''INVENTORY'' [''payment_id'']
                   (\<lambda>ctx. [reply e InventoryTopic InventoryReservationRequested ''Inventory''
                      [(''order_id'', JStr (aggregate_id e)), (''items'', js_or (obj_get ctx ''items'') (JArr []))]])
                   [(''payment_authorized_at'', obj_get (payload e) ''authorized_at'')])
               else if event_type e = PaymentRejected then
                 (let reason = obj_get (payload e) ''reason''; text = ''Payment declined: '' @ js_string reason
                  in Some (advance e r FAILED ''TERMINAL'' (with_fields (sg_context r) [(''payment_rejection_reason'', reason)]) (Some text),
                       [reply e OrdersTopic OrderFailed ''Order''
                          [(''order_id'', JStr (aggregate_id e)),
                           (''user_id'', js_or (obj_get (sg_context r) ''user_id'') (JStr ''unknown'')),
                           (''reason'', JStr text), (''failed_at'', JStr ts), (''failed_step'', JStr ''PAYMENT''),
                           (''compensation_status'', JStr ''NO_COMPENSATION_NEEDED'')]]))
               else None
           | INVENTORY_PENDING \<Rightarrow>
               if event_type e = InventoryReserved then
                 Some (plan_forward e r FRAUD_PENDING ''FRAUD_CHECK'' [''reservation_id'']
                   (\<lambda>ctx. [reply e FraudTopic FraudCheckRequested ''Fraud''
                      [(''order_id'', JStr (aggregate_id e)),
                       (''user_id'', js_or (obj_get ctx ''user_id'') (JStr ''unknown'')),
                       (''amount'', js_or (obj_get ctx ''total_amount'') (num 0)),
                       (''payment_id'', js_or (obj_get ctx ''payment_id'') (JStr ''pay_unknown''))]])
                   [(''inventory_reserved_at'', obj_get (payload e) ''reserved_at'')])
               else if event_type e = InventoryReservationFailed then
                 (let reason = obj_get (payload e) ''reason'';
                      ctx = start_compensation ''inventory_failure_reason'' reason [''PAYMENT_REFUND''] (sg_context r)
                  in Some (advance e r COMPENSATING ''COMPENSATING_PAYMENT'' ctx
                             (Some (''Inventory out of stock: '' @ js_string reason)),
                       [reply e PaymentsTopic PaymentRefundRequested ''Payment''
                          (refund_request e ctx (''Inventory reservation failed: '' @ js_string reason))]))
               else None
           | FRAUD_PENDING \<Rightarrow>
               if event_type e = FraudApproved then
                 Some (plan_forward e r SHIPPING_PENDING ''SHIPPING'' [''fraud_check_id'', ''risk_score'']
                   (\<lambda>ctx. [reply e ShippingTopic ShipmentRequested ''Shipment''
                      [(''order_id'', JStr (aggregate_id e)),
                       (''user_id'', js_or (obj_get ctx ''user_id'') (JStr ''unknown'')),
                       (''items'', js_or (obj_get ctx ''items'') (JArr [])),
                       (''shipping_address'', js_or (obj_get ctx ''shipping_address'') (JObj []))]]) [])
               else if event_type e = FraudRejected then
                 Some (plan_compensation e r ts ''fraud_rejection_reason'' ''COMPENSATING_FRAUD''
                         ''Fraud risk check rejected: '' ''Fraud rejection: '')
               else None
           | SHIPPING_PENDING \<Rightarrow>
               if event_type e = ShipmentCreated then
                 Some (plan_forward e r COMPLETED ''TERMINAL_SUCCESS'' [''shipment_id'', ''tracking_number'']
                   (\<lambda>ctx. [reply e OrdersTopic OrderCompleted ''Order'' (order_completed e ctx),
                           reply e NotificationsTopic NotificationRequested ''Notification'' (notification_request e ctx)])
                   [(''completed_at'', JStr ts)])
               else if event_type e = ShipmentFailed then
                 Some (plan_compensation e r ts ''shipment_failure_reason'' ''COMPENSATING_SHIPPING''
                         ''Shipment dispatch failed: '' ''Shipment failed: '')
               else None
           | COMPENSATING \<Rightarrow>
               if event_type e = PaymentRefunded then Some (plan_barrier e r ts ''PAYMENT_REFUND'')
               else if event_type e = InventoryReleased then Some (plan_barrier e r ts ''INVENTORY_RELEASE'')
               else None
           | _ \<Rightarrow> None))"

text \<open>The table follows the state graph.\<close>

lemma plan_follows_graph:
  "saga_plan e ts (Some r) = Some (s, cmds) \<Longrightarrow> saga_step (state r) (event_type e) (sv_state s)"
  by (cases "state r")
    (auto simp: saga_plan_def plan_order_def plan_forward_def plan_compensation_def plan_barrier_def
      new_saga_def advance_def barrier_data_def Let_def saga_step.intros split: if_splits)

lemma plan_identity:
  "saga_plan e ts (Some r) = Some (s, cmds) \<Longrightarrow> saga_id r \<noteq> [] \<Longrightarrow>
   sv_sagaId s = saga_id r \<and> sv_aggregateId s = aggregate_id e"
  by (cases "state r")
    (auto simp: saga_plan_def plan_order_def plan_forward_def plan_compensation_def plan_barrier_def
      new_saga_def advance_def barrier_data_def or_string_def Let_def split: if_splits)

lemma plan_terminal: "terminal (state r) \<Longrightarrow> saga_plan e ts (Some r) = None"
  by (auto simp: terminal_def saga_plan_def)

section \<open>What a handler performs\<close>

text \<open>A message that carries a command.\<close>

definition is_command :: "emit_params \<Rightarrow> message \<Rightarrow> bool" where
  "is_command p m \<longleftrightarrow> (\<exists>u t. m = emit_message saga_name p (emit_envelope saga_name t u p))"

text \<open>
  \<open>emits C m\<close>: the database stays, and the messages sent are those of a command list in
  \<open>C\<close>: all of them when \<open>m\<close> returns, the first ones when it throws.
\<close>

definition sent :: "(exn + unit) \<Rightarrow> emit_params list \<Rightarrow> message list \<Rightarrow> bool" where
  "sent r cmds ms \<longleftrightarrow>
     (case r of Inr _ \<Rightarrow> list_all2 is_command cmds ms | Inl _ \<Rightarrow> \<exists>k. list_all2 is_command (take k cmds) ms)"

text \<open>A refused first send: an error, no message, the rest of the script for the next call.\<close>

definition refused_run :: "world \<Rightarrow> (exn + unit) \<times> world \<Rightarrow> bool" where
  "refused_run w rw \<longleftrightarrow> (\<forall>x n sc. kafka_script w = (Refused x, n) # sc \<longrightarrow>
     (\<exists>err. fst rw = Inl err) \<and> bus (snd rw) = bus w \<and> kafka_script (snd rw) = sc)"

definition emits_run :: "world \<Rightarrow> (exn + unit) \<times> world \<Rightarrow> emit_params list \<Rightarrow> bool" where
  "emits_run w rw cmds \<longleftrightarrow>
     (\<exists>ms. db (snd rw) = db w \<and> bus (snd rw) = bus w @ ms \<and> sent (fst rw) cmds ms \<and>
        (if cmds = [] then fst rw = Inr () \<and> kafka_script (snd rw) = kafka_script w
         else refused_run w rw) \<and>
        (kafka_script w = [] \<longrightarrow> fst rw = Inr () \<and> kafka_script (snd rw) = []))"

definition emits :: "(emit_params list \<Rightarrow> bool) \<Rightarrow> unit op \<Rightarrow> bool" where
  "emits C m \<longleftrightarrow> (\<forall>w. \<exists>cmds. C cmds \<and> emits_run w (m w) cmds)"

lemma sent_nothing [simp]: "sent (Inl e) cmds []"
  unfolding sent_def by (auto intro: exI [of _ 0])

lemma emits_none: "emits (\<lambda>c. c = []) (returnE ())"
  by (simp add: emits_def emits_run_def returnE_def sent_def)

lemma is_command_emit [simp]: "is_command p (emit_message saga_name p (emit_envelope saga_name t u p))"
  unfolding is_command_def by blast

lemma emits_send: "emits (\<lambda>c. c = [p]) (emit_event saga_name p)"
proof -
  have "emits_run w (emit_event saga_name p w) [p]" for w
  proof -
    have "\<exists>u w1. (case e_eventId p of Some (c # s) \<Rightarrow> returnE [] | _ \<Rightarrow> uuid) w = (Inr u, w1) \<and>
        db w1 = db w \<and> bus w1 = bus w \<and> kafka_script w1 = kafka_script w"
      by (simp add: returnE_def uuid_def split: option.split list.split)
    then obtain u w1 where u: "(case e_eventId p of Some (c # s) \<Rightarrow> returnE [] | _ \<Rightarrow> uuid) w = (Inr u, w1)"
      and w1: "db w1 = db w" "bus w1 = bus w" "kafka_script w1 = kafka_script w"
      by blast
    let ?m = "emit_message saga_name p (emit_envelope saga_name (now w1) u p)"
    obtain r w2 where s: "producer_send [?m] w1 = (r, w2)" by fastforce
    have run: "emit_event saga_name p w = (map_sum id (\<lambda>_. ()) r, w2)"
      by (simp add: emit_event_def emit_def bindE_def u clock_def getsE_def thenE_def Let_def s returnE_def
          split: sum.split)
    have "db w2 = db w1" "bus w2 = bus w1 @ [] \<and> r \<noteq> Inr () \<or> bus w2 = bus w1 @ [?m]"
      "kafka_script w1 = [] \<longrightarrow> r = Inr () \<and> kafka_script w2 = []" "refused_run w1 (r, w2)"
      using s by (auto simp: producer_send_def refused_run_def Let_def split: outcome.splits)
    moreover have "sent r' [p] [?m]" for r'
      unfolding sent_def by (auto intro: exI [of _ "Suc 0"] split: sum.split)
    ultimately show ?thesis using w1
      by (cases r) (auto simp: emits_run_def run refused_run_def sent_nothing)
  qed
  then show ?thesis by (simp add: emits_def)
qed

lemma sent_stop: "sent (Inl x) a ms \<Longrightarrow> sent (Inl x) (a @ b) ms"
proof -
  assume "sent (Inl x) a ms"
  then obtain k where "list_all2 is_command (take k a) ms" by (auto simp: sent_def)
  then have "list_all2 is_command (take (min k (length a)) (a @ b)) ms"
    by (cases "k \<le> length a") (simp_all add: min_def)
  then show ?thesis unfolding sent_def sum.case by blast
qed

lemma sent_append: "list_all2 is_command a ms \<Longrightarrow> sent r b ns \<Longrightarrow> sent r (a @ b) (ms @ ns)"
proof (cases r)
  case (Inl x)
  assume "list_all2 is_command a ms" "sent r b ns"
  moreover from this obtain k where "list_all2 is_command (take k b) ns" using Inl by (auto simp: sent_def)
  ultimately have "list_all2 is_command (take (length a + k) (a @ b)) (ms @ ns)"
    by (simp add: list_all2_appendI)
  then show ?thesis unfolding sent_def Inl sum.case by blast
qed (simp add: sent_def list_all2_appendI)

text \<open>Commands of two computations in sequence.\<close>

lemma emits_run_stop:
  assumes "emits_run w (Inl x, w') a" shows "emits_run w (Inl x, w') (a @ b)"
proof -
  have "a \<noteq> []" using assms by (auto simp: emits_run_def)
  then show ?thesis using assms sent_stop by (auto simp: emits_run_def)
qed

lemma emits_run_go:
  assumes "emits_run w (Inr (), w1) a" and "emits_run w1 (r, w') b"
  shows "emits_run w (r, w') (a @ b)"
proof -
  obtain ms where ms: "db w1 = db w" "bus w1 = bus w @ ms" "list_all2 is_command a ms"
    "a \<noteq> [] \<Longrightarrow> refused_run w (Inr (), w1)" "a = [] \<Longrightarrow> kafka_script w1 = kafka_script w"
    "kafka_script w = [] \<longrightarrow> kafka_script w1 = []"
    using assms(1) by (auto simp: emits_run_def sent_def split: if_splits)
  obtain ns where ns: "db w' = db w1" "bus w' = bus w1 @ ns" "sent r b ns"
    "b = [] \<Longrightarrow> r = Inr () \<and> kafka_script w' = kafka_script w1" "b \<noteq> [] \<Longrightarrow> refused_run w1 (r, w')"
    "kafka_script w1 = [] \<longrightarrow> r = Inr () \<and> kafka_script w' = []"
    using assms(2) by (auto simp: emits_run_def split: if_splits)
  have "sent r (a @ b) (ms @ ns)" using ms(3) ns(3) by (rule sent_append)
  moreover have "if a @ b = [] then r = Inr () \<and> kafka_script w' = kafka_script w else refused_run w (r, w')"
  proof (cases "a = []")
    case True
    then have "ms = []" using ms(3) by simp
    then show ?thesis using True ms(2,5) ns(4,5) by (cases "b = []") (simp_all add: refused_run_def)
  next
    case False
    then show ?thesis using ms(4) by (simp add: refused_run_def)
  qed
  ultimately show ?thesis
    using ms ns unfolding emits_run_def by (intro exI [of _ "ms @ ns"]) simp
qed

lemma emits_then:
  assumes "emits C m" "emits D n"
  shows "emits (\<lambda>c. \<exists>a b. C a \<and> D b \<and> c = a @ b) (thenE m n)"
  unfolding emits_def
proof
  fix w
  obtain r w1 where m: "m w = (r, w1)" by fastforce
  obtain a where a: "C a" "emits_run w (m w) a" using assms(1) unfolding emits_def by blast
  obtain b where b: "D b" "emits_run w1 (n w1) b" using assms(2) unfolding emits_def by blast
  have "emits_run w (thenE m n w) (a @ b)"
  proof (cases r)
    case (Inl x)
    then show ?thesis using a(2) by (simp add: thenE_def bindE_def m emits_run_stop)
  next
    case (Inr u)
    then show ?thesis
      using emits_run_go [of w w1 a "fst (n w1)" "snd (n w1)" b] a(2) b(2) by (simp add: thenE_def bindE_def m)
  qed
  then show "\<exists>cmds. (\<exists>a b. C a \<and> D b \<and> cmds = a @ b) \<and> emits_run w (thenE m n w) cmds"
    using a(1) b(1) by blast
qed

lemma emits_now: "(\<And>ts. emits (C ts) (f ts)) \<Longrightarrow> emits (\<lambda>c. \<exists>ts. C ts c) (bindE iso_now f)"
  unfolding emits_def by (simp add: bindE_def iso_now_def getsE_def) blast

lemma emits_mono: "emits C m \<Longrightarrow> (\<And>c. C c \<Longrightarrow> D c) \<Longrightarrow> emits D m"
  unfolding emits_def by blast

text \<open>
  \<open>performs Q w m\<close>: for a row \<open>s\<close> and commands in \<open>Q\<close>, the run of \<open>m\<close> from \<open>w\<close> either
  fails with nothing written and nothing sent, or writes the row and then sends the
  commands, the first ones only if it throws.  Without faults it does not throw.
\<close>

definition performed :: "world \<Rightarrow> (exn + unit) \<times> world \<Rightarrow> saga_data \<Rightarrow> emit_params list \<Rightarrow> bool" where
  "performed w rw s cmds \<longleftrightarrow>
     (fst rw \<noteq> Inr () \<and> db (snd rw) = db w \<and> bus (snd rw) = bus w) \<or>
     (\<exists>t ms. db (snd rw) = put_saga s t (db w) \<and> bus (snd rw) = bus w @ ms \<and> sent (fst rw) cmds ms)"

definition performs :: "(saga_data \<Rightarrow> emit_params list \<Rightarrow> bool) \<Rightarrow> world \<Rightarrow> unit op \<Rightarrow> bool" where
  "performs Q w m \<longleftrightarrow>
     (\<exists>s cmds. Q s cmds \<and> performed w (m w) s cmds \<and>
        (db_script w = [] \<longrightarrow> (\<exists>t. db (snd (m w)) = put_saga s t (db w)) \<and>
           (cmds \<noteq> [] \<longrightarrow> refused_run w (m w)))) \<and>
     (db_script w = [] \<and> kafka_script w = [] \<longrightarrow> fst (m w) = Inr ())"

lemma performs_mono: "performs Q w m \<Longrightarrow> (\<And>s c. Q s c \<Longrightarrow> Q' s c) \<Longrightarrow> performs Q' w m"
  unfolding performs_def by blast

lemma save_cases:
  obtains (refused) e w1 where "saveSagaInstance Pool s w = (Inl e, w1)" "db w1 = db w" "bus w1 = bus w" "db_script w \<noteq> []"
  | (lost) e w1 t where "saveSagaInstance Pool s w = (Inl e, w1)" "db w1 = put_saga s t (db w)" "bus w1 = bus w" "db_script w \<noteq> []"
  | (saved) w1 t where "saveSagaInstance Pool s w = (Inr (), w1)" "db w1 = put_saga s t (db w)" "bus w1 = bus w"
      "kafka_script w1 = kafka_script w"
proof -
  have script: "fst (next_call (db_script w)) \<noteq> Done \<Longrightarrow> db_script w \<noteq> []" by auto
  show thesis
  proof (cases "fst (next_call (db_script w))")
    case Done
    then show thesis
      by (intro saved [of "(db_tick w)\<lparr>db := put_saga s (now (db_tick w)) (db w)\<rparr>" "now (db_tick w)"])
        (simp_all add: saveSagaInstance_def query_def writes_def Let_def)
  next
    case (Refused m)
    then show thesis
      using script by (intro refused [of "PgError m" "db_tick w"])
        (simp_all add: saveSagaInstance_def query_def Let_def after_error_def)
  next
    case (AckLost m)
    then show thesis
      using script
      by (intro lost [of "PgError m" "(db_tick w)\<lparr>db := put_saga s (now (db_tick w)) (db w)\<rparr>" "now (db_tick w)"])
        (simp_all add: saveSagaInstance_def query_def writes_def Let_def after_error_def)
  qed
qed

lemma performed_silent:
  "db w' = db w \<or> (\<exists>t. db w' = put_saga s t (db w)) \<Longrightarrow> bus w' = bus w \<Longrightarrow> performed w (Inl e, w') s cmds"
  unfolding performed_def by (metis Inr_not_Inl append_Nil2 fst_conv sent_nothing snd_conv)

text \<open>The shape of the forward handlers: save, then send.\<close>

lemma performs_save:
  assumes "emits C m"
  shows "performs (\<lambda>s' c. s' = s \<and> C c) w (thenE (saveSagaInstance Pool s) m)"
proof (cases rule: save_cases [of s w])
  case (refused e w1)
  moreover obtain c where "C c" using assms unfolding emits_def by blast
  ultimately show ?thesis by (auto simp: performs_def performed_def thenE_def bindE_def)
next
  case (lost e w1 t)
  moreover obtain c where "C c" using assms unfolding emits_def by blast
  ultimately show ?thesis
    using performed_silent [of w1 w s e] by (auto simp: performs_def thenE_def bindE_def)
next
  case (saved w1 t)
  obtain c where "C c" "emits_run w1 (m w1) c" using assms unfolding emits_def by blast
  then obtain ms where c: "C c" "db (snd (m w1)) = db w1" "bus (snd (m w1)) = bus w1 @ ms" "sent (fst (m w1)) c ms"
    "if c = [] then fst (m w1) = Inr () \<and> kafka_script (snd (m w1)) = kafka_script w1 else refused_run w1 (m w1)"
    "kafka_script w1 = [] \<longrightarrow> fst (m w1) = Inr ()"
    unfolding emits_run_def by (elim exE conjE) (rule that; simp)
  have run: "thenE (saveSagaInstance Pool s) m w = m w1" using saved by (simp add: thenE_def bindE_def)
  have "c \<noteq> [] \<longrightarrow> refused_run w (m w1)" using c(5) saved by (cases "c = []") (simp_all add: refused_run_def)
  then show ?thesis using saved c unfolding performs_def performed_def run by auto
qed

text \<open>The barrier, called with the row that the database holds.\<close>

lemma barrier_body:
  assumes run: "executeBarrierUpdate r agg action corr w = (Inr x, w')"
    and cur: "latest_saga agg (saga_instances (db w)) = Some r" and st: "state r = COMPENSATING"
  shows "x = (if all_completed (sg_context r) action then Some (cancellation r action) else None) \<and>
         (\<exists>t. db w' = put_saga (barrier_data r agg action corr) t (db w)) \<and> bus w' = bus w \<and> \<not> tx_aborted w'"
proof -
  obtain locked w1 where q: "getSagaByAggregateIdForUpdate agg w = (Inr locked, w1)"
    and k: "(let cur = (case locked of Some r \<Rightarrow> r | None \<Rightarrow> r)
       in if state cur \<noteq> COMPENSATING then returnE None
          else thenE (saveSagaInstance Client (barrier_data cur agg action corr))
                 (returnE (if all_completed (sg_context cur) action
                           then Some (cancellation cur action) else None))) w1 = (Inr x, w')"
    using run unfolding executeBarrierUpdate_def by (auto dest!: bindE_InrD)
  have l: "locked = Some r" "db w1 = db w"
    using q cur unfolding getSagaByAggregateIdForUpdate_def by (auto dest!: query_InrD simp: selects_def)
  have b: "bus w1 = bus w"
    using bus_quietD [OF quiet_state_ops(2) [of agg], of w] q by simp
  obtain y w2 where s: "saveSagaInstance Client (barrier_data r agg action corr) w1 = (Inr y, w2)"
    and x: "x = (if all_completed (sg_context r) action then Some (cancellation r action) else None)" "w' = w2"
    using k l(1) st by (auto dest!: thenE_InrD simp: returnE_def)
  have "\<exists>t. db w2 = put_saga (barrier_data r agg action corr) t (db w1)"
    using s unfolding saveSagaInstance_def by (rule query_writes_InrD)
  moreover have "bus w2 = bus w1"
    using bus_quietD [OF quiet_state_ops(3) [of Client "barrier_data r agg action corr"], of w1] s by simp
  moreover have "\<not> tx_aborted w2"
    using s unfolding saveSagaInstance_def by (auto dest: query_Client_InrD)
  ultimately show ?thesis using x l b by simp
qed

lemma quiet_barrier: "bus_quiet (withTransaction (executeBarrierUpdate r agg action corr))"
  unfolding executeBarrierUpdate_def Let_def
  by (auto intro!: quiet_rules quiet_state_ops)

lemma barrier_calm:
  assumes "db_script w = []" "latest_saga agg (saga_instances (db w)) = Some r" "state r = COMPENSATING"
  shows "\<exists>x w'. withTransaction (executeBarrierUpdate r agg action corr) w = (Inr x, w') \<and> kafka_script w' = kafka_script w"
  using assms
  by (simp add: withTransaction_def executeBarrierUpdate_def getSagaByAggregateIdForUpdate_def
      saveSagaInstance_def bindE_def thenE_def selects_def writes_def returnE_def)

lemma performs_barrier:
  assumes cur: "latest_saga (aggregate_id e) (saga_instances (db w)) = Some r"
    and st: "state r = COMPENSATING" and ne: "aggregate_id e \<noteq> []"
  shows "performs (\<lambda>s c. \<exists>ts. (s, c) = plan_barrier e r ts action) w
           (handleCompensationCompletion r action (event_id e) (correlation_id e))"
proof -
  let ?tx = "withTransaction (executeBarrierUpdate r (aggregate_id e) action (correlation_id e))"
  let ?data = "barrier_data r (aggregate_id e) action (correlation_id e)"
  have agg: "barrier_order_id r = aggregate_id e"
    using latest_saga_mem [OF cur] ne by (simp add: barrier_order_id_def or_string_def)
  obtain q w1 where t: "?tx w = (q, w1)" by fastforce
  have bus1: "bus w1 = bus w" using bus_quietD [OF quiet_barrier] t by (metis snd_conv)
  have db1: "db w1 = db w \<or> (\<exists>t. db w1 = put_saga ?data t (db w))"
    using withTransaction_atomic [of "executeBarrierUpdate r (aggregate_id e) action (correlation_id e)" w]
      barrier_body cur st t by (metis snd_conv)
  show ?thesis
  proof (cases q)
    case (Inl err)
    have "db_script w \<noteq> []" using barrier_calm [OF _ cur st] t Inl by (metis Inr_not_Inl prod.inject)
    moreover have "performed w (Inl err, w1) (fst (plan_barrier e r ts action)) (snd (plan_barrier e r ts action))" for ts
      using db1 bus1 by (intro performed_silent) (auto simp: plan_barrier_def)
    moreover have "handleCompensationCompletion r action (event_id e) (correlation_id e) w = (Inl err, w1)"
      by (simp add: handleCompensationCompletion_def Let_def agg bindE_def t Inl)
    ultimately show ?thesis unfolding performs_def by (metis prod.collapse)
  next
    case (Inr x)
    obtain w2 w3 where b: "db w2 = db w" "executeBarrierUpdate r (aggregate_id e) action (correlation_id e) w2 = (Inr x, w3)"
      "if tx_aborted w3 then db w1 = db w else db w1 = db w3"
      using withTransaction_InrD [OF t [unfolded Inr]] by blast
    from barrier_body [OF b(2)] cur st b(1)
    have x: "x = (if all_completed (sg_context r) action then Some (cancellation r action) else None)"
      and d: "\<exists>t. db w1 = put_saga ?data t (db w)" using b(3) by auto
    have same: "kafka_script w1 = kafka_script w" if "db_script w = []"
      using barrier_calm [OF that cur st, of action "correlation_id e"] t by auto
    then have calm: "kafka_script w1 = []" if "db_script w = []" "kafka_script w = []"
      using that by simp
    show ?thesis
    proof (cases "all_completed (sg_context r) action")
      case False
      then have "handleCompensationCompletion r action (event_id e) (correlation_id e) w = (Inr (), w1)"
        by (simp add: handleCompensationCompletion_def Let_def agg bindE_def t Inr x returnE_def)
      then show ?thesis
        using d bus1 False by (auto simp: performs_def performed_def plan_barrier_def sent_def)
    next
      case True
      let ?cmd = "\<lambda>ts. reply e OrdersTopic OrderCancelled ''Order''
        (order_cancelled (aggregate_id e) ts (cancellation r action))"
      have run: "handleCompensationCompletion r action (event_id e) (correlation_id e) w =
          bindE iso_now (\<lambda>ts. emit_event saga_name (?cmd ts)) w1"
        by (simp add: handleCompensationCompletion_def Let_def agg bindE_def t Inr x True reply_def)
      have "emits (\<lambda>c. \<exists>ts. c = [?cmd ts]) (bindE iso_now (\<lambda>ts. emit_event saga_name (?cmd ts)))"
        by (intro emits_now emits_send)
      then obtain ts where "emits_run w1 (bindE iso_now (\<lambda>ts. emit_event saga_name (?cmd ts)) w1) [?cmd ts]"
        unfolding emits_def by blast
      then obtain ms where c: "db (snd (bindE iso_now (\<lambda>ts. emit_event saga_name (?cmd ts)) w1)) = db w1"
        "bus (snd (bindE iso_now (\<lambda>ts. emit_event saga_name (?cmd ts)) w1)) = bus w1 @ ms"
        "sent (fst (bindE iso_now (\<lambda>ts. emit_event saga_name (?cmd ts)) w1)) [?cmd ts] ms"
        "refused_run w1 (bindE iso_now (\<lambda>ts. emit_event saga_name (?cmd ts)) w1)"
        "kafka_script w1 = [] \<longrightarrow> fst (bindE iso_now (\<lambda>ts. emit_event saga_name (?cmd ts)) w1) = Inr ()"
        unfolding emits_run_def by (elim exE conjE) (rule that; simp)
      have "db_script w = [] \<longrightarrow> refused_run w (bindE iso_now (\<lambda>ts. emit_event saga_name (?cmd ts)) w1)"
        using c(4) bus1 same by (simp add: refused_run_def)
      then show ?thesis
        using d bus1 calm c
        by (auto simp: performs_def performed_def plan_barrier_def True run)
    qed
  qed
qed

section \<open>processEvent implements the table\<close>

lemmas on_defs =
  on_OrderCreated_def on_PaymentAuthorized_def on_PaymentRejected_def on_InventoryReserved_def
  on_InventoryReservationFailed_def on_FraudApproved_def on_FraudRejected_def
  on_ShipmentCreated_def on_ShipmentFailed_def on_PaymentRefunded_def on_InventoryReleased_def
  when_in_def in_state_def

lemma plan_disabled: "saga_plan e ts saga = None \<Longrightarrow> saga_case e saga = returnE ()"
proof (cases saga)
  case None
  assume "saga_plan e ts saga = None"
  with None show ?thesis
    by (cases "event_type e") (simp_all add: saga_plan_def saga_case_def on_defs)
next
  case (Some r)
  assume "saga_plan e ts saga = None"
  with Some show ?thesis
    by (cases "event_type e"; cases "state r") (simp_all add: saga_plan_def saga_case_def on_defs Let_def)
qed

lemma emits_pair: "emits (\<lambda>c. c = [p, q]) (thenE (emit_event saga_name p) (emit_event saga_name q))"
  by (rule emits_mono [OF emits_then [OF emits_send emits_send]]) auto

lemma emits_compensations:
  "emits (\<lambda>c. \<exists>ts. c = [reply e InventoryTopic InventoryReleased ''Inventory'' (release_request e ctx ts reason),
                       reply e PaymentsTopic PaymentRefundRequested ''Payment'' (refund_request e ctx reason)])
     (request_compensations e ctx reason)"
  unfolding request_compensations_def send_command_def
  by (rule emits_mono [OF emits_then [OF emits_now emits_send]], rule emits_send) auto

lemmas plan_defs = saga_plan_def plan_order_def plan_forward_def plan_compensation_def Let_def

text \<open>One lemma for each enabled transition of the forward path.\<close>

lemma perform_OrderCreated:
  "saga = None \<or> in_state CREATED saga \<Longrightarrow> event_type e = OrderCreated \<Longrightarrow>
   performs (\<lambda>s c. \<exists>ts. saga_plan e ts saga = Some (s, c)) w (on_OrderCreated e saga)"
  unfolding on_OrderCreated_def send_command_def
  by (cases saga) (auto simp: in_state_def plan_defs intro: performs_mono [OF performs_save [OF emits_send]])

lemma perform_PaymentAuthorized:
  "state r = PAYMENT_PENDING \<Longrightarrow> event_type e = PaymentAuthorized \<Longrightarrow>
   performs (\<lambda>s c. \<exists>ts. saga_plan e ts (Some r) = Some (s, c)) w (on_PaymentAuthorized e (Some r))"
  unfolding on_PaymentAuthorized_def send_command_def when_in_def Let_def
  by (auto simp: plan_defs intro!: performs_mono [OF performs_save [OF emits_send]])

lemma perform_PaymentRejected:
  "state r = PAYMENT_PENDING \<Longrightarrow> event_type e = PaymentRejected \<Longrightarrow>
   performs (\<lambda>s c. \<exists>ts. saga_plan e ts (Some r) = Some (s, c)) w (on_PaymentRejected e (Some r))"
  unfolding on_PaymentRejected_def send_command_def when_in_def Let_def
  by (auto simp: plan_defs intro!: performs_mono [OF performs_save [OF emits_now [OF emits_send]]])

lemma perform_InventoryReserved:
  "state r = INVENTORY_PENDING \<Longrightarrow> event_type e = InventoryReserved \<Longrightarrow>
   performs (\<lambda>s c. \<exists>ts. saga_plan e ts (Some r) = Some (s, c)) w (on_InventoryReserved e (Some r))"
  unfolding on_InventoryReserved_def send_command_def when_in_def Let_def
  by (auto simp: plan_defs intro!: performs_mono [OF performs_save [OF emits_send]])

lemma perform_InventoryReservationFailed:
  "state r = INVENTORY_PENDING \<Longrightarrow> event_type e = InventoryReservationFailed \<Longrightarrow>
   performs (\<lambda>s c. \<exists>ts. saga_plan e ts (Some r) = Some (s, c)) w (on_InventoryReservationFailed e (Some r))"
  unfolding on_InventoryReservationFailed_def send_command_def when_in_def Let_def
  by (auto simp: plan_defs intro!: performs_mono [OF performs_save [OF emits_send]])

lemma perform_FraudApproved:
  "state r = FRAUD_PENDING \<Longrightarrow> event_type e = FraudApproved \<Longrightarrow>
   performs (\<lambda>s c. \<exists>ts. saga_plan e ts (Some r) = Some (s, c)) w (on_FraudApproved e (Some r))"
  unfolding on_FraudApproved_def send_command_def when_in_def Let_def
  by (auto simp: plan_defs intro!: performs_mono [OF performs_save [OF emits_send]])

lemma perform_FraudRejected:
  "state r = FRAUD_PENDING \<Longrightarrow> event_type e = FraudRejected \<Longrightarrow>
   performs (\<lambda>s c. \<exists>ts. saga_plan e ts (Some r) = Some (s, c)) w (on_FraudRejected e (Some r))"
  unfolding on_FraudRejected_def when_in_def Let_def
  by (auto simp: plan_defs intro!: performs_mono [OF performs_save [OF emits_compensations]])

lemma perform_ShipmentFailed:
  "state r = SHIPPING_PENDING \<Longrightarrow> event_type e = ShipmentFailed \<Longrightarrow>
   performs (\<lambda>s c. \<exists>ts. saga_plan e ts (Some r) = Some (s, c)) w (on_ShipmentFailed e (Some r))"
  unfolding on_ShipmentFailed_def when_in_def Let_def
  by (auto simp: plan_defs intro!: performs_mono [OF performs_save [OF emits_compensations]])

lemma perform_ShipmentCreated:
  "state r = SHIPPING_PENDING \<Longrightarrow> event_type e = ShipmentCreated \<Longrightarrow>
   performs (\<lambda>s c. \<exists>ts. saga_plan e ts (Some r) = Some (s, c)) w (on_ShipmentCreated e (Some r))"
proof -
  assume r: "state r = SHIPPING_PENDING" "event_type e = ShipmentCreated"
  have run: "bindE iso_now f w = f (toISOString (now w)) w" for f :: "string \<Rightarrow> unit op"
    by (simp add: bindE_def iso_now_def getsE_def)
  have "performs Q w (bindE iso_now f) = performs Q w (f (toISOString (now w)))" for Q and f :: "string \<Rightarrow> unit op"
    by (simp add: performs_def run)
  then show ?thesis
    using r unfolding on_ShipmentCreated_def send_command_def when_in_def Let_def
    by (auto simp: plan_defs intro!: performs_mono [OF performs_save [OF emits_pair]])
qed

lemma saga_case_performs:
  assumes cur: "latest_saga (aggregate_id e) (saga_instances (db w)) = saga"
    and ne: "aggregate_id e \<noteq> []" and plan: "saga_plan e ts saga \<noteq> None"
  shows "performs (\<lambda>s c. \<exists>ts. saga_plan e ts saga = Some (s, c)) w (saga_case e saga)"
proof (cases saga)
  case None
  then show ?thesis
    using plan perform_OrderCreated [of saga e w]
    by (auto simp: saga_plan_def saga_case_def split: if_splits)
next
  case (Some r)
  have barrier: "performs (\<lambda>s c. \<exists>ts. plan_barrier e r ts action = (s, c)) w
        (handleCompensationCompletion r action (event_id e) (correlation_id e))"
    if "state r = COMPENSATING" for action
    by (rule performs_mono [OF performs_barrier]) (use that cur ne Some in auto)
  show ?thesis
  proof (cases "state r")
    case CREATED
    with plan Some show ?thesis
      using perform_OrderCreated [of saga e w] by (auto simp: saga_plan_def saga_case_def in_state_def split: if_splits)
  next
    case PAYMENT_PENDING
    with plan Some consider "event_type e = PaymentAuthorized" | "event_type e = PaymentRejected"
      by (auto simp: saga_plan_def split: if_splits)
    then show ?thesis
      using perform_PaymentAuthorized [OF PAYMENT_PENDING] perform_PaymentRejected [OF PAYMENT_PENDING]
      by cases (simp_all add: saga_case_def Some)
  next
    case INVENTORY_PENDING
    with plan Some consider "event_type e = InventoryReserved" | "event_type e = InventoryReservationFailed"
      by (auto simp: saga_plan_def split: if_splits)
    then show ?thesis
      using perform_InventoryReserved [OF INVENTORY_PENDING] perform_InventoryReservationFailed [OF INVENTORY_PENDING]
      by cases (simp_all add: saga_case_def Some)
  next
    case FRAUD_PENDING
    with plan Some consider "event_type e = FraudApproved" | "event_type e = FraudRejected"
      by (auto simp: saga_plan_def split: if_splits)
    then show ?thesis
      using perform_FraudApproved [OF FRAUD_PENDING] perform_FraudRejected [OF FRAUD_PENDING]
      by cases (simp_all add: saga_case_def Some)
  next
    case SHIPPING_PENDING
    with plan Some consider "event_type e = ShipmentCreated" | "event_type e = ShipmentFailed"
      by (auto simp: saga_plan_def split: if_splits)
    then show ?thesis
      using perform_ShipmentCreated [OF SHIPPING_PENDING] perform_ShipmentFailed [OF SHIPPING_PENDING]
      by cases (simp_all add: saga_case_def Some)
  next
    case COMPENSATING
    with plan Some consider "event_type e = PaymentRefunded" | "event_type e = InventoryReleased"
      by (auto simp: saga_plan_def split: if_splits)
    then show ?thesis
      using barrier [OF COMPENSATING]
      by cases (auto simp: saga_case_def on_defs saga_plan_def Some COMPENSATING)
  qed (use plan Some in \<open>simp_all add: saga_plan_def\<close>)
qed

text \<open>
  The refinement.  Whatever the database and the broker do, \<open>processEvent\<close> either leaves
  everything alone, or writes the row of the plan and then sends its commands in order,
  all of them unless it throws.  It leaves everything alone only if it throws or if the
  plan has nothing to do.
\<close>

lemma saga_run_refines:
  assumes ne: "aggregate_id e \<noteq> []"
    and run: "saga_processEvent e w = (r, w')"
    and cur: "latest_saga (aggregate_id e) (saga_instances (db w)) = saga"
  shows "(db w' = db w \<and> bus w' = bus w \<and> (r = Inr () \<longrightarrow> (\<forall>ts. saga_plan e ts saga = None))) \<or>
         (\<exists>ts s cmds t ms. saga_plan e ts saga = Some (s, cmds) \<and> db w' = put_saga s t (db w) \<and>
            bus w' = bus w @ ms \<and> sent r cmds ms)"
    and "db_script w = [] \<Longrightarrow> kafka_script w = [] \<Longrightarrow> r = Inr ()"
    and "db_script w = [] \<Longrightarrow> saga_plan e ts0 saga \<noteq> None \<Longrightarrow>
         \<exists>ts s cmds t. saga_plan e ts saga = Some (s, cmds) \<and> db w' = put_saga s t (db w) \<and>
           (cmds \<noteq> [] \<longrightarrow> refused_run w (r, w'))"
proof -
  obtain q w1 where get: "getSagaByAggregateId Pool (aggregate_id e) w = (q, w1)" by fastforce
  have w1: "db w1 = db w" "bus w1 = bus w"
    using db_followsD [OF keep_saga_ops(1) [of "\<lambda>d. d" Pool "aggregate_id e"], of w]
      bus_quietD [OF quiet_state_ops(1) [of Pool "aggregate_id e"], of w] get by simp_all
  have q: "q = Inr saga" if "q = Inr x" for x
    using get that cur unfolding getSagaByAggregateId_def by (auto dest!: query_InrD simp: selects_def)
  have calm: "q = Inr saga \<and> db_script w1 = [] \<and> kafka_script w1 = kafka_script w" if "db_script w = []"
    using get that cur by (auto simp: getSagaByAggregateId_def selects_def)
  have none: "(\<forall>ts. saga_plan e ts saga = None) \<or> (\<exists>ts. saga_plan e ts saga \<noteq> None)" by blast
  have cur1: "latest_saga (aggregate_id e) (saga_instances (db w1)) = saga" using cur w1 by simp
  show "(db w' = db w \<and> bus w' = bus w \<and> (r = Inr () \<longrightarrow> (\<forall>ts. saga_plan e ts saga = None))) \<or>
         (\<exists>ts s cmds t ms. saga_plan e ts saga = Some (s, cmds) \<and> db w' = put_saga s t (db w) \<and>
            bus w' = bus w @ ms \<and> sent r cmds ms)"
  proof (cases q)
    case (Inl x)
    then show ?thesis using run w1 by (auto simp: saga_processEvent_def bindE_def get)
  next
    case (Inr x)
    then have run1: "saga_case e saga w1 = (r, w')"
      using run q [OF Inr] by (simp add: saga_processEvent_def bindE_def get)
    show ?thesis
    proof (cases "\<exists>ts. saga_plan e ts saga \<noteq> None")
      case False
      then have "saga_case e saga = returnE ()" using plan_disabled by blast
      then have "w1 = w'" using run1 by (simp add: returnE_def)
      then show ?thesis using w1 False by blast
    next
      case True
      then show ?thesis
        using saga_case_performs [OF cur1 ne] w1
        unfolding performs_def performed_def run1 by fastforce
    qed
  qed
  show "r = Inr ()" if "db_script w = []" "kafka_script w = []"
  proof (cases "\<exists>ts. saga_plan e ts saga \<noteq> None")
    case False
    then have "saga_case e saga = returnE ()" using plan_disabled by blast
    then show ?thesis using run calm [OF that(1)] by (simp add: saga_processEvent_def bindE_def get returnE_def)
  next
    case True
    then obtain ts where "saga_plan e ts saga \<noteq> None" by blast
    from saga_case_performs [OF cur1 ne this] show ?thesis
      using run calm [OF that(1)] that(2) by (simp add: performs_def saga_processEvent_def bindE_def get)
  qed
  show "\<exists>ts s cmds t. saga_plan e ts saga = Some (s, cmds) \<and> db w' = put_saga s t (db w) \<and>
      (cmds \<noteq> [] \<longrightarrow> refused_run w (r, w'))" if "db_script w = []" "saga_plan e ts0 saga \<noteq> None"
  proof -
    note script = that(1) and plan = that(2)
    have c: "q = Inr saga" "db_script w1 = []" "kafka_script w1 = kafka_script w" using calm [OF script] by simp_all
    have "saga_case e saga w1 = (r, w')" using run c(1) by (simp add: saga_processEvent_def bindE_def get)
    then obtain s cmds ts t where p: "saga_plan e ts saga = Some (s, cmds)" "db w' = put_saga s t (db w1)"
      "cmds \<noteq> [] \<longrightarrow> refused_run w1 (r, w')"
      using saga_case_performs [OF cur1 ne plan] c(2) unfolding performs_def by auto
    have "cmds \<noteq> [] \<longrightarrow> refused_run w (r, w')" using p(3) c(3) w1 by (simp add: refused_run_def)
    then show ?thesis using p(1,2) w1 by auto
  qed
qed

end
