(* ===== verification/Examples.thy ===== *)
theory Examples
  imports Saga_Spec
begin

text \<open>
  A concrete world in which nothing fails, a concrete order and the events around it: the
  inputs at which the witnesses of the properties are evaluated.
\<close>

definition demo_world :: world where
  "demo_world =
     \<lparr>db = createTables 0 empty_database, bus = [], sockets = [], now = 0,
      uuid_src = (\<lambda>n. nat_string (10000000 + int n)), uuid_next = 0,
      rand_src = (\<lambda>n. 7), rand_next = 0, db_script = [], kafka_script = [],
      tx_aborted = False, tx_time = 0, chaos = DEFAULT_CHAOS_CONFIG,
      consumers = (\<lambda>_. initial_consumer), zod_format = (\<lambda>_ _. False),
      error_stack = (\<lambda>_. None)\<rparr>"

definition demo_event :: "event_type \<Rightarrow> string \<Rightarrow> obj \<Rightarrow> envelope" where
  "demo_event ty i pl =
     \<lparr>event_id = i, event_type = ty, event_version = 1, sequence_number = None,
      aggregate_id = ''ord_1'', aggregate_type = ''Order'', occurred_at = ''2024-01-01T00:00:00.000Z'',
      producer = ''order-service'', correlation_id = ''corr_1'', causation_id = ''cmd_1'',
      schema_version = 1, payload = pl\<rparr>"

definition demo_items :: js where
  "demo_items = JArr [JObj [(''sku'', JStr ''LAPTOP-001''), (''name'', JStr ''Laptop''),
     (''quantity'', num 2), (''price'', num 100)]]"

definition demo_order :: envelope where
  "demo_order = demo_event OrderCreated ''evt_1''
     [(''order_id'', JStr ''ord_1''), (''user_id'', JStr ''user_1''), (''items'', demo_items),
      (''total_amount'', num 200), (''currency'', JStr ''USD'')]"

definition demo_rejection :: envelope where
  "demo_rejection = demo_event FraudRejected ''evt_2'' [(''reason'', JStr ''Excessive risk'')]"

definition demo_message :: each_message where
  "demo_message = \<lparr>em_topic = OrdersTopic, em_partition = 0, em_offset = ''0'',
     em_value = wire_of (js_of_envelope demo_order)\<rparr>"

lemma demo_order_valid: "valid_envelope demo_order"
proof -
  have "iso_prefix ''2024-01-01T00:00:00.000Z''" by code_simp
  moreover have "event_of_name ''OrderCreated'' = OrderCreated" by code_simp
  ultimately show ?thesis by (simp add: demo_order_def demo_event_def valid_envelope_def)
qed

text \<open>The year of a time, without evaluating the calendar.\<close>

lemma iso_year_bound: "iso_year t \<le> (t div 86400000 + 719468) div 146097 * 400 + 401"
proof -
  have yoe: "(doe - a + doe div 36524 - b) div 365 \<le> 400" if "doe < 146097" for doe a b :: nat
  proof -
    have "doe - a + doe div 36524 - b \<le> 146100" using that by linarith
    then have "(doe - a + doe div 36524 - b) div 365 \<le> 146100 div 365" by (rule div_le_mono)
    then show ?thesis by simp
  qed
  have year: "y + k + (if c then 1 else 0) \<le> k + 401" if "y \<le> 400" for y k :: nat and c
    using that by simp
  have "(t div 86400000 + 719468) mod 146097 < 146097" by simp
  then show ?thesis
    unfolding iso_year_def iso_civil_def Let_def fst_conv by (intro year yoe)
qed

lemma demo_year [simp]: "iso_year (now demo_world) < 10000" "iso_year 0 < 10000"
  using iso_year_bound [of 0] by (simp_all add: demo_world_def)

text \<open>A saga of the order in a given state and context.\<close>

definition demo_saga :: "saga_state \<Rightarrow> obj \<Rightarrow> saga_row" where
  "demo_saga st ctx =
     \<lparr>saga_id = ''saga_ord_1'', sg_aggregate_id = ''ord_1'', saga_type = ''ORDER_FULFILLMENT'',
      state = st, current_step = ''STEP'', sg_correlation_id = ''corr_1'', sg_context = ctx,
      failure_reason = Some ''Fraud risk check rejected: Excessive risk'',
      sg_created_at = 0, sg_updated_at = 0\<rparr>"

definition with_saga :: "saga_row \<Rightarrow> world \<Rightarrow> world" where
  "with_saga r w = w\<lparr>db := (db w)\<lparr>saga_instances := [r]\<rparr>\<rparr>"

lemma demo_event_simps [simp]:
  "aggregate_id (demo_event ty i pl) = ''ord_1''" "event_type (demo_event ty i pl) = ty"
  "event_id (demo_event ty i pl) = i" "payload (demo_event ty i pl) = pl"
  "correlation_id (demo_event ty i pl) = ''corr_1''"
  by (simp_all add: demo_event_def)

lemma demo_saga_simps [simp]:
  "saga_id (demo_saga st ctx) = ''saga_ord_1''" "sg_aggregate_id (demo_saga st ctx) = ''ord_1''"
  "state (demo_saga st ctx) = st" "sg_context (demo_saga st ctx) = ctx"
  "failure_reason (demo_saga st ctx) = Some ''Fraud risk check rejected: Excessive risk''"
  by (simp_all add: demo_saga_def)

lemma demo_world_simps [simp]:
  "db_script demo_world = []" "kafka_script demo_world = []" "bus demo_world = []"
  "saga_instances (db demo_world) = []" "db_script (with_saga r w) = db_script w"
  "kafka_script (with_saga r w) = kafka_script w" "bus (with_saga r w) = bus w"
  "saga_instances (db (with_saga r w)) = [r]"
  by (simp_all add: demo_world_def with_saga_def createTables_def empty_database_def)

lemma latest_saga_single [simp]:
  "latest_saga agg [r] = (if sg_aggregate_id r = agg then Some r else None)"
  "latest_saga agg [] = None"
  by (simp_all add: latest_saga_def newest_first_def)

end
