(* ===== verification/Saga_Props.thy ===== *)
theory Saga_Props
  imports Examples
begin

text \<open>
  Properties of the saga orchestrator over whole runs: the invariant of its table, the
  state graph, the terminal states, the single cancellation, and what a refused send does.
\<close>

section \<open>The invariant of saga\_instances\<close>

text \<open>The compensation lists of a row, as the barrier reads them.\<close>

definition barrier_lists :: "saga_row \<Rightarrow> string list \<Rightarrow> string list \<Rightarrow> bool" where
  "barrier_lists r pending done \<longleftrightarrow>
     obj_get (sg_context r) ''compensations_pending'' = JArr (map JStr pending) \<and>
     obj_get (sg_context r) ''compensations_completed'' = JArr (map JStr done) \<and>
     pending \<noteq> [] \<and> set pending \<subseteq> {''PAYMENT_REFUND'', ''INVENTORY_RELEASE''} \<and>
     distinct done \<and> set done \<subseteq> {''PAYMENT_REFUND'', ''INVENTORY_RELEASE''}"

definition saga_row_ok :: "saga_row \<Rightarrow> bool" where
  "saga_row_ok r \<longleftrightarrow>
     sg_aggregate_id r \<noteq> [] \<and> failure_reason r \<noteq> Some [] \<and> saga_id r = ''saga_'' @ sg_aggregate_id r \<and>
     distinct (map fst (sg_context r)) \<and>
     (state r = FAILED \<longrightarrow> failure_reason r \<noteq> None) \<and>
     (state r = COMPENSATING \<longrightarrow> failure_reason r \<noteq> None \<and>
        (\<exists>p d. barrier_lists r p d \<and> \<not> set p \<subseteq> set d)) \<and>
     (state r = CANCELLED \<longrightarrow> failure_reason r \<noteq> None \<and>
        (\<exists>p d. barrier_lists r p d \<and> set p \<subseteq> set d))"

definition saga_table_ok :: "saga_row list \<Rightarrow> bool" where
  "saga_table_ok t \<longleftrightarrow> unique_by saga_id t \<and> (\<forall>r \<in> set t. saga_row_ok r)"

lemma distinct_fst_put: "distinct (map fst ob) \<Longrightarrow> distinct (map fst (obj_put k v ob))"
  by (simp add: obj_put_def distinct_update)

lemma distinct_fst_fields: "distinct (map fst ob) \<Longrightarrow> distinct (map fst (with_fields ob kvs))"
  by (induction kvs arbitrary: ob) (auto simp: with_fields_def distinct_fst_put)

lemma distinct_fst_json: "distinct (map fst ob) \<Longrightarrow> distinct (map fst (obj_json ob))"
proof (induction ob)
  case (Cons a ob)
  obtain k v where a: "a = (k, v)" by (cases a)
  have "fst ` set (obj_json ob) \<subseteq> fst ` set ob" by (force simp: obj_json_def)
  then show ?case using Cons by (auto simp: a)
qed simp

lemma to_json_strings [simp]: "to_json (JArr (map JStr ss)) = JArr (map JStr ss)"
  by (induction ss) simp_all

lemma with_fields_simps [simp]:
  "with_fields ctx [] = ctx" "with_fields ctx ((k, v) # kvs) = with_fields (obj_put k v ctx) kvs"
  by (simp_all add: with_fields_def)

text \<open>The row after \<open>saveSagaInstance\<close>.\<close>

lemma merge_new_saga:
  "merge_saga t old (new_saga_row t s) =
     old\<lparr>state := sv_state s, current_step := sv_currentStep s, sg_context := obj_json (sv_context s),
         failure_reason := or_null (sv_failureReason s), sg_updated_at := t\<rparr>"
  by (simp add: merge_saga_def new_saga_row_def)

lemma or_null_simps [simp]: "or_null None = None" "or_null (Some s) = (if s = [] then None else Some s)"
  by (simp_all add: or_null_def)

lemma or_null_not_empty [simp]: "or_null x \<noteq> Some []"
  by (simp add: or_null_def split: option.split)

lemma or_null_idem [simp]: "or_null (or_null x) = or_null x"
  by (cases x) auto

lemma js_includes_string [simp]: "js_includes vs (JStr a) \<longleftrightarrow> JStr a \<in> set vs"
  by (simp add: js_includes_def)

definition mark_done :: "string list \<Rightarrow> string \<Rightarrow> string list" where
  "mark_done done action = (if action \<in> set done then done else done @ [action])"

lemma barrier_lists_step:
  assumes "barrier_lists r p d"
  shows "completed_list (sg_context r) action = map JStr (mark_done d action)"
    and "all_completed (sg_context r) action \<longleftrightarrow> set p \<subseteq> set (mark_done d action)"
  using assms
  by (auto simp: barrier_lists_def completed_list_def all_completed_def pending_list_def mark_done_def
      list_all_iff Let_def)

lemma start_compensation_lists:
  assumes "distinct (map fst ctx)" "key \<noteq> ''compensations_pending''" "key \<noteq> ''compensations_completed''"
  shows "obj_get (obj_json (start_compensation key v pending ctx)) ''compensations_pending'' = JArr (map JStr pending)"
    and "obj_get (obj_json (start_compensation key v pending ctx)) ''compensations_completed'' = JArr []"
    and "distinct (map fst (obj_json (start_compensation key v pending ctx)))"
  using assms
  by (simp_all add: start_compensation_def obj_get_json distinct_fst_fields distinct_fst_put distinct_fst_json
      del: with_fields_simps) (simp_all add: distinct_fst_put)

lemma text_not_empty [simp]: "or_null (Some (c # s)) = Some (c # s)"
  by simp

lemma compensation_row_ok:
  assumes "saga_row_ok r" and "pending \<noteq> []" "set pending \<subseteq> {''PAYMENT_REFUND'', ''INVENTORY_RELEASE''}"
    and "key \<noteq> ''compensations_pending''" "key \<noteq> ''compensations_completed''" and "reason \<noteq> []"
  shows "saga_row_ok (merge_saga t r (new_saga_row t
           (advance e r COMPENSATING step (start_compensation key v pending (sg_context r)) (Some reason))))"
proof -
  have d: "distinct (map fst (sg_context r))" using assms(1) by (simp add: saga_row_ok_def)
  note l = start_compensation_lists [OF d assms(4,5), of v pending]
  let ?r = "merge_saga t r (new_saga_row t
      (advance e r COMPENSATING step (start_compensation key v pending (sg_context r)) (Some reason)))"
  have r: "sg_aggregate_id ?r = sg_aggregate_id r" "saga_id ?r = saga_id r" "state ?r = COMPENSATING"
    "failure_reason ?r = Some reason"
    "sg_context ?r = obj_json (start_compensation key v pending (sg_context r))"
    using assms(6) by (simp_all add: merge_new_saga advance_def)
  have "barrier_lists ?r pending []"
    using assms(2,3) l unfolding barrier_lists_def r by simp
  then have "\<exists>p d. barrier_lists ?r p d \<and> \<not> set p \<subseteq> set d"
    using assms(2) by (intro exI [of _ pending] exI [of _ "[]"]) simp
  then show ?thesis
    using assms(1,6) l(3) unfolding saga_row_ok_def r by simp
qed

lemma forward_row_ok:
  assumes "saga_row_ok r" and "st \<notin> {FAILED, COMPENSATING, CANCELLED}"
  shows "saga_row_ok (merge_saga t r (new_saga_row t (advance e r st step (with_fields (sg_context r) kvs) reason)))"
  using assms by (simp add: saga_row_ok_def merge_new_saga advance_def distinct_fst_json distinct_fst_fields)

lemma barrier_row_ok:
  assumes ok: "saga_row_ok r" and st: "state r = COMPENSATING"
    and action: "action \<in> {''PAYMENT_REFUND'', ''INVENTORY_RELEASE''}"
  shows "saga_row_ok (merge_saga t r (new_saga_row t (barrier_data r agg action corr)))"
proof -
  obtain p d where l: "barrier_lists r p d" using ok st by (auto simp: saga_row_ok_def)
  obtain f where f: "failure_reason r = Some f" using ok st by (auto simp: saga_row_ok_def)
  have dist: "distinct (map fst (sg_context r))" using ok by (simp add: saga_row_ok_def)
  let ?r = "merge_saga t r (new_saga_row t (barrier_data r agg action corr))"
  have ctx: "sg_context ?r = obj_json (obj_put ''compensations_completed'' (JArr (map JStr (mark_done d action))) (sg_context r))"
    by (simp add: merge_new_saga barrier_data_def Let_def barrier_lists_step(1) [OF l])
  have state: "state ?r = (if set p \<subseteq> set (mark_done d action) then CANCELLED else COMPENSATING)"
    by (simp add: merge_new_saga barrier_data_def Let_def barrier_lists_step(2) [OF l])
  have l': "barrier_lists ?r p (mark_done d action)"
    using l action unfolding barrier_lists_def ctx
    by (auto simp: obj_get_json distinct_fst_put dist mark_done_def)
  have "sg_aggregate_id ?r = sg_aggregate_id r" "saga_id ?r = saga_id r" "distinct (map fst (sg_context ?r))"
    unfolding ctx by (simp_all add: merge_new_saga distinct_fst_json distinct_fst_put dist)
  moreover have "failure_reason ?r = Some f"
    using ok f by (simp add: merge_new_saga barrier_data_def Let_def saga_row_ok_def)
  ultimately show ?thesis
    using ok l' f unfolding saga_row_ok_def state
    by (cases "set p \<subseteq> set (mark_done d action)") auto
qed

lemma plan_row_ok:
  assumes ok: "saga_row_ok r" and plan: "saga_plan e ts (Some r) = Some (s, c)"
  shows "saga_row_ok (merge_saga t r (new_saga_row t s))"
proof (cases "state r")
  case CREATED
  then have s: "s = new_saga e (Some r)" using plan by (auto simp: saga_plan_def plan_order_def split: if_splits)
  have "distinct (map fst (order_context e))" by (simp add: order_context_def Let_def)
  then show ?thesis using ok unfolding s
    by (simp add: saga_row_ok_def merge_new_saga new_saga_def distinct_fst_json)
next
  case COMPENSATING
  then consider "s = barrier_data r (aggregate_id e) ''PAYMENT_REFUND'' (correlation_id e)"
    | "s = barrier_data r (aggregate_id e) ''INVENTORY_RELEASE'' (correlation_id e)"
    using plan by (auto simp: saga_plan_def plan_barrier_def split: if_splits)
  then show ?thesis by cases (simp_all add: barrier_row_ok ok COMPENSATING)
next
  case PAYMENT_PENDING
  then consider kvs where "s = advance e r INVENTORY_PENDING ''INVENTORY'' (with_fields (sg_context r) kvs) None"
    | x where "s = advance e r FAILED ''TERMINAL'' (with_fields (sg_context r) [(''payment_rejection_reason'', x)])
               (Some (''Payment declined: '' @ js_string x))"
    using plan by (auto simp: plan_defs simp del: with_fields_simps split: if_splits)
  then show ?thesis
  proof cases
    case 2
    then show ?thesis using ok
      by (simp add: saga_row_ok_def merge_new_saga advance_def distinct_fst_json distinct_fst_put)
  qed (simp add: forward_row_ok ok)
next
  case INVENTORY_PENDING
  then consider kvs where "s = advance e r FRAUD_PENDING ''FRAUD_CHECK'' (with_fields (sg_context r) kvs) None"
    | x where "s = advance e r COMPENSATING ''COMPENSATING_PAYMENT''
        (start_compensation ''inventory_failure_reason'' x [''PAYMENT_REFUND''] (sg_context r))
        (Some (''Inventory out of stock: '' @ js_string x))"
    using plan by (auto simp: plan_defs simp del: with_fields_simps split: if_splits)
  then show ?thesis by cases (simp_all add: forward_row_ok compensation_row_ok ok)
next
  case FRAUD_PENDING
  then consider kvs where "s = advance e r SHIPPING_PENDING ''SHIPPING'' (with_fields (sg_context r) kvs) None"
    | x where "s = advance e r COMPENSATING ''COMPENSATING_FRAUD''
        (start_compensation ''fraud_rejection_reason'' x [''INVENTORY_RELEASE'', ''PAYMENT_REFUND''] (sg_context r))
        (Some (''Fraud risk check rejected: '' @ js_string x))"
    using plan by (auto simp: plan_defs simp del: with_fields_simps split: if_splits)
  then show ?thesis by cases (simp_all add: forward_row_ok compensation_row_ok ok)
next
  case SHIPPING_PENDING
  then consider kvs where "s = advance e r COMPLETED ''TERMINAL_SUCCESS'' (with_fields (sg_context r) kvs) None"
    | x where "s = advance e r COMPENSATING ''COMPENSATING_SHIPPING''
        (start_compensation ''shipment_failure_reason'' x [''INVENTORY_RELEASE'', ''PAYMENT_REFUND''] (sg_context r))
        (Some (''Shipment dispatch failed: '' @ js_string x))"
    using plan by (auto simp: plan_defs simp del: with_fields_simps split: if_splits)
  then show ?thesis by cases (simp_all add: forward_row_ok compensation_row_ok ok)
qed (use plan in \<open>simp_all add: saga_plan_def\<close>)

lemma plan_new_ok:
  assumes "saga_plan e ts None = Some (s, c)" "aggregate_id e \<noteq> []"
  shows "saga_row_ok (new_saga_row t s)"
    and "saga_id (new_saga_row t s) = ''saga_'' @ aggregate_id e"
    and "sg_aggregate_id (new_saga_row t s) = aggregate_id e"
    and "state (new_saga_row t s) = PAYMENT_PENDING"
proof -
  have s: "s = new_saga e None" using assms(1) by (auto simp: saga_plan_def plan_order_def split: if_splits)
  have "distinct (map fst (order_context e))" by (simp add: order_context_def Let_def)
  then show "saga_row_ok (new_saga_row t s)"
    using assms(2) unfolding s by (simp add: saga_row_ok_def new_saga_row_def new_saga_def distinct_fst_json)
  show "saga_id (new_saga_row t s) = ''saga_'' @ aggregate_id e"
    "sg_aggregate_id (new_saga_row t s) = aggregate_id e" "state (new_saga_row t s) = PAYMENT_PENDING"
    unfolding s by (simp_all add: new_saga_row_def new_saga_def)
qed

lemma latest_saga_None: "latest_saga agg tbl = None \<longleftrightarrow> (\<forall>r \<in> set tbl. sg_aggregate_id r \<noteq> agg)"
proof -
  have "latest_saga agg tbl = None \<longleftrightarrow>
      set (newest_first sg_created_at (filter (\<lambda>r. sg_aggregate_id r = agg) tbl)) = {}"
    by (simp add: latest_saga_def split: list.split)
  then show ?thesis by (auto simp: newest_first_def)
qed

text \<open>In a well-formed table an aggregate has at most one saga.\<close>

lemma saga_of_aggregate:
  assumes "saga_table_ok tbl" "r \<in> set tbl"
  shows "lookup_row saga_id (saga_id r) tbl = Some r" "latest_saga (sg_aggregate_id r) tbl = Some r"
proof -
  show "lookup_row saga_id (saga_id r) tbl = Some r"
    using assms by (simp add: saga_table_ok_def lookup_row_mem)
  obtain r' where r': "latest_saga (sg_aggregate_id r) tbl = Some r'"
    using assms(2) latest_saga_None [of "sg_aggregate_id r" tbl] by auto
  then have "r' \<in> set tbl" "sg_aggregate_id r' = sg_aggregate_id r" using latest_saga_mem by auto
  then have "saga_id r' = saga_id r" using assms by (simp add: saga_table_ok_def saga_row_ok_def)
  then show "latest_saga (sg_aggregate_id r) tbl = Some r"
    using r' \<open>r' \<in> set tbl\<close> assms unique_row [of saga_id tbl r' r] by (simp add: saga_table_ok_def)
qed

text \<open>The effect of writing a planned row.\<close>

definition replace_saga :: "saga_row \<Rightarrow> saga_row list \<Rightarrow> saga_row list" where
  "replace_saga r tbl = update_rows (\<lambda>x. saga_id x = saga_id r) (\<lambda>_. r) tbl"

lemma put_planned_row:
  assumes ok: "saga_table_ok (saga_instances d)" and ne: "aggregate_id e \<noteq> []"
    and cur: "latest_saga (aggregate_id e) (saga_instances d) = saga"
    and plan: "saga_plan e ts saga = Some (s, c)"
  shows "saga_instances (put_saga s t d) =
           (case saga of None \<Rightarrow> saga_instances d @ [new_saga_row t s]
            | Some r \<Rightarrow> replace_saga (merge_saga t r (new_saga_row t s)) (saga_instances d))"
proof (cases saga)
  case None
  have "saga_id (new_saga_row t s) \<notin> saga_id ` set (saga_instances d)"
  proof
    assume "saga_id (new_saga_row t s) \<in> saga_id ` set (saga_instances d)"
    then obtain r where "r \<in> set (saga_instances d)" "saga_id r = ''saga_'' @ aggregate_id e"
      using plan_new_ok(2) plan None ne by force
    then have "sg_aggregate_id r = aggregate_id e" "r \<in> set (saga_instances d)"
      using ok by (auto simp: saga_table_ok_def saga_row_ok_def)
    then show False using cur None latest_saga_None by metis
  qed
  then show ?thesis by (simp add: put_saga_def upsert_def None)
next
  case (Some r)
  have r: "r \<in> set (saga_instances d)" using cur Some latest_saga_mem by blast
  have "saga_row_ok r" using ok r by (simp add: saga_table_ok_def)
  then have id: "saga_id (new_saga_row t s) = saga_id r"
    using plan_identity [of e ts r s c] plan Some by (simp add: saga_row_ok_def new_saga_row_def)
  have same: "x = r" if "x \<in> set (saga_instances d)" "saga_id x = saga_id r" for x
    using unique_row [of saga_id "saga_instances d" x r] that r ok by (simp add: saga_table_ok_def)
  have "update_rows (\<lambda>x. saga_id x = saga_id r) (\<lambda>x. merge_saga t x (new_saga_row t s)) (saga_instances d) =
      update_rows (\<lambda>x. saga_id x = saga_id r) (\<lambda>_. merge_saga t r (new_saga_row t s)) (saga_instances d)"
    unfolding update_rows_def by (rule map_cong) (simp_all, metis same)
  moreover have "saga_id r \<in> saga_id ` set (saga_instances d)" using r by simp
  ultimately show ?thesis
    by (simp add: put_saga_def upsert_def id replace_saga_def Some saga.merge_key)
qed

lemma planned_table_ok:
  assumes ok: "saga_table_ok (saga_instances d)" and ne: "aggregate_id e \<noteq> []"
    and cur: "latest_saga (aggregate_id e) (saga_instances d) = saga"
    and plan: "saga_plan e ts saga = Some (s, c)"
  shows "saga_table_ok (saga_instances (put_saga s t d))"
proof -
  have u: "unique_by saga_id (saga_instances (put_saga s t d))"
    using saga.unique_upsert [of "saga_instances d"] ok by (simp add: put_saga_def saga_table_ok_def)
  have "saga_row_ok x" if "x \<in> set (saga_instances (put_saga s t d))" for x
  proof (cases saga)
    case None
    then show ?thesis
      using that plan_new_ok(1) [OF _ ne] plan ok
      unfolding put_planned_row [OF ok ne cur plan] by (auto simp: saga_table_ok_def)
  next
    case (Some r)
    have "saga_row_ok r" using cur Some latest_saga_mem ok by (auto simp: saga_table_ok_def)
    then have "saga_row_ok (merge_saga t r (new_saga_row t s))" using plan_row_ok plan Some by blast
    then show ?thesis
      using that ok unfolding put_planned_row [OF ok ne cur plan] Some
      by (auto simp: replace_saga_def set_update_rows saga_table_ok_def)
  qed
  with u show ?thesis by (simp add: saga_table_ok_def)
qed

text \<open>What a planned write does to a row that exists.\<close>

lemma planned_row_after:
  assumes ok: "saga_table_ok (saga_instances d)" and ne: "aggregate_id e \<noteq> []"
    and cur: "latest_saga (aggregate_id e) (saga_instances d) = saga"
    and plan: "saga_plan e ts saga = Some (s, c)"
    and row: "lookup_row saga_id k (saga_instances d) = Some r"
  shows "\<exists>r'. lookup_row saga_id k (saga_instances (put_saga s t d)) = Some r' \<and>
           sg_aggregate_id r' = sg_aggregate_id r \<and>
           (r' = r \<or> (sg_aggregate_id r = aggregate_id e \<and> saga_step (state r) (event_type e) (state r')))"
proof (cases saga)
  case None
  then show ?thesis
    using row unfolding put_planned_row [OF ok ne cur plan] by (simp add: lookup_row_append)
next
  case (Some q)
  have q: "q \<in> set (saga_instances d)" "sg_aggregate_id q = aggregate_id e"
    using cur Some latest_saga_mem by auto
  let ?q = "merge_saga t q (new_saga_row t s)"
  have id: "saga_id ?q = saga_id q" by (rule saga.merge_key)
  have step: "saga_step (state q) (event_type e) (state ?q)"
    using plan_follows_graph plan Some by (simp add: merge_new_saga)
  have "lookup_row saga_id k (saga_instances (put_saga s t d)) = Some (if saga_id r = saga_id q then ?q else r)"
    using row unfolding put_planned_row [OF ok ne cur plan] Some
    by (simp add: replace_saga_def lookup_row_update_rows id)
  moreover have "r = q" if "saga_id r = saga_id q"
    using unique_row [of saga_id "saga_instances d" r q] that q(1) row lookup_row_Some [OF row] ok
    by (simp add: saga_table_ok_def)
  ultimately show ?thesis using step q(2) by (auto simp: merge_new_saga)
qed

section \<open>Runs of processEvent\<close>

text \<open>C1: refinement.  Under every fault script of database and broker, \<open>processEvent\<close> of the
  saga orchestrator either leaves the database and the message log alone (and then it throws,
  or the transition table has nothing to do), or it writes exactly the row that the
  transition table \<open>saga_plan\<close> gives for the stored saga and the event, and then sends
  its commands in order: all of them when it returns, a prefix of them when it throws.
  When nothing fails it returns.\<close>

theorem saga_refines_plan:
  assumes "aggregate_id e \<noteq> []"
  shows "(let r = fst (saga_processEvent e w); w' = snd (saga_processEvent e w);
              saga = latest_saga (aggregate_id e) (saga_instances (db w))
          in ((db w' = db w \<and> bus w' = bus w \<and> (r = Inr () \<longrightarrow> (\<forall>ts. saga_plan e ts saga = None))) \<or>
              (\<exists>ts s cmds t ms. saga_plan e ts saga = Some (s, cmds) \<and> db w' = put_saga s t (db w) \<and>
                 bus w' = bus w @ ms \<and> sent r cmds ms)) \<and>
             (db_script w = [] \<longrightarrow> kafka_script w = [] \<longrightarrow> r = Inr ()))"
  using saga_run_refines [OF assms, of w] by (metis prod.collapse)

theorem saga_refines_plan_witness:
  "\<exists>s cmds t ms. saga_plan demo_order [] None = Some (s, cmds) \<and>
     db (snd (saga_processEvent demo_order demo_world)) = put_saga s t (db demo_world) \<and>
     bus (snd (saga_processEvent demo_order demo_world)) = ms \<and> list_all2 is_command cmds ms"
proof -
  have "aggregate_id demo_order \<noteq> []" "event_type demo_order = OrderCreated" by (simp_all add: demo_order_def)
  then show ?thesis
    using saga_refines_plan [of demo_order demo_world] by (auto simp: Let_def saga_plan_def sent_def)
qed

section \<open>The invariant, the state graph and the terminal states\<close>

lemma run_cases:
  assumes "aggregate_id e \<noteq> []"
  obtains (idle) "db (snd (saga_processEvent e w)) = db w" "bus (snd (saga_processEvent e w)) = bus w"
  | (planned) ts s cmds t ms where
      "saga_plan e ts (latest_saga (aggregate_id e) (saga_instances (db w))) = Some (s, cmds)"
      "db (snd (saga_processEvent e w)) = put_saga s t (db w)"
      "bus (snd (saga_processEvent e w)) = bus w @ ms" "sent (fst (saga_processEvent e w)) cmds ms"
  using saga_run_refines(1) [OF assms, of w "fst (saga_processEvent e w)" "snd (saga_processEvent e w)"]
  by auto

text \<open>One relation collects what holds of every step.\<close>

definition saga_after :: "world \<Rightarrow> world \<Rightarrow> bool" where
  "saga_after w w' \<longleftrightarrow>
     (saga_table_ok (saga_instances (db w)) \<longrightarrow>
        saga_table_ok (saga_instances (db w')) \<and>
        (\<forall>k r. lookup_row saga_id k (saga_instances (db w)) = Some r \<longrightarrow>
           (\<exists>r'. lookup_row saga_id k (saga_instances (db w')) = Some r' \<and>
                 sg_aggregate_id r' = sg_aggregate_id r \<and>
                 (terminal (state r) \<longrightarrow> r' = r))))"

interpretation sagas: run_preorder saga_after
proof
  show "saga_after w w" for w by (simp add: saga_after_def)
  show "saga_after u x" if "saga_after u v" "saga_after v x" for u v x
    using that unfolding saga_after_def by metis
qed

lemma saga_after_processEvent:
  assumes ne: "aggregate_id e \<noteq> []"
  shows "run_follows saga_after (saga_processEvent e)"
  unfolding run_follows_def
proof
  fix w
  show "saga_after w (snd (saga_processEvent e w))"
    using ne
  proof (cases rule: run_cases [of e w])
    case idle
    then show ?thesis by (simp add: saga_after_def)
  next
    case (planned ts s cmds t ms)
    show ?thesis
      unfolding saga_after_def
    proof (intro impI conjI allI)
      assume ok: "saga_table_ok (saga_instances (db w))"
      show "saga_table_ok (saga_instances (db (snd (saga_processEvent e w))))"
        using planned_table_ok [OF ok ne refl planned(1)] planned(2) by simp
      fix k r assume row: "lookup_row saga_id k (saga_instances (db w)) = Some r"
      obtain r' where r': "lookup_row saga_id k (saga_instances (put_saga s t (db w))) = Some r'"
        "sg_aggregate_id r' = sg_aggregate_id r"
        "r' = r \<or> (sg_aggregate_id r = aggregate_id e \<and> saga_step (state r) (event_type e) (state r'))"
        using planned_row_after [OF ok ne refl planned(1) row] by blast
      then show "\<exists>r'. lookup_row saga_id k (saga_instances (db (snd (saga_processEvent e w)))) = Some r' \<and>
          sg_aggregate_id r' = sg_aggregate_id r \<and> (terminal (state r) \<longrightarrow> r' = r)"
        using planned(2) by (auto simp: terminal_def)
    qed
  qed
qed

lemma saga_instances_domain [simp]: "saga_instances (domain_tables d) = saga_instances d"
  by (simp add: domain_tables_def)

lemma housekeeping_sagas: "housekeeping w w' \<Longrightarrow> saga_instances (db w') = saga_instances (db w)"
  unfolding housekeeping_def by (metis saga_instances_domain)

lemma saga_after_house: "housekeeping w w' \<Longrightarrow> saga_after w w'"
  by (simp add: housekeeping_sagas saga_after_def)

lemma saga_after_handleMessage:
  "saga_after w (snd (handleMessage saga_name saga_processEvent m w))"
  using sagas.run_handleMessage [OF saga_after_house saga_after_processEvent] by (rule run_followsD)

text \<open>
  What an event does to the sagas, however often its handler is tried: an edge labelled with
  its type followed by another one is an edge again, since no transition but the wait of the
  barrier leads to a state that the same event leaves.
\<close>

lemma saga_step_trans: "saga_step s ty s' \<Longrightarrow> saga_step s' ty s'' \<Longrightarrow> saga_step s ty s''"
  by (auto elim!: saga_step_fromE intro: saga_step.intros)

text \<open>Five of the declared states are entered by no transition.\<close>

lemma saga_step_targets:
  "saga_step s ty s' \<Longrightarrow> s' \<notin> {CREATED, PAYMENT_APPROVED, INVENTORY_RESERVED, FRAUD_APPROVED, SHIPPED}"
  by (auto elim: saga_step_fromE)

definition moves_by :: "envelope \<Rightarrow> saga_row option \<Rightarrow> saga_row option \<Rightarrow> bool" where
  "moves_by e old new \<longleftrightarrow>
     (case (old, new) of
        (None, None) \<Rightarrow> True
      | (None, Some r') \<Rightarrow> sg_aggregate_id r' = aggregate_id e \<and> event_type e = OrderCreated \<and> state r' = PAYMENT_PENDING
      | (Some r, None) \<Rightarrow> False
      | (Some r, Some r') \<Rightarrow> sg_aggregate_id r' = sg_aggregate_id r \<and>
          (r' = r \<or> (sg_aggregate_id r = aggregate_id e \<and> saga_step (state r) (event_type e) (state r'))))"

lemma moves_by_refl [simp]: "moves_by e x x"
  by (simp add: moves_by_def split: option.split)

lemma moves_by_trans: "moves_by e x y \<Longrightarrow> moves_by e y z \<Longrightarrow> moves_by e x z"
proof -
  assume xy: "moves_by e x y" and yz: "moves_by e y z"
  have created: "\<not> saga_step PAYMENT_PENDING OrderCreated s" for s by (auto elim: saga_step_fromE)
  show ?thesis
  proof (cases z)
    case None
    then show ?thesis using xy yz by (auto simp: moves_by_def split: option.splits)
  next
    case (Some r'')
    then show ?thesis
      using xy yz created by (cases x; cases y) (auto simp: moves_by_def intro: saga_step_trans)
  qed
qed

definition sagas_move :: "envelope \<Rightarrow> world \<Rightarrow> world \<Rightarrow> bool" where
  "sagas_move e w w' \<longleftrightarrow>
     (saga_table_ok (saga_instances (db w)) \<longrightarrow> saga_table_ok (saga_instances (db w')) \<and>
        (\<forall>k. moves_by e (lookup_row saga_id k (saga_instances (db w))) (lookup_row saga_id k (saga_instances (db w')))))"

interpretation moving: run_preorder "sagas_move e" for e
proof
  show "sagas_move e w w" for w by (simp add: sagas_move_def)
  show "sagas_move e u x" if "sagas_move e u v" "sagas_move e v x" for u v x
    using that moves_by_trans unfolding sagas_move_def by blast
qed

lemma sagas_move_house: "housekeeping w w' \<Longrightarrow> sagas_move e w w'"
  by (simp add: housekeeping_sagas sagas_move_def)

lemma planned_row_new:
  assumes ok: "saga_table_ok (saga_instances d)" and ne: "aggregate_id e \<noteq> []"
    and cur: "latest_saga (aggregate_id e) (saga_instances d) = saga"
    and plan: "saga_plan e ts saga = Some (s, c)"
    and row: "lookup_row saga_id k (saga_instances d) = None" "lookup_row saga_id k (saga_instances (put_saga s t d)) = Some r'"
  shows "sg_aggregate_id r' = aggregate_id e \<and> event_type e = OrderCreated \<and> state r' = PAYMENT_PENDING"
proof (cases saga)
  case None
  then have "r' = new_saga_row t s"
    using row unfolding put_planned_row [OF ok ne cur plan] by (simp add: lookup_row_append split: if_splits)
  moreover have "event_type e = OrderCreated" using plan None by (simp add: saga_plan_def split: if_splits)
  ultimately show ?thesis using plan_new_ok(3,4) plan None ne by simp
next
  case (Some r)
  have "lookup_row saga_id k (saga_instances (put_saga s t d)) = None"
    using row(1) unfolding put_planned_row [OF ok ne cur plan] Some
    by (auto simp: replace_saga_def lookup_row_None set_update_rows merge_new_saga image_iff split: if_splits)
  then show ?thesis using row(2) by simp
qed

lemma saga_moves_processEvent:
  assumes ne: "aggregate_id e \<noteq> []"
  shows "run_follows (sagas_move e) (saga_processEvent e)"
  unfolding run_follows_def
proof
  fix w
  show "sagas_move e w (snd (saga_processEvent e w))"
    using ne
  proof (cases rule: run_cases [of e w])
    case idle
    then show ?thesis by (simp add: sagas_move_def)
  next
    case (planned ts s cmds t ms)
    show ?thesis
      unfolding sagas_move_def planned(2)
    proof (intro impI conjI allI)
      assume ok: "saga_table_ok (saga_instances (db w))"
      show "saga_table_ok (saga_instances (put_saga s t (db w)))"
        by (rule planned_table_ok [OF ok ne refl planned(1)])
      fix k
      show "moves_by e (lookup_row saga_id k (saga_instances (db w))) (lookup_row saga_id k (saga_instances (put_saga s t (db w))))"
        using planned_row_after [OF ok ne refl planned(1), of k] planned_row_new [OF ok ne refl planned(1), of k]
        unfolding moves_by_def by (cases "lookup_row saga_id k (saga_instances (db w))") (fastforce split: option.split)+
    qed
  qed
qed

text \<open>C10: the state graph.  Whatever message the orchestrator is handed and whatever fails, its
  \<open>handleMessage\<close>, retries and dead-lettering included, leaves the saga table as it is, or
  it has read the message as an event and the sagas have moved by this event: a saga of
  another aggregate is as it was; the saga of the event's aggregate is as it was or in a
  state to which an edge of \<open>saga_step\<close> labelled with the type of the event leads; no saga
  disappears or changes its aggregate; and a saga that appears belongs to an OrderCreated
  event and is PAYMENT\_PENDING.\<close>

theorem saga_moves_along_graph:
  assumes "saga_table_ok (saga_instances (db w))"
  shows "(let w' = snd (handleMessage saga_name saga_processEvent m w)
          in saga_instances (db w') = saga_instances (db w) \<or>
             (\<exists>e v v'. parse_message (em_value m) v = (Inr e, v') \<and>
                (\<forall>k. moves_by e (lookup_row saga_id k (saga_instances (db w))) (lookup_row saga_id k (saga_instances (db w'))))))"
proof (cases rule: handleMessage_cases [of w saga_name saga_processEvent m])
  case rejected
  then show ?thesis by (simp add: housekeeping_sagas)
next
  case (read e v v' w1)
  have "run_follows (sagas_move e) (process_valid saga_name saga_processEvent m e)"
    using saga_moves_processEvent [OF parsed_envelope(1) [OF read(1)]]
    by (rule moving.run_process_valid [rotated]) (rule sagas_move_house)
  then have "sagas_move e w1 (snd (process_valid saga_name saga_processEvent m e w1))" by (rule run_followsD)
  then have "sagas_move e w (snd (handleMessage saga_name saga_processEvent m w))"
    using moving.S_trans [OF sagas_move_house [OF read(2)]] read(3) by simp
  then show ?thesis using assms read(1) unfolding sagas_move_def Let_def by blast
qed

definition demo_pending_saga :: saga_row where
  "demo_pending_saga = demo_saga FRAUD_PENDING [(''user_id'', JStr ''user_1'')]"

lemma demo_pending_ok: "saga_table_ok [demo_pending_saga]" "saga_table_ok [demo_saga COMPLETED []]"
  by (simp_all add: demo_pending_saga_def saga_table_ok_def saga_row_ok_def unique_by_def)

text \<open>A saga whose fraud check is rejected stays or compensates.\<close>

definition demo_rejection_message :: each_message where
  "demo_rejection_message = demo_message\<lparr>em_topic := FraudTopic, em_value := wire_of (js_of_envelope demo_rejection)\<rparr>"

lemma demo_rejection_valid: "valid_envelope demo_rejection"
proof -
  have "iso_prefix ''2024-01-01T00:00:00.000Z''" by code_simp
  moreover have "event_of_name ''FraudRejected'' = FraudRejected" by code_simp
  ultimately show ?thesis by (simp add: demo_rejection_def demo_event_def valid_envelope_def)
qed

lemma rejection_moves:
  assumes "moves_by f (Some demo_pending_saga) x" "event_type f = FraudRejected"
  shows "\<exists>r'. x = Some r' \<and> state r' \<in> {FRAUD_PENDING, COMPENSATING}"
proof (cases x)
  case (Some r')
  then have "r' = demo_pending_saga \<or> saga_step FRAUD_PENDING FraudRejected (state r')"
    using assms by (auto simp: moves_by_def demo_pending_saga_def)
  then show ?thesis using Some by (auto simp: demo_pending_saga_def elim: saga_step_fromE)
qed (use assms in \<open>simp add: moves_by_def\<close>)

theorem saga_moves_along_graph_witness:
  "\<exists>r'. lookup_row saga_id ''saga_ord_1'' (saga_instances (db (snd (handleMessage saga_name saga_processEvent
       demo_rejection_message (with_saga demo_pending_saga demo_world))))) = Some r' \<and> state r' \<in> {FRAUD_PENDING, COMPENSATING}"
proof -
  let ?w = "with_saga demo_pending_saga demo_world"
  let ?w' = "snd (handleMessage saga_name saga_processEvent demo_rejection_message ?w)"
  have old: "lookup_row saga_id ''saga_ord_1'' (saga_instances (db ?w)) = Some demo_pending_saga"
    by (simp add: demo_pending_saga_def)
  have ok: "saga_table_ok (saga_instances (db ?w))" by (simp add: demo_pending_ok)
  consider "saga_instances (db ?w') = saga_instances (db ?w)"
    | e v v' where "parse_message (em_value demo_rejection_message) v = (Inr e, v')"
      "\<And>k. moves_by e (lookup_row saga_id k (saga_instances (db ?w))) (lookup_row saga_id k (saga_instances (db ?w')))"
    using saga_moves_along_graph [OF ok, of demo_rejection_message] unfolding Let_def by blast
  then show ?thesis
  proof cases
    case 1
    then show ?thesis using old by (simp add: demo_pending_saga_def)
  next
    case (2 e v v')
    have "event_type e = FraudRejected"
      using 2(1) parse_message_valid [OF demo_rejection_valid]
      by (auto simp: demo_rejection_message_def demo_rejection_def)
    then show ?thesis using rejection_moves 2(2) [of "''saga_ord_1''"] unfolding old by blast
  qed
qed

text \<open>C7: the invariant of the saga table.  Whatever message the orchestrator is handed and
  whatever fails, \<open>handleMessage\<close> keeps it: one saga per aggregate, named after it; a
  failed, compensating or cancelled saga has a reason; a compensating saga waits for a
  compensation that is not completed; a cancelled saga has completed all that were pending.\<close>

theorem saga_table_invariant:
  assumes "saga_table_ok (saga_instances (db w))"
  shows "saga_table_ok (saga_instances (db (snd (handleMessage saga_name saga_processEvent m w))))"
  using saga_after_handleMessage [of w m] assms unfolding saga_after_def by blast

theorem saga_table_invariant_witness:
  "saga_table_ok (saga_instances (db (snd (handleMessage saga_name saga_processEvent demo_message
     (with_saga demo_pending_saga demo_world)))))"
  by (rule saga_table_invariant) (simp add: demo_pending_ok)

text \<open>Terminal states are final.  No message and no failure makes the orchestrator change
  the row of a saga that is COMPLETED, CANCELLED or FAILED.\<close>

theorem terminal_saga_is_final:
  assumes "saga_table_ok (saga_instances (db w))" "terminal (state r)"
    and "lookup_row saga_id k (saga_instances (db w)) = Some r"
  shows "lookup_row saga_id k (saga_instances (db (snd (handleMessage saga_name saga_processEvent m w)))) = Some r"
  using saga_after_handleMessage [of w m] assms unfolding saga_after_def by fastforce

theorem terminal_saga_is_final_witness:
  "lookup_row saga_id ''saga_ord_1'' (saga_instances (db (snd (handleMessage saga_name saga_processEvent demo_message
     (with_saga (demo_saga COMPLETED []) demo_world))))) = Some (demo_saga COMPLETED [])"
  by (rule terminal_saga_is_final) (simp_all add: demo_pending_ok terminal_def)

section \<open>The single cancellation\<close>

definition is_cancellation :: "string \<Rightarrow> message \<Rightarrow> bool" where
  "is_cancellation agg m \<longleftrightarrow>
     m_topic m = OrdersTopic \<and> m_key m = agg \<and> map_of (m_headers m) ''event-type'' = Some ''OrderCancelled''"

definition cancellations :: "string \<Rightarrow> message list \<Rightarrow> nat" where
  "cancellations agg ms = length (filter (is_cancellation agg) ms)"

definition cancelled_in :: "string \<Rightarrow> database \<Rightarrow> bool" where
  "cancelled_in agg d \<longleftrightarrow> (\<exists>r \<in> set (saga_instances d). sg_aggregate_id r = agg \<and> state r = CANCELLED)"

text \<open>No more cancellations than cancelled sagas.\<close>

definition cancel_once :: "world \<Rightarrow> bool" where
  "cancel_once w \<longleftrightarrow> saga_table_ok (saga_instances (db w)) \<and>
     (\<forall>agg. cancellations agg (bus w) \<le> (if cancelled_in agg (db w) then 1 else 0))"

definition cancel_cmd :: "string \<Rightarrow> emit_params \<Rightarrow> bool" where
  "cancel_cmd agg p \<longleftrightarrow>
     e_topic p = OrdersTopic \<and> e_aggregateId p = agg \<and> event_name (e_eventType p) = ''OrderCancelled''"

lemma command_cancellation: "is_command p m \<Longrightarrow> is_cancellation agg m \<longleftrightarrow> cancel_cmd agg p"
  by (auto simp: is_command_def is_cancellation_def cancel_cmd_def emit_message_def)

lemma cancellations_sent:
  assumes "sent r cmds ms"
  shows "cancellations agg ms \<le> length (filter (cancel_cmd agg) cmds)"
proof -
  have eq: "length (filter (is_cancellation agg) ms) = length (filter (cancel_cmd agg) cs)"
    if "list_all2 is_command cs ms" for cs
    using that by (induction rule: list_all2_induct) (auto simp: command_cancellation)
  have "\<exists>k. list_all2 is_command (take k cmds) ms"
    using assms by (cases r) (auto simp: sent_def intro!: exI [of _ "length cmds"])
  then obtain k where "list_all2 is_command (take k cmds) ms" by blast
  then have "cancellations agg ms = length (filter (cancel_cmd agg) (take k cmds))"
    by (simp add: cancellations_def eq)
  also have "\<dots> \<le> length (filter (cancel_cmd agg) (take k cmds @ drop k cmds))"
    by (simp only: filter_append length_append le_add1)
  finally show ?thesis by simp
qed

lemma plan_cancellations:
  assumes "saga_plan e ts saga = Some (s, cmds)"
  shows "length (filter (cancel_cmd agg) cmds) \<le>
         (if agg = aggregate_id e \<and> sv_state s = CANCELLED \<and> in_state COMPENSATING saga then 1 else 0)"
proof (cases saga)
  case None
  then show ?thesis using assms
    by (auto simp: saga_plan_def plan_order_def cancel_cmd_def reply_def split: if_splits)
next
  case (Some r)
  then show ?thesis using assms
    by (cases "state r")
      (auto simp: plan_defs plan_barrier_def cancel_cmd_def reply_def in_state_def barrier_data_def split: if_splits)
qed

lemma cancellations_append: "cancellations agg (xs @ ys) = cancellations agg xs + cancellations agg ys"
  by (simp add: cancellations_def)

lemma cancelled_persists:
  assumes "saga_after w w'" "saga_table_ok (saga_instances (db w))" "cancelled_in agg (db w)"
  shows "cancelled_in agg (db w')"
proof -
  obtain r where r: "r \<in> set (saga_instances (db w))" "sg_aggregate_id r = agg" "state r = CANCELLED"
    using assms(3) by (auto simp: cancelled_in_def)
  then have "lookup_row saga_id (saga_id r) (saga_instances (db w)) = Some r"
    using saga_of_aggregate(1) assms(2) by blast
  then have "lookup_row saga_id (saga_id r) (saga_instances (db w')) = Some r"
    using assms(1,2) r(3) unfolding saga_after_def terminal_def by fastforce
  then show ?thesis using r lookup_row_Some unfolding cancelled_in_def by fast
qed

lemma cancel_once_processEvent:
  assumes ne: "aggregate_id e \<noteq> []"
  shows "run_follows (\<lambda>w w'. cancel_once w \<longrightarrow> cancel_once w') (saga_processEvent e)"
  unfolding run_follows_def
proof (intro allI impI)
  fix w assume once: "cancel_once w"
  let ?w' = "snd (saga_processEvent e w)"
  have ok: "saga_table_ok (saga_instances (db w))" using once by (simp add: cancel_once_def)
  have after: "saga_after w ?w'" using saga_after_processEvent [OF ne] by (rule run_followsD)
  then have ok': "saga_table_ok (saga_instances (db ?w'))" using ok by (simp add: saga_after_def)
  show "cancel_once ?w'"
    using ne
  proof (cases rule: run_cases [of e w])
    case idle
    then show ?thesis using once by (simp add: cancel_once_def cancelled_in_def)
  next
    case (planned ts s cmds t ms)
    have "cancellations agg (bus ?w') \<le> (if cancelled_in agg (db ?w') then 1 else 0)" for agg
    proof -
      let ?saga = "latest_saga (aggregate_id e) (saga_instances (db w))"
      have sum: "cancellations agg (bus ?w') = cancellations agg (bus w) + cancellations agg ms"
        by (simp add: planned(3) cancellations_append)
      have old: "cancellations agg (bus w) \<le> (if cancelled_in agg (db w) then 1 else 0)"
        using once by (simp add: cancel_once_def)
      have new: "cancellations agg ms \<le>
          (if agg = aggregate_id e \<and> sv_state s = CANCELLED \<and> in_state COMPENSATING ?saga then 1 else 0)"
        using cancellations_sent [OF planned(4)] plan_cancellations [OF planned(1)] le_trans by blast
      show ?thesis
      proof (cases "agg = aggregate_id e \<and> sv_state s = CANCELLED \<and> in_state COMPENSATING ?saga")
        case False
        then have "cancellations agg ms = 0" using new by (simp only: if_False le_zero_eq)
        then have "cancellations agg (bus ?w') \<le> (if cancelled_in agg (db w) then 1 else 0)" using sum old by simp
        then show ?thesis using cancelled_persists [OF after ok, of agg] by (auto split: if_splits)
      next
        case True
        then obtain r where r: "?saga = Some r" "state r = COMPENSATING"
          by (auto simp: in_state_def split: option.splits)
        have r_in: "r \<in> set (saga_instances (db w))" "sg_aggregate_id r = agg"
          using latest_saga_mem [OF r(1)] True by auto
        have "\<not> cancelled_in agg (db w)"
        proof
          assume "cancelled_in agg (db w)"
          then obtain q where "q \<in> set (saga_instances (db w))" "sg_aggregate_id q = agg" "state q = CANCELLED"
            by (auto simp: cancelled_in_def)
          then show False
            using saga_of_aggregate(2) [OF ok, of q] saga_of_aggregate(2) [OF ok, of r] r r_in by simp
        qed
        then have "cancellations agg (bus ?w') \<le> 1" using sum old new True by simp
        moreover have "cancelled_in agg (db ?w')"
        proof -
          let ?r = "merge_saga t r (new_saga_row t s)"
          have "?r \<in> set (saga_instances (db ?w'))"
            using r_in unfolding planned(2) put_planned_row [OF ok ne refl planned(1)] r(1)
            by (auto simp: replace_saga_def set_update_rows saga.merge_key)
          then show ?thesis using True r_in unfolding cancelled_in_def
            by (intro bexI [of _ ?r]) (simp_all add: merge_new_saga)
        qed
        ultimately show ?thesis by simp
      qed
    qed
    then show ?thesis using ok' by (simp add: cancel_once_def)
  qed
qed

lemma cancel_once_step:
  assumes "cancel_once w" "saga_instances (db w') = saga_instances (db w)" "bus w' = bus w @ ms"
    and "\<And>agg. cancellations agg ms = 0"
  shows "cancel_once w'"
  using assms by (simp add: cancel_once_def cancelled_in_def cancellations_append)

interpretation once: run_preorder "\<lambda>w w'. cancel_once w \<longrightarrow> cancel_once w'"
  by unfold_locales auto

lemma dlq_no_cancellation: "list_all (\<lambda>m. m_topic m = DlqTopic) ms \<Longrightarrow> cancellations agg ms = 0"
  by (induction ms) (auto simp: cancellations_def is_cancellation_def)

lemma cancel_once_handleMessage:
  "run_follows (\<lambda>w w'. cancel_once w \<longrightarrow> cancel_once w') (handleMessage saga_name saga_processEvent m)"
proof (rule once.run_handleMessage)
  show "cancel_once w \<longrightarrow> cancel_once w'" if "housekeeping w w'" for w w'
    using that cancel_once_step housekeeping_sagas dlq_no_cancellation
    unfolding housekeeping_def by blast
qed (rule cancel_once_processEvent)

text \<open>
  The life of the system as far as sagas are concerned: the orchestrator handles messages,
  in any order, any number of times, under any fault script; between two of them anything
  else may happen that neither writes sagas nor cancels orders.
\<close>

inductive saga_life :: "world \<Rightarrow> world \<Rightarrow> bool" for w0 where
  life_start: "saga_life w0 w0"
| life_handle: "saga_life w0 w \<Longrightarrow> saga_life w0 (snd (handleMessage saga_name saga_processEvent m w))"
| life_other: "saga_life w0 w \<Longrightarrow> saga_instances (db w') = saga_instances (db w) \<Longrightarrow>
    bus w' = bus w @ ms \<Longrightarrow> (\<And>agg. cancellations agg ms = 0) \<Longrightarrow> saga_life w0 w'"

lemma cancel_once_life: "saga_life w0 w \<Longrightarrow> cancel_once w0 \<Longrightarrow> cancel_once w"
proof (induction rule: saga_life.induct)
  case (life_handle w m)
  then show ?case using run_followsD [OF cancel_once_handleMessage, of w m] by simp
next
  case (life_other w w' ms)
  then show ?case using cancel_once_step by blast
qed

text \<open>C11: an order is cancelled at most once.  In every life of the system that starts with
  no saga and an empty log (redeliveries, retries, failures of the database and of the
  broker with or without effect), the log holds at most one OrderCancelled per order, and
  it holds one only if the saga of that order is CANCELLED.\<close>

theorem order_cancelled_at_most_once:
  assumes "saga_life w0 w" "saga_instances (db w0) = []" "bus w0 = []"
  shows "cancellations agg (bus w) \<le> 1 \<and>
         (cancellations agg (bus w) = 1 \<longrightarrow>
            (\<exists>r \<in> set (saga_instances (db w)). sg_aggregate_id r = agg \<and> state r = CANCELLED))"
proof -
  have "cancel_once w0"
    using assms(2,3) by (simp add: cancel_once_def saga_table_ok_def unique_by_def cancellations_def)
  then have "cancel_once w" using cancel_once_life assms(1) by blast
  then have "cancellations agg (bus w) \<le> (if cancelled_in agg (db w) then 1 else 0)"
    by (simp add: cancel_once_def)
  then show ?thesis by (auto simp: cancelled_in_def split: if_splits)
qed

theorem order_cancelled_at_most_once_witness:
  "cancellations ''ord_1'' (bus (snd (handleMessage saga_name saga_processEvent demo_message demo_world))) \<le> 1"
proof -
  have "saga_life demo_world (snd (handleMessage saga_name saga_processEvent demo_message demo_world))"
    by (intro life_handle life_start)
  from order_cancelled_at_most_once [OF this, of "''ord_1''"] show ?thesis by simp
qed

section \<open>A refused send\<close>

text \<open>After a planned write that announces commands, the same event has nothing to do.\<close>

lemma plan_not_repeated:
  assumes "saga_plan e ts saga = Some (s, cmds)" "cmds \<noteq> []" "sv_state s = state r'"
  shows "saga_plan e ts' (Some r') = None"
proof (cases saga)
  case None
  then show ?thesis using assms
    by (auto simp: saga_plan_def plan_order_def new_saga_def split: if_splits)
next
  case (Some r)
  then show ?thesis using assms
    by (cases "state r")
      (auto simp: plan_defs plan_barrier_def advance_def new_saga_def barrier_data_def split: if_splits dest!: sym [of _ "state r'"])
qed

lemma plan_any_time:
  assumes "saga_plan e ts saga = Some (s, c)"
  shows "\<exists>s' c'. saga_plan e ts' saga = Some (s', c') \<and> sv_state s' = sv_state s \<and> (c' = [] \<longleftrightarrow> c = [])"
proof (cases saga)
  case None
  then show ?thesis using assms by (auto simp: saga_plan_def plan_order_def split: if_splits)
next
  case (Some r)
  then show ?thesis using assms
    by (cases "state r") (auto simp: plan_defs plan_barrier_def advance_def split: if_splits)
qed

text \<open>After a planned write the aggregate has the planned saga.\<close>

lemma latest_after_plan:
  assumes ok: "saga_table_ok (saga_instances d)" and ne: "aggregate_id e \<noteq> []"
    and cur: "latest_saga (aggregate_id e) (saga_instances d) = saga"
    and plan: "saga_plan e ts saga = Some (s, c)"
  shows "\<exists>r'. latest_saga (aggregate_id e) (saga_instances (put_saga s t d)) = Some r' \<and> state r' = sv_state s"
proof -
  have ok': "saga_table_ok (saga_instances (put_saga s t d))"
    using planned_table_ok [OF ok ne cur plan] .
  have "\<exists>r' \<in> set (saga_instances (put_saga s t d)). sg_aggregate_id r' = aggregate_id e \<and> state r' = sv_state s"
  proof (cases saga)
    case None
    then show ?thesis
      using plan_new_ok(3) [of e ts s c t] plan ne unfolding put_planned_row [OF ok ne cur plan]
      by (auto simp: new_saga_row_def)
  next
    case (Some r)
    have "r \<in> set (saga_instances d)" "sg_aggregate_id r = aggregate_id e"
      using latest_saga_mem cur Some by auto
    then show ?thesis unfolding put_planned_row [OF ok ne cur plan] Some
      by (intro bexI [of _ "merge_saga t r (new_saga_row t s)"])
        (auto simp: merge_new_saga replace_saga_def set_update_rows)
  qed
  then show ?thesis using saga_of_aggregate(2) [OF ok'] by metis
qed

lemma wait_keeps:
  "wait_to_retry l a w = (Inr (), w') \<Longrightarrow>
   db w' = db w \<and> bus w' = bus w \<and> db_script w' = db_script w \<and> kafka_script w' = kafka_script w"
  by (cases "0 < l") (auto simp: wait_to_retry_def run_defs)

lemma mark_done_run:
  "db_script w = [] \<Longrightarrow> markEventProcessed Pool i c st err w = (Inr (), w\<lparr>db := put_processed i c st err (now w) (db w)\<rparr>)"
  by (simp add: markEventProcessed_def writes_def)

lemma lookup_done_run:
  "db_script w = [] \<Longrightarrow> isEventProcessed i c w = (Inr (event_processed i c (db w)), w)"
  by (simp add: isEventProcessed_def selects_def)

lemma saga_instances_processed [simp]:
  "saga_instances (put_processed i c st err t d) = saga_instances d"
  by (simp add: put_processed_def)

text \<open>Two attempts of the retry loop: the first write, whose send is refused, and the second
  look at the saga, which finds nothing to do.\<close>

lemma refused_attempts:
  assumes ne: "aggregate_id e \<noteq> []" and calm: "db_script w = []" and refused: "kafka_script w = [(Refused x, n)]"
    and ok: "saga_table_ok (saga_instances (db w))"
    and plan: "saga_plan e ts (latest_saga (aggregate_id e) (saga_instances (db w))) = Some (s, cmds)" "cmds \<noteq> []"
  shows "\<exists>w'. retry_loop saga_name saga_processEvent e (Suc (Suc left)) 0 None w = (Inr None, w') \<and>
     event_processed (event_id e) saga_name (db w') \<and> bus w' = bus w \<and>
     (\<exists>r'. latest_saga (aggregate_id e) (saga_instances (db w')) = Some r' \<and> state r' = sv_state s)"
proof -
  obtain r w1 where first: "saga_processEvent e w = (r, w1)" by fastforce
  have "saga_plan e ts (latest_saga (aggregate_id e) (saga_instances (db w))) \<noteq> None" using plan by simp
  from saga_run_refines(3) [OF ne first refl calm this]
  obtain ts1 s1 c1 t where p1: "saga_plan e ts1 (latest_saga (aggregate_id e) (saga_instances (db w))) = Some (s1, c1)"
    "db w1 = put_saga s1 t (db w)" "c1 \<noteq> [] \<longrightarrow> refused_run w (r, w1)" by blast
  have s1: "sv_state s1 = sv_state s" "c1 \<noteq> []"
    using plan_any_time [OF plan(1), of ts1] p1(1) plan(2) by auto
  obtain err where w1: "r = Inl err" "bus w1 = bus w" "kafka_script w1 = []"
    using p1(3) s1(2) refused by (auto simp: refused_run_def)
  have d1: "db_script w1 = []" using run_followsD [OF saga_steady(2) [of e], of w] calm first by simp
  obtain w2 where wait: "wait_to_retry (Suc left) 1 w1 = (Inr (), w2)" using wait_returns by blast
  note w2 = wait_keeps [OF wait]
  obtain r' where r': "latest_saga (aggregate_id e) (saga_instances (db w2)) = Some r'" "state r' = sv_state s1"
    using latest_after_plan [OF ok ne refl p1(1)] p1(2) w2 by auto
  have none: "saga_plan e ts' (Some r') = None" for ts'
    using plan_not_repeated [OF p1(1) s1(2)] r'(2) by simp
  obtain q w3 where second: "saga_processEvent e w2 = (q, w3)" by fastforce
  have w3: "db w3 = db w2" "bus w3 = bus w2" "q = Inr ()"
    using saga_run_refines(1) [OF ne second r'(1)] saga_run_refines(2) [OF ne second r'(1)] none w2 d1 w1(3) by auto
  have d3: "db_script w3 = []" using run_followsD [OF saga_steady(2) [of e], of w2] second w2 d1 by simp
  have a1: "try_process saga_name saga_processEvent e w = (Inl err, w1)"
    by (simp add: try_process_def thenE_def bindE_def first w1)
  let ?w4 = "w3\<lparr>db := put_processed (event_id e) saga_name ''PROCESSED'' None (now w3) (db w3)\<rparr>"
  have "\<exists>w5. try_process saga_name saga_processEvent e w2 = (Inr (), w5) \<and> db w5 = db ?w4 \<and> bus w5 = bus w3"
    by (simp add: try_process_def thenE_def bindE_def second w3(3) mark_done_run d3 iso_now_def getsE_def)
  then obtain w5 where a2: "try_process saga_name saga_processEvent e w2 = (Inr (), w5)" "db w5 = db ?w4" "bus w5 = bus w3"
    by blast
  have "retry_loop saga_name saga_processEvent e (Suc (Suc left)) 0 None w = (Inr None, w5)"
    using wait by (simp add: tryE_run thenE_def bindE_def returnE_def a1 a2)
  then show ?thesis using a2(2,3) w3 w2 w1(2) r' s1(1) by auto
qed

text \<open>C35: a refused send loses the command.  The database answers; the broker refuses the
  first send and would accept every later one.  For every event for which the table has
  commands to send, \<open>handleMessage\<close> returns normally, the event is marked PROCESSED and the
  saga is in its next state, but nothing was sent: the retry finds the state already
  changed and its guard returns, and a redelivery is skipped as processed.  In particular
  an OrderCancelled can be lost for a saga that is CANCELLED, and a saga can wait forever
  for a command that was never sent.\<close>

theorem refused_send_loses_command:
  assumes "valid_envelope e" "em_value m = wire_of (js_of_envelope e)"
    and "db_script w = []" "kafka_script w = [(Refused x, n)]"
    and "saga_table_ok (saga_instances (db w))" "\<not> event_processed (event_id e) saga_name (db w)"
    and "saga_plan (e\<lparr>payload := obj_json (payload e)\<rparr>) ts
           (latest_saga (aggregate_id e) (saga_instances (db w))) = Some (s, cmds)" "cmds \<noteq> []"
  shows "\<exists>w'. handleMessage saga_name saga_processEvent m w = (Inr (), w') \<and>
           event_processed (event_id e) saga_name (db w') \<and> bus w' = bus w \<and>
           (\<exists>r'. latest_saga (aggregate_id e) (saga_instances (db w')) = Some r' \<and> state r' = sv_state s)"
proof -
  let ?e = "e\<lparr>payload := obj_json (payload e)\<rparr>"
  let ?w = "w\<lparr>consumers := (consumers w)(saga_name := (consumers w saga_name)
      \<lparr>lastEventTimestamp := Some (toISOString (now w))\<rparr>)\<rparr>"
  have "aggregate_id ?e \<noteq> []" using assms(1) by (simp add: valid_envelope_def)
  from refused_attempts [OF this, of ?w x n ts s cmds 1] assms
  obtain w' where loop: "retry_loop saga_name saga_processEvent ?e 3 0 None ?w = (Inr None, w')"
    and w': "event_processed (event_id e) saga_name (db w')" "bus w' = bus w"
      "\<exists>r'. latest_saga (aggregate_id e) (saga_instances (db w')) = Some r' \<and> state r' = sv_state s"
    by (auto simp: numeral_3_eq_3 simp del: retry_loop.simps)
  have "handleMessage saga_name saga_processEvent m w = (Inr (), w')"
    using assms(3,6) loop
    by (simp add: handleMessage_def bindE_def thenE_def iso_now_def getsE_def assms(2) parse_result_valid [OF assms(1)]
        process_valid_def lookup_done_run maxRetries_def returnE_def)
  then show ?thesis using w' by blast
qed

theorem refused_send_loses_command_witness:
  "\<exists>w' r'. handleMessage saga_name saga_processEvent demo_message
       (demo_world\<lparr>kafka_script := [(Refused ''broker down'', 0)]\<rparr>) = (Inr (), w') \<and>
     event_processed ''evt_1'' saga_name (db w') \<and> bus w' = [] \<and>
     latest_saga ''ord_1'' (saga_instances (db w')) = Some r' \<and> state r' = PAYMENT_PENDING"
proof -
  let ?w = "demo_world\<lparr>kafka_script := [(Refused ''broker down'', 0)]\<rparr>"
  let ?e = "demo_order\<lparr>payload := obj_json (payload demo_order)\<rparr>"
  have id: "aggregate_id demo_order = ''ord_1''" "event_id demo_order = ''evt_1''" "event_type ?e = OrderCreated"
    by (simp_all add: demo_order_def)
  have plan: "saga_plan ?e [] (latest_saga (aggregate_id demo_order) (saga_instances (db ?w))) =
      Some (new_saga ?e None, [reply ?e PaymentsTopic PaymentRequested ''Payment'' (payment_request ?e)])"
    by (simp add: saga_plan_def plan_order_def id(3))
  have "\<exists>w'. handleMessage saga_name saga_processEvent demo_message ?w = (Inr (), w') \<and>
     event_processed (event_id demo_order) saga_name (db w') \<and> bus w' = bus ?w \<and>
     (\<exists>r'. latest_saga (aggregate_id demo_order) (saga_instances (db w')) = Some r' \<and>
           state r' = sv_state (new_saga ?e None))"
    by (rule refused_send_loses_command [OF demo_order_valid _ _ _ _ _ plan])
      (simp_all add: demo_message_def saga_table_ok_def unique_by_def event_processed_def demo_world_def
        createTables_def empty_database_def)
  then show ?thesis by (auto simp: id new_saga_def)
qed

section \<open>The barrier in either order\<close>

lemma saga_kafka_calm: "kafka_script w = [] \<Longrightarrow> kafka_script (snd (saga_processEvent e w)) = []"
proof -
  have send: "run_follows (\<lambda>w w'. kafka_script w = [] \<longrightarrow> kafka_script w' = []) (emit_event n p)" for n p
    unfolding emit_def emit_event_def Let_def
    by (auto intro!: kafka_calm.run_rules split: option.split list.split)
  have "run_follows (\<lambda>w w'. kafka_script w = [] \<longrightarrow> kafka_script w' = []) (saga_case e s)" for s
    by (rule saga_case_cases [where P = "run_follows (\<lambda>w w'. kafka_script w = [] \<longrightarrow> kafka_script w' = [])"];
        (unfold saga_case_defs saveSagaInstance_def getSagaByAggregateIdForUpdate_def)?)
      (intro kafka_calm.run_rules send)+
  then have "run_follows (\<lambda>w w'. kafka_script w = [] \<longrightarrow> kafka_script w' = []) (saga_processEvent e)"
    unfolding saga_processEvent_def getSagaByAggregateId_def by (intro kafka_calm.run_rules)
  then show "kafka_script w = [] \<Longrightarrow> kafka_script (snd (saga_processEvent e w)) = []"
    using run_followsD by blast
qed

lemma barrier_event_plan:
  assumes "state r = COMPENSATING" "event_type e = PaymentRefunded \<and> action = ''PAYMENT_REFUND'' \<or>
      event_type e = InventoryReleased \<and> action = ''INVENTORY_RELEASE''"
  shows "saga_plan e ts (Some r) = Some (plan_barrier e r ts action)"
  using assms by (auto simp: saga_plan_def)

text \<open>One completed compensation in a world without failures.\<close>

lemma barrier_event_run:
  assumes ne: "aggregate_id e \<noteq> []" and calm: "db_script w = []" "kafka_script w = []"
    and ok: "saga_table_ok (saga_instances (db w))"
    and cur: "latest_saga (aggregate_id e) (saga_instances (db w)) = Some r" and st: "state r = COMPENSATING"
    and act: "event_type e = PaymentRefunded \<and> action = ''PAYMENT_REFUND'' \<or>
      event_type e = InventoryReleased \<and> action = ''INVENTORY_RELEASE''"
    and lists: "barrier_lists r p d"
  shows "\<exists>r' ms. latest_saga (aggregate_id e) (saga_instances (db (snd (saga_processEvent e w)))) = Some r' \<and>
     barrier_lists r' p (mark_done d action) \<and>
     state r' = (if set p \<subseteq> set (mark_done d action) then CANCELLED else COMPENSATING) \<and>
     bus (snd (saga_processEvent e w)) = bus w @ ms \<and>
     (set p \<subseteq> set (mark_done d action) \<longrightarrow> length ms = 1 \<and> cancellations (aggregate_id e) ms = 1) \<and>
     (\<not> set p \<subseteq> set (mark_done d action) \<longrightarrow> ms = [])"
proof -
  obtain q w' where run: "saga_processEvent e w = (q, w')" by fastforce
  have q: "q = Inr ()" using saga_run_refines(2) [OF ne run cur calm] .
  obtain ts t ms where p: "db w' = put_saga (barrier_data r (aggregate_id e) action (correlation_id e)) t (db w)"
    "bus w' = bus w @ ms" "list_all2 is_command (snd (plan_barrier e r ts action)) ms"
    using saga_run_refines(1) [OF ne run cur] q barrier_event_plan [OF st act]
    by (auto simp: sent_def plan_barrier_def)
  let ?r = "merge_saga t r (new_saga_row t (barrier_data r (aggregate_id e) action (correlation_id e)))"
  have plan: "saga_plan e ts (Some r) = Some (barrier_data r (aggregate_id e) action (correlation_id e), snd (plan_barrier e r ts action))"
    using barrier_event_plan [OF st act] by (simp add: plan_barrier_def)
  have r: "r \<in> set (saga_instances (db w))" "sg_aggregate_id r = aggregate_id e" using latest_saga_mem [OF cur] by auto
  have row_ok: "saga_row_ok r" using ok r(1) by (simp add: saga_table_ok_def)
  have mem: "?r \<in> set (saga_instances (db w'))"
    using r(1) unfolding p(1) put_planned_row [OF ok ne cur plan]
    by (auto simp: replace_saga_def set_update_rows saga.merge_key)
  have "saga_table_ok (saga_instances (db w'))" using planned_table_ok [OF ok ne cur plan] p(1) by simp
  then have "latest_saga (sg_aggregate_id ?r) (saga_instances (db w')) = Some ?r"
    using mem saga_of_aggregate(2) by blast
  then have latest: "latest_saga (aggregate_id e) (saga_instances (db w')) = Some ?r"
    using r(2) by (simp add: merge_new_saga)
  have ctx: "sg_context ?r = obj_json (obj_put ''compensations_completed'' (JArr (map JStr (mark_done d action))) (sg_context r))"
    by (simp add: merge_new_saga barrier_data_def Let_def barrier_lists_step(1) [OF lists])
  have dist: "distinct (map fst (sg_context r))" using row_ok by (simp add: saga_row_ok_def)
  have l': "barrier_lists ?r p (mark_done d action)"
    using lists act unfolding barrier_lists_def ctx
    by (auto simp: obj_get_json distinct_fst_put dist mark_done_def)
  have st': "state ?r = (if set p \<subseteq> set (mark_done d action) then CANCELLED else COMPENSATING)"
    by (simp add: merge_new_saga barrier_data_def Let_def barrier_lists_step(2) [OF lists])
  have ms: "ms = [] \<longleftrightarrow> \<not> set p \<subseteq> set (mark_done d action)"
    using p(3) by (auto simp: plan_barrier_def barrier_lists_step(2) [OF lists] split: if_splits)
  have one: "length ms = 1 \<and> cancellations (aggregate_id e) ms = 1" if full: "set p \<subseteq> set (mark_done d action)"
  proof -
    obtain m where m: "ms = [m]" "is_command (reply e OrdersTopic OrderCancelled ''Order''
        (order_cancelled (aggregate_id e) ts (cancellation r action))) m"
      using p(3) full by (auto simp: plan_barrier_def barrier_lists_step(2) [OF lists] list_all2_Cons1)
    then show ?thesis
      using command_cancellation [OF m(2), of "aggregate_id e"] by (simp add: cancellations_def cancel_cmd_def reply_def)
  qed
  show ?thesis using latest l' st' p(2) ms one run by auto
qed

text \<open>C23: the compensation barrier.  A saga waits for the release of the stock and the refund
  of the payment.  In a world without failures, whichever of the two completions arrives
  first leaves it COMPENSATING and sends nothing; the second makes it CANCELLED and sends
  exactly one OrderCancelled.\<close>

theorem barrier_waits_for_both:
  assumes "aggregate_id e1 \<noteq> []" "aggregate_id e2 = aggregate_id e1"
    and "event_type e1 = PaymentRefunded \<and> event_type e2 = InventoryReleased \<or>
         event_type e1 = InventoryReleased \<and> event_type e2 = PaymentRefunded"
    and "db_script w = []" "kafka_script w = []" "saga_table_ok (saga_instances (db w))"
    and "latest_saga (aggregate_id e1) (saga_instances (db w)) = Some r" "state r = COMPENSATING"
    and "barrier_lists r [''INVENTORY_RELEASE'', ''PAYMENT_REFUND''] []"
  shows "let w1 = snd (saga_processEvent e1 w); w2 = snd (saga_processEvent e2 w1) in
     (\<exists>r1. latest_saga (aggregate_id e1) (saga_instances (db w1)) = Some r1 \<and> state r1 = COMPENSATING) \<and>
     bus w1 = bus w \<and>
     (\<exists>r2. latest_saga (aggregate_id e1) (saga_instances (db w2)) = Some r2 \<and> state r2 = CANCELLED) \<and>
     (\<exists>m. bus w2 = bus w @ [m] \<and> is_cancellation (aggregate_id e1) m)"
proof -
  obtain a1 a2 where a: "event_type e1 = PaymentRefunded \<and> a1 = ''PAYMENT_REFUND'' \<or>
      event_type e1 = InventoryReleased \<and> a1 = ''INVENTORY_RELEASE''"
    "event_type e2 = PaymentRefunded \<and> a2 = ''PAYMENT_REFUND'' \<or>
      event_type e2 = InventoryReleased \<and> a2 = ''INVENTORY_RELEASE''" "a1 \<noteq> a2"
    "{a1, a2} = {''PAYMENT_REFUND'', ''INVENTORY_RELEASE''}"
    using assms(3) by auto
  let ?p = "[''INVENTORY_RELEASE'', ''PAYMENT_REFUND'']"
  define w1 where "w1 = snd (saga_processEvent e1 w)"
  have d: "mark_done [] a1 = [a1]" "mark_done [a1] a2 = [a1, a2]" using a(3) by (simp_all add: mark_done_def)
  have half: "\<not> set ?p \<subseteq> set [a1]" and full: "set ?p \<subseteq> set [a1, a2]" using a(3,4) by auto
  from barrier_event_run [OF assms(1,4-8) a(1) assms(9)] half
  obtain r1 where r1: "latest_saga (aggregate_id e1) (saga_instances (db w1)) = Some r1"
    "barrier_lists r1 ?p [a1]" "state r1 = COMPENSATING" "bus w1 = bus w"
    unfolding d w1_def [symmetric] by auto
  have calm1: "db_script w1 = []" using run_followsD [OF saga_steady(2) [of e1], of w] assms(4) by (simp add: w1_def)
  have kcalm: "kafka_script w1 = []"
    using saga_kafka_calm [of w e1] assms(5) by (simp add: w1_def)
  have ok1: "saga_table_ok (saga_instances (db w1))"
    using run_followsD [OF saga_after_processEvent [OF assms(1)], of w] assms(6) by (simp add: w1_def saga_after_def)
  have ne2: "aggregate_id e2 \<noteq> []" using assms(1,2) by simp
  from barrier_event_run [OF ne2 calm1 kcalm ok1 _ r1(3) a(2) r1(2)] r1(1) assms(2) full
  obtain r2 ms where r2: "latest_saga (aggregate_id e1) (saga_instances (db (snd (saga_processEvent e2 w1)))) = Some r2"
    "state r2 = CANCELLED" "bus (snd (saga_processEvent e2 w1)) = bus w1 @ ms" "length ms = 1"
    "cancellations (aggregate_id e1) ms = 1"
    unfolding d by auto
  obtain m where m: "ms = [m]" using r2(4) by (auto simp: length_Suc_conv)
  then have "is_cancellation (aggregate_id e1) m"
    using r2(5) by (simp add: cancellations_def split: if_splits)
  then show ?thesis using r1 r2 m by (simp add: Let_def w1_def [symmetric])
qed

definition demo_compensating :: saga_row where
  "demo_compensating = demo_saga COMPENSATING
     [(''user_id'', JStr ''user_1''),
      (''compensations_pending'', JArr [JStr ''INVENTORY_RELEASE'', JStr ''PAYMENT_REFUND'']),
      (''compensations_completed'', JArr [])]"

lemma demo_compensating_ok:
  "barrier_lists demo_compensating [''INVENTORY_RELEASE'', ''PAYMENT_REFUND''] []"
  "saga_table_ok [demo_compensating]"
proof -
  show l: "barrier_lists demo_compensating [''INVENTORY_RELEASE'', ''PAYMENT_REFUND''] []"
    by (simp add: barrier_lists_def demo_compensating_def)
  have "\<exists>p d. barrier_lists demo_compensating p d \<and> \<not> set p \<subseteq> set d"
    using l by (intro exI [of _ "[''INVENTORY_RELEASE'', ''PAYMENT_REFUND'']"] exI [of _ "[]"]) simp
  then have "saga_row_ok demo_compensating"
    by (simp add: saga_row_ok_def demo_compensating_def)
  then show "saga_table_ok [demo_compensating]" by (simp add: saga_table_ok_def unique_by_def)
qed

lemma demo_compensating_agg [simp]:
  "sg_aggregate_id demo_compensating = ''ord_1''" "state demo_compensating = COMPENSATING"
  by (simp_all add: demo_compensating_def)

theorem barrier_waits_for_both_witness:
  "\<exists>m. bus (snd (saga_processEvent (demo_event PaymentRefunded ''evt_4'' [])
          (snd (saga_processEvent (demo_event InventoryReleased ''evt_3'' []) (with_saga demo_compensating demo_world))))) = [m] \<and>
       is_cancellation ''ord_1'' m"
  using barrier_waits_for_both [of "demo_event InventoryReleased ''evt_3'' []" "demo_event PaymentRefunded ''evt_4'' []"
      "with_saga demo_compensating demo_world" demo_compensating] demo_compensating_ok
  by (auto simp: Let_def demo_compensating_agg)

end
