(* ===== verification/Outbox_Relay.thy ===== *)
theory Outbox_Relay
  imports Event_Handler
begin

text \<open>
  \<open>src/src/infrastructure/outbox/outbox-relay.ts\<close>: the relay that moves outbox rows to Kafka.
  The first part is the class as it is written (\<open>publishEvent\<close>, \<open>processBatch\<close>, \<open>trigger\<close>,
  the poll timer, \<open>start\<close>, \<open>stop\<close>).  The second part cuts \<open>processBatch\<close> at its awaits: a
  step relation for any number of relays on one database, crashes included.  Every run of
  \<open>processBatch\<close> is a run of that relation, so what is proved for the steps under every
  interleaving holds for the code.
\<close>

section \<open>The class\<close>

record relay_options =
  op_batchSize :: "nat option"
  op_pollIntervalMs :: "nat option"
  op_workerId :: "string option"
  op_leaseDurationSeconds :: "nat option"

text \<open>
  The fields of a relay.  Timers are numbered: \<open>timers\<close> are the timeouts that are still to
  fire, \<open>pollTimer\<close> is the one the field of that name refers to.
\<close>

record relay =
  isRunning :: bool
  isProcessing :: bool
  batchSize :: nat
  pollIntervalMs :: nat
  workerId :: string
  leaseDurationSeconds :: nat
  pollTimer :: "nat option"
  timers :: "nat list"
  next_timer :: nat

text \<open>\<open>option || default\<close> for a number: zero counts as missing.\<close>

fun or_nat :: "nat option \<Rightarrow> nat \<Rightarrow> nat" where
  "or_nat (Some (Suc n)) d = Suc n"
| "or_nat _ d = d"

definition new_relay :: "relay_options \<Rightarrow> relay op" where
  "new_relay opts =
     bindE (case op_workerId opts of
              Some (c # s) \<Rightarrow> returnE (c # s)
            | _ \<Rightarrow> bindE uuid8 (\<lambda>u. returnE (''relay_'' @ u))) (\<lambda>i.
     returnE
       \<lparr>isRunning = False, isProcessing = False, batchSize = or_nat (op_batchSize opts) 50,
        pollIntervalMs = or_nat (op_pollIntervalMs opts) 150, workerId = i,
        leaseDurationSeconds = or_nat (op_leaseDurationSeconds opts) 30,
        pollTimer = None, timers = [], next_timer = 0\<rparr>)"

subsection \<open>Publishing one row\<close>

definition relay_envelope :: "string \<Rightarrow> outbox_row \<Rightarrow> envelope" where
  "relay_envelope worker r =
     \<lparr>event_id = ob_id r, event_type = ob_event_type r, event_version = ob_event_version r,
      sequence_number = None, aggregate_id = ob_aggregate_id r,
      aggregate_type = ob_aggregate_type r, occurred_at = toISOString (ob_created_at r),
      producer = ''outbox-relay-'' @ worker, correlation_id = ob_correlation_id r,
      causation_id = ob_causation_id r, schema_version = 1, payload = ob_payload r\<rparr>"

definition relay_message :: "string \<Rightarrow> string \<Rightarrow> outbox_row \<Rightarrow> message" where
  "relay_message worker time r =
     \<lparr>m_topic = ob_topic r, m_key = ob_aggregate_id r,
      m_value = wire_of (js_of_envelope (relay_envelope worker r)),
      m_headers =
        [(''correlation-id'', ob_correlation_id r), (''causation-id'', ob_causation_id r),
         (''event-id'', ob_id r), (''event-type'', event_name (ob_event_type r)),
         (''source-service'', ''outbox-relay''), (''worker-id'', worker), (''timestamp'', time)]\<rparr>"

text \<open>The three awaits of \<open>publishEvent\<close>.\<close>

definition send_row :: "string \<Rightarrow> outbox_row \<Rightarrow> unit op" where
  "send_row worker r = bindE iso_now (\<lambda>t. producer_send [relay_message worker t r])"

definition mark_row :: "string \<Rightarrow> outbox_row \<Rightarrow> unit op" where
  "mark_row worker r =
     bindE (markOutboxEventPublished Pool (ob_id r) (Some worker)) (\<lambda>published. returnE ())"

definition fail_row :: "string \<Rightarrow> outbox_row \<Rightarrow> exn \<Rightarrow> unit op" where
  "fail_row worker r e =
     bindE (markOutboxEventFailed Pool (ob_id r) (err_message e) (Some worker)) (\<lambda>failed. returnE ())"

definition publishEvent :: "string \<Rightarrow> outbox_row \<Rightarrow> unit op" where
  "publishEvent worker r = tryE (thenE (send_row worker r) (mark_row worker r)) (fail_row worker r)"

subsection \<open>A sweep\<close>

type_synonym 'a relay_op = "relay \<Rightarrow> world \<Rightarrow> (exn + 'a) \<times> relay \<times> world"

definition claim_batch :: "relay \<Rightarrow> outbox_row list op" where
  "claim_batch r = getPendingOutboxEvents Pool (batchSize r) (workerId r) (leaseDurationSeconds r)"

text \<open>The \<open>try\<close> block of \<open>processBatch\<close>.\<close>

definition sweep :: "relay \<Rightarrow> nat op" where
  "sweep r =
     bindE (claim_batch r) (\<lambda>pendingEvents.
     if pendingEvents = [] then returnE 0
     else thenE (forE pendingEvents (publishEvent (workerId r))) (returnE (length pendingEvents)))"

definition processBatch :: "nat relay_op" where
  "processBatch r w =
     (if isProcessing r then (Inr 0, r, w)
      else let (res, w') = sweep r w in (res, r\<lparr>isProcessing := False\<rparr>, w'))"

definition trigger :: "unit relay_op" where
  "trigger r w =
     (if \<not> isRunning r \<or> isProcessing r then (Inr (), r, w)
      else case processBatch r w of
             (Inl e, r', w') \<Rightarrow> (Inl e, r', w')
           | (Inr n, r', w') \<Rightarrow> (Inr (), r', w'))"

subsection \<open>The poll timer\<close>

definition schedulePoll :: "relay \<Rightarrow> relay" where
  "schedulePoll r =
     (if isRunning r
      then r\<lparr>pollTimer := Some (next_timer r), timers := timers r @ [next_timer r],
             next_timer := Suc (next_timer r)\<rparr>
      else r)"

definition clear_timer :: "relay \<Rightarrow> relay" where
  "clear_timer r =
     (case pollTimer r of None \<Rightarrow> r | Some k \<Rightarrow> r\<lparr>timers := filter (\<lambda>j. j \<noteq> k) (timers r)\<rparr>)"

text \<open>The timer \<open>k\<close> fires: its callback starts.\<close>

definition fire :: "nat \<Rightarrow> relay \<Rightarrow> relay" where
  "fire k r = r\<lparr>timers := filter (\<lambda>j. j \<noteq> k) (timers r)\<rparr>"

text \<open>The callback: an error of the sweep is logged, the next poll is scheduled in any case.\<close>

definition poll :: "nat \<Rightarrow> unit relay_op" where
  "poll k r w = (let (res, r', w') = processBatch (fire k r) w in (Inr (), schedulePoll r', w'))"

definition start_relay :: "unit relay_op" where
  "start_relay r w =
     (if isRunning r then (Inr (), r, w)
      else case kafka_call w of
             (Inl e, w') \<Rightarrow> (Inl e, r, w')
           | (Inr _, w') \<Rightarrow> (Inr (), schedulePoll (r\<lparr>isRunning := True\<rparr>), w'))"

definition stop_relay :: "unit relay_op" where
  "stop_relay r w =
     (let (res, w') = kafka_call w in (res, clear_timer (r\<lparr>isRunning := False\<rparr>), w'))"

section \<open>Relays side by side\<close>

text \<open>
  Where a worker stands: idle; with the rows it still has to publish; after the send of a
  row; on its way to record a failure.
\<close>

datatype relay_pc =
    Idle
  | Publishing "outbox_row list"
  | Sent outbox_row "outbox_row list"
  | Failing outbox_row exn "outbox_row list"

type_synonym system = "world \<times> (string \<Rightarrow> relay_pc)"

text \<open>
  One step of worker \<open>v\<close>: a claim (of any size and lease time), a send, the end of a lease,
  or a crash, after which the worker (or its successor with that name) starts afresh.
\<close>

inductive relay_step :: "string \<Rightarrow> system \<Rightarrow> system \<Rightarrow> bool" for v where
  claim: "pc v = Idle \<Longrightarrow> getPendingOutboxEvents Pool n v s w = (Inr rows, w') \<Longrightarrow>
     relay_step v (w, pc) (w', pc(v := Publishing rows))"
| claim_error: "pc v = Idle \<Longrightarrow> getPendingOutboxEvents Pool n v s w = (Inl e, w') \<Longrightarrow>
     relay_step v (w, pc) (w', pc)"
| send: "pc v = Publishing (r # rest) \<Longrightarrow> send_row v r w = (Inr u, w') \<Longrightarrow>
     relay_step v (w, pc) (w', pc(v := Sent r rest))"
| send_error: "pc v = Publishing (r # rest) \<Longrightarrow> send_row v r w = (Inl e, w') \<Longrightarrow>
     relay_step v (w, pc) (w', pc(v := Failing r e rest))"
| mark: "pc v = Sent r rest \<Longrightarrow> mark_row v r w = (Inr u, w') \<Longrightarrow>
     relay_step v (w, pc) (w', pc(v := Publishing rest))"
| mark_error: "pc v = Sent r rest \<Longrightarrow> mark_row v r w = (Inl e, w') \<Longrightarrow>
     relay_step v (w, pc) (w', pc(v := Failing r e rest))"
| fail: "pc v = Failing r e rest \<Longrightarrow> fail_row v r e w = (Inr u, w') \<Longrightarrow>
     relay_step v (w, pc) (w', pc(v := Publishing rest))"
| fail_error: "pc v = Failing r e rest \<Longrightarrow> fail_row v r e w = (Inl e', w') \<Longrightarrow>
     relay_step v (w, pc) (w', pc(v := Idle))"
| finish: "pc v = Publishing [] \<Longrightarrow> relay_step v (w, pc) (w, pc(v := Idle))"
| crash: "relay_step v (w, pc) (w, pc(v := Idle))"

inductive_cases relay_stepE: "relay_step v (w, pc) (w', pc')"

text \<open>
  What the rest of the program does meanwhile: rows are added to the outbox (in the
  transactions of \<open>OrderService\<close>), messages to the log, other tables change, time passes.
\<close>

inductive outside_step :: "world \<Rightarrow> world \<Rightarrow> bool" where
  other: "outbox_events (db w') = outbox_events (db w) \<Longrightarrow> bus w' = bus w @ ms \<Longrightarrow>
     now w \<le> now w' \<Longrightarrow> outside_step w w'"
| added: "outbox_events (db w') = insert_ignore ob_id (new_outbox_row t e) (outbox_events (db w)) \<Longrightarrow>
     bus w' = bus w @ ms \<Longrightarrow> now w \<le> now w' \<Longrightarrow> outside_step w w'"

text \<open>The runs in which only the workers of \<open>U\<close> take steps.\<close>

inductive relay_run :: "string set \<Rightarrow> system \<Rightarrow> system \<Rightarrow> bool" for U c0 where
  start: "relay_run U c0 c0"
| relay: "relay_run U c0 c \<Longrightarrow> v \<in> U \<Longrightarrow> relay_step v c c' \<Longrightarrow> relay_run U c0 c'"
| outside: "relay_run U c0 (w, pc) \<Longrightarrow> outside_step w w' \<Longrightarrow> relay_run U c0 (w', pc)"

section \<open>What a relay sends\<close>

text \<open>A message that carries an outbox row, from whichever relay and whenever.\<close>

definition carries :: "outbox_row \<Rightarrow> message \<Rightarrow> bool" where
  "carries r m \<longleftrightarrow> (\<exists>v t. m = relay_message v t r)"

definition carried :: "message list \<Rightarrow> outbox_row \<Rightarrow> bool" where
  "carried ms r \<longleftrightarrow> (\<exists>m \<in> set ms. carries r m)"

lemma same_message_fields:
  assumes "same_message r r'"
  shows "ob_aggregate_id r' = ob_aggregate_id r" "ob_aggregate_type r' = ob_aggregate_type r"
    "ob_event_type r' = ob_event_type r" "ob_event_version r' = ob_event_version r"
    "ob_correlation_id r' = ob_correlation_id r" "ob_causation_id r' = ob_causation_id r"
  using assms by (cases r, cases r', simp add: same_message_def)+

lemma same_relay_message: "same_message r r' \<Longrightarrow> relay_message v t r' = relay_message v t r"
  by (simp add: relay_message_def relay_envelope_def same_message_fields)
    (simp add: same_message_def)

lemma carries_relay_message [simp]: "carries r (relay_message v t r)"
  by (auto simp: carries_def)

lemma carried_same: "same_message r r' \<Longrightarrow> carried ms r' = carried ms r"
  by (simp add: carried_def carries_def same_relay_message)

lemma carried_append [simp]: "carried ms r \<Longrightarrow> carried (ms @ ms') r"
  by (auto simp: carried_def)

lemma same_message_refl [simp]: "same_message r r"
  by (simp add: same_message_def)

lemma same_message_sym: "same_message r r' \<Longrightarrow> same_message r' r"
  by (simp add: same_message_def)

lemma same_message_trans: "same_message r r' \<Longrightarrow> same_message r' r'' \<Longrightarrow> same_message r r''"
  by (simp add: same_message_def)

text \<open>
  The rows that a statement turns into published ones: only those whose identifier is in
  \<open>I\<close>.
\<close>

definition publishes :: "string set \<Rightarrow> database \<Rightarrow> database \<Rightarrow> bool" where
  "publishes I d d' \<longleftrightarrow>
     (\<forall>r' \<in> set (outbox_events d'). \<exists>r \<in> set (outbox_events d). same_message r r' \<and>
        (ob_status r' = ObPublished \<longrightarrow> ob_status r = ObPublished \<or> ob_id r \<in> I))"

interpretation published: db_relation "publishes I"
proof
  show "publishes I d d" for d unfolding publishes_def using same_message_refl by blast
  show "publishes I a c" if ab: "publishes I a b" and bc: "publishes I b c" for a b c
    unfolding publishes_def
  proof
    fix r'' assume "r'' \<in> set (outbox_events c)"
    then obtain r' where r': "r' \<in> set (outbox_events b)" "same_message r' r''"
      "ob_status r'' = ObPublished \<longrightarrow> ob_status r' = ObPublished \<or> ob_id r' \<in> I"
      using bc by (auto simp: publishes_def)
    obtain r where "r \<in> set (outbox_events a)" "same_message r r'"
      "ob_status r' = ObPublished \<longrightarrow> ob_status r = ObPublished \<or> ob_id r \<in> I"
      using ab r'(1) by (auto simp: publishes_def)
    then show "\<exists>r \<in> set (outbox_events a). same_message r r'' \<and>
        (ob_status r'' = ObPublished \<longrightarrow> ob_status r = ObPublished \<or> ob_id r \<in> I)"
      using r' by (intro bexI [of _ r]) (auto simp: same_message_def)
  qed
qed

lemma relay_ops_publish:
  "db_follows (publishes {}) (getPendingOutboxEvents r n v s)"
  "db_follows (publishes {i}) (markOutboxEventPublished r i w')"
  "db_follows (publishes {}) (markOutboxEventFailed r i err w')"
proof -
  have "publishes {} d (d\<lparr>outbox_events := claim [] t n v s (outbox_events d)\<rparr>)" for t d
    by (auto simp: publishes_def claim_def set_update_rows same_message_def)
  then show "db_follows (publishes {}) (getPendingOutboxEvents r n v s)"
    unfolding getPendingOutboxEvents_def
    by (intro published.follows_query) (auto simp: stmt_follows_def claim_stmt_def)
  have "publishes {i} d (d\<lparr>outbox_events := mark_published t i w' (outbox_events d)\<rparr>)" for t d
    by (auto simp: publishes_def mark_published_def set_update_rows same_message_def holds_lease_def)
  then show "db_follows (publishes {i}) (markOutboxEventPublished r i w')"
    unfolding markOutboxEventPublished_def publish_stmt_def
    by (intro published.follows_query stmt_follows_updates)
  have "publishes {} d (d\<lparr>outbox_events := mark_failed i err w' (outbox_events d)\<rparr>)" for d
    by (auto simp: publishes_def mark_failed_def set_update_rows same_message_def holds_lease_def
        split: if_splits)
  then show "db_follows (publishes {}) (markOutboxEventFailed r i err w')"
    unfolding markOutboxEventFailed_def fail_stmt_def
    by (intro published.follows_query stmt_follows_updates)
qed

lemma relay_rows_publish:
  "db_follows (publishes {}) (send_row v r)"
  "db_follows (publishes {ob_id r}) (mark_row v r)"
  "db_follows (publishes {}) (fail_row v r e)"
  unfolding send_row_def mark_row_def fail_row_def
  by (intro published.follows_rules relay_ops_publish)+

lemma relay_rows_after:
  "db_follows (lease_after outbox_events) (send_row v r)"
  "db_follows (lease_after outbox_events) (mark_row v r)"
  "db_follows (lease_after outbox_events) (fail_row v r e)"
  unfolding send_row_def mark_row_def fail_row_def
  by (intro outbox.after.follows_rules outbox_ops_after)+

lemma relay_rows_quiet [inv_rules]: "bus_quiet (mark_row v r)" "bus_quiet (fail_row v r e)"
  unfolding mark_row_def fail_row_def by (intro quiet_bindE quiet_basic quiet_outbox_ops)+

lemma sends_send_row: "sends (carries r) (send_row v r)"
  unfolding send_row_def
  by (intro sends_bindE sends_producer_send quiet_sends quiet_basic) (auto simp: carries_def)

lemma send_row_sent: "send_row v r w = (Inr u, w') \<Longrightarrow> carried (bus w') r"
  by (auto simp: send_row_def run_defs producer_send_def Let_def carried_def
      split: outcome.splits)

section \<open>The invariant of the runs\<close>

fun in_hand :: "relay_pc \<Rightarrow> outbox_row list" where
  "in_hand Idle = []"
| "in_hand (Publishing rows) = rows"
| "in_hand (Sent r rest) = r # rest"
| "in_hand (Failing r e rest) = r # rest"

fun sent_rows :: "relay_pc \<Rightarrow> outbox_row list" where
  "sent_rows (Sent r rest) = [r]"
| "sent_rows _ = []"

definition known :: "database \<Rightarrow> outbox_row \<Rightarrow> bool" where
  "known d r \<longleftrightarrow> (\<exists>r'. lookup_row ob_id (ob_id r) (outbox_events d) = Some r' \<and> same_message r r')"

text \<open>
  The table is sound; a published row has a message on the log; the rows in a worker's hands
  are rows of the table; a row whose send returned is on the log.
\<close>

definition relay_inv :: "system \<Rightarrow> bool" where
  "relay_inv c \<longleftrightarrow>
     (case c of (w, pc) \<Rightarrow>
       lease_table_ok (outbox_events (db w)) \<and>
       (\<forall>r \<in> set (outbox_events (db w)). ob_status r = ObPublished \<longrightarrow> carried (bus w) r) \<and>
       (\<forall>v. \<forall>r \<in> set (in_hand (pc v)). known (db w) r) \<and>
       (\<forall>v. \<forall>r \<in> set (sent_rows (pc v)). carried (bus w) r))"

lemma known_after:
  assumes "lease_after outbox_events d d'" "lease_table_ok (outbox_events d)" "known d r"
  shows "known d' r"
proof -
  obtain r' where "lookup_row ob_id (ob_id r) (outbox_events d) = Some r'" "same_message r r'"
    using assms(3) by (auto simp: known_def)
  moreover obtain r'' where "lookup_row ob_id (ob_id r) (outbox_events d') = Some r''" "row_after r' r''"
    using assms(1,2) calculation(1) by (auto simp: lease_after_def table_after_def)
  ultimately show ?thesis
    by (auto simp: known_def row_after_def intro: same_message_trans)
qed

lemma inv_db_step:
  assumes inv: "relay_inv (w, pc)" and after: "lease_after outbox_events (db w) (db w')"
    and pub: "publishes I (db w) (db w')" and log: "bus w' = bus w @ ms"
    and sent: "\<And>r. r \<in> set (outbox_events (db w)) \<Longrightarrow> ob_id r \<in> I \<Longrightarrow> carried (bus w) r"
  shows "relay_inv (w', pc)"
proof -
  from inv have ok: "lease_table_ok (outbox_events (db w))"
    and pub0: "\<And>r. r \<in> set (outbox_events (db w)) \<Longrightarrow> ob_status r = ObPublished \<Longrightarrow> carried (bus w) r"
    and hand: "\<And>v r. r \<in> set (in_hand (pc v)) \<Longrightarrow> known (db w) r"
    and onlog: "\<And>v r. r \<in> set (sent_rows (pc v)) \<Longrightarrow> carried (bus w) r"
    by (auto simp: relay_inv_def)
  have "carried (bus w) r'" if r': "r' \<in> set (outbox_events (db w'))" "ob_status r' = ObPublished" for r'
  proof -
    obtain r where "r \<in> set (outbox_events (db w))" "same_message r r'"
      "ob_status r = ObPublished \<or> ob_id r \<in> I"
      using pub r' by (auto simp: publishes_def)
    then show ?thesis using pub0 sent carried_same by blast
  qed
  then show ?thesis
    using ok after hand onlog known_after [OF after ok]
    by (auto simp: relay_inv_def lease_after_def log)
qed

lemma inv_pc:
  assumes "relay_inv (w, pc)" "\<And>r. r \<in> set (in_hand p) \<Longrightarrow> known (db w) r"
    and "\<And>r. r \<in> set (sent_rows p) \<Longrightarrow> carried (bus w) r"
  shows "relay_inv (w, pc(v := p))"
  using assms by (auto simp: relay_inv_def)

lemma inv_call:
  assumes "relay_inv (w, pc)" and run: "m w = (x, w')"
    and "db_follows (lease_after outbox_events) m" "db_follows (publishes I) m"
    and "sends P m"
    and "\<And>r. r \<in> set (outbox_events (db w)) \<Longrightarrow> ob_id r \<in> I \<Longrightarrow> carried (bus w) r"
  shows "relay_inv (w', pc)"
proof -
  obtain ms where "bus w' = bus w @ ms"
    using sendsE [OF assms(5), of w] run by auto
  then show ?thesis
    using inv_db_step [OF assms(1)] db_followsD [OF assms(3), of w] db_followsD [OF assms(4), of w]
      assms(6) run by auto
qed

lemma claim_known:
  assumes "lease_table_ok (outbox_events (db w))"
    and "getPendingOutboxEvents Pool n v s w = (Inr rows, w')" and "r \<in> set rows"
  shows "known (db w') r"
proof -
  obtain t where t: "rows = claimed [] t n v s (outbox_events (db w))"
    "outbox_events (db w') = claim [] t n v s (outbox_events (db w))"
    using query_InrD [OF assms(2) [unfolded getPendingOutboxEvents_def]]
    by (auto simp: claim_stmt_def dest: sym)
  then have "r \<in> set (outbox_events (db w'))"
    using set_claimed_subset [of "[]" t n v s "outbox_events (db w)"] assms(3) by auto
  moreover have "unique_by ob_id (outbox_events (db w'))"
    using assms(1) by (simp add: t unique_claim lease_table_ok_def)
  ultimately show ?thesis
    by (auto simp: known_def intro!: exI [of _ r] lookup_row_mem)
qed

lemma relay_inv_step:
  assumes "relay_step v (w, pc) (w', pc')" and inv: "relay_inv (w, pc)"
  shows "relay_inv (w', pc')"
proof -
  have ok: "lease_table_ok (outbox_events (db w))"
    and hand: "\<And>u r. r \<in> set (in_hand (pc u)) \<Longrightarrow> known (db w) r"
    and onlog: "\<And>u r. r \<in> set (sent_rows (pc u)) \<Longrightarrow> carried (bus w) r"
    using inv by (auto simp: relay_inv_def)
  have keeps: "known (db w1) r" if "m w = (x, w1)" "db_follows (lease_after outbox_events) m"
    "r \<in> set (in_hand (pc v))" for m :: "unit op" and x w1 r
    using known_after [OF _ ok hand [OF that(3)]] db_followsD [OF that(2), of w] that(1) by auto
  note quiet = quiet_sends [OF quiet_outbox_ops(2), where P = "\<lambda>_. True"]
    quiet_sends [OF relay_rows_quiet(1), where P = "\<lambda>_. True"]
    quiet_sends [OF relay_rows_quiet(2), where P = "\<lambda>_. True"]
  note called = inv_call [OF inv, where I = "{}"]
  from assms(1) show ?thesis
  proof cases
    case (claim n s rows)
    then show ?thesis
      using called [OF claim(3) outbox_ops_after(2) relay_ops_publish(1) quiet(1)] claim_known [OF ok claim(3)]
      by (auto intro!: inv_pc)
  next
    case (claim_error n s e)
    then show ?thesis
      using called [OF claim_error(3) outbox_ops_after(2) relay_ops_publish(1) quiet(1)] by auto
  next
    case (send r rest u)
    then show ?thesis
      using called [OF send(3) relay_rows_after(1) relay_rows_publish(1) sends_send_row]
        keeps [OF send(3) relay_rows_after(1)] send_row_sent [OF send(3)]
      by (auto intro!: inv_pc)
  next
    case (send_error r rest e)
    then show ?thesis
      using called [OF send_error(3) relay_rows_after(1) relay_rows_publish(1) sends_send_row]
        keeps [OF send_error(3) relay_rows_after(1)]
      by (auto intro!: inv_pc)
  next
    case (mark r rest u)
    have "carried (bus w) r0" if "r0 \<in> set (outbox_events (db w))" "ob_id r0 \<in> {ob_id r}" for r0
      using hand [of r v] onlog [of r v] mark(2) that ok carried_same lookup_row_mem
      by (fastforce simp: known_def lease_table_ok_def)
    then show ?thesis
      using inv_call [OF inv mark(3) relay_rows_after(2) relay_rows_publish(2) quiet(2)]
        keeps [OF mark(3) relay_rows_after(2)] mark by (auto intro!: inv_pc)
  next
    case (mark_error r rest e)
    have "carried (bus w) r0" if "r0 \<in> set (outbox_events (db w))" "ob_id r0 \<in> {ob_id r}" for r0
      using hand [of r v] onlog [of r v] mark_error(2) that ok carried_same lookup_row_mem
      by (fastforce simp: known_def lease_table_ok_def)
    then show ?thesis
      using inv_call [OF inv mark_error(3) relay_rows_after(2) relay_rows_publish(2) quiet(2)]
        keeps [OF mark_error(3) relay_rows_after(2)] mark_error by (auto intro!: inv_pc)
  next
    case (fail r e rest u)
    then show ?thesis
      using called [OF fail(3) relay_rows_after(3) relay_rows_publish(3) quiet(3)]
        keeps [OF fail(3) relay_rows_after(3)]
      by (auto intro!: inv_pc)
  next
    case (fail_error r e rest e')
    then show ?thesis
      using called [OF fail_error(3) relay_rows_after(3) relay_rows_publish(3) quiet(3)]
      by (auto intro!: inv_pc)
  qed (use inv in \<open>auto intro!: inv_pc\<close>)
qed

lemma outside_after: "outside_step w w' \<Longrightarrow> lease_after outbox_events (db w) (db w')"
  by (induction rule: outside_step.induct)
    (simp_all add: lease_after_def lease_table_ok_insert table_after_insert new_rows_ok)

lemma relay_inv_outside:
  assumes "outside_step w w'" and inv: "relay_inv (w, pc)"
  shows "relay_inv (w', pc)"
proof -
  have ok: "lease_table_ok (outbox_events (db w))" using inv by (simp add: relay_inv_def)
  have hand: "known (db w') r" if "r \<in> set (in_hand (pc v))" for v r
    using known_after [OF outside_after [OF assms(1)] ok] that inv by (auto simp: relay_inv_def)
  have old: "ob_status r = ObPublished \<Longrightarrow> r \<in> set (outbox_events (db w)) \<and> carried (bus w') r"
    if "r \<in> set (outbox_events (db w'))" for r
    using assms(1) that inv
    by cases (auto simp: relay_inv_def insert_ignore_def new_outbox_row_def split: if_splits)
  have "carried (bus w') r" if "r \<in> set (sent_rows (pc v))" for v r
    using assms(1) that inv by cases (auto simp: relay_inv_def)
  then show ?thesis
    using hand old ok outside_after [OF assms(1)] by (auto simp: relay_inv_def lease_after_def)
qed

lemma relay_inv_run: "relay_run U c0 c \<Longrightarrow> relay_inv c0 \<Longrightarrow> relay_inv c"
proof (induction rule: relay_run.induct)
  case (relay c v c')
  then show ?case by (cases c, cases c') (auto intro: relay_inv_step)
qed (auto intro: relay_inv_outside)

section \<open>The class runs by these steps\<close>

abbreviation relay_steps :: "string \<Rightarrow> system \<Rightarrow> system \<Rightarrow> bool" where
  "relay_steps v \<equiv> (relay_step v)\<^sup>*\<^sup>*"

lemma steps_run: "relay_steps v c c' \<Longrightarrow> v \<in> U \<Longrightarrow> relay_run U c0 c \<Longrightarrow> relay_run U c0 c'"
  by (induction rule: rtranclp_induct) (auto intro: relay_run.relay)

lemma publishEvent_steps:
  assumes "pc v = Publishing (r # rest)" and run: "publishEvent v r w = (res, w')"
  shows "relay_steps v (w, pc) (w', pc(v := (case res of Inl e \<Rightarrow> Idle | Inr u \<Rightarrow> Publishing rest)))"
proof -
  have failing: "relay_steps v (w1, pc(v := Failing r e rest))
      (w2, pc(v := (case x of Inl e \<Rightarrow> Idle | Inr u \<Rightarrow> Publishing rest)))"
    if "fail_row v r e w1 = (x, w2)" for e w1 w2 x
    using relay_step.fail [of "pc(v := Failing r e rest)" v r e rest w1 _ w2]
      relay_step.fail_error [of "pc(v := Failing r e rest)" v r e rest w1 _ w2] that
    by (cases x) auto
  show ?thesis
  proof (cases "send_row v r w")
    case s: (Pair x w1)
    show ?thesis
    proof (cases x)
      case (Inl e)
      then have "relay_step v (w, pc) (w1, pc(v := Failing r e rest))"
        using s assms(1) by (auto intro: relay_step.send_error)
      moreover have "fail_row v r e w1 = (res, w')"
        using run by (simp add: publishEvent_def tryE_def thenE_def bindE_def s Inl)
      ultimately show ?thesis using failing by (blast intro: converse_rtranclp_into_rtranclp)
    next
      case (Inr u)
      then have 1: "relay_step v (w, pc) (w1, pc(v := Sent r rest))"
        using s assms(1) by (auto intro: relay_step.send)
      show ?thesis
      proof (cases "mark_row v r w1")
        case m: (Pair y w2)
        show ?thesis
        proof (cases y)
          case e: (Inl e)
          then have "relay_step v (w1, pc(v := Sent r rest)) (w2, pc(v := Failing r e rest))"
            using relay_step.mark_error [of "pc(v := Sent r rest)" v r rest w1 e w2] m by simp
          moreover have "fail_row v r e w2 = (res, w')"
            using run by (simp add: publishEvent_def tryE_def thenE_def bindE_def s Inr m e)
          ultimately show ?thesis using 1 failing by (blast intro: converse_rtranclp_into_rtranclp)
        next
          case u: (Inr u')
          then have "relay_step v (w1, pc(v := Sent r rest)) (w2, pc(v := Publishing rest))"
            using relay_step.mark [of "pc(v := Sent r rest)" v r rest w1 u' w2] m by simp
          moreover have "res = Inr u'" "w' = w2"
            using run by (simp_all add: publishEvent_def tryE_def thenE_def bindE_def s Inr m u)
          ultimately show ?thesis using 1 by (auto intro: converse_rtranclp_into_rtranclp)
        qed
      qed
    qed
  qed
qed

lemma publish_all_steps:
  assumes "forE rows (publishEvent v) w = (res, w')"
  shows "relay_steps v (w, pc(v := Publishing rows)) (w', pc(v := Idle))"
  using assms
proof (induction rows arbitrary: w)
  case Nil
  have "relay_step v (w, pc(v := Publishing [])) (w, pc(v := Idle))"
    using relay_step.finish [of "pc(v := Publishing [])" v w] by simp
  moreover have "w' = w" using Nil by (simp add: returnE_def)
  ultimately show ?case by blast
next
  case (Cons r rest)
  obtain x w1 where p: "publishEvent v r w = (x, w1)" by fastforce
  have 1: "relay_steps v (w, pc(v := Publishing (r # rest)))
      (w1, pc(v := (case x of Inl e \<Rightarrow> Idle | Inr u \<Rightarrow> Publishing rest)))"
    using publishEvent_steps [OF _ p, of "pc(v := Publishing (r # rest))" rest] by simp
  show ?case
  proof (cases x)
    case (Inl e)
    then have "w' = w1" using Cons.prems by (simp add: thenE_def bindE_def p)
    then show ?thesis using 1 unfolding Inl sum.case by (simp only:)
  next
    case (Inr u)
    then have "forE rest (publishEvent v) w1 = (res, w')"
      using Cons.prems by (simp add: thenE_def bindE_def p)
    then have "relay_steps v (w1, pc(v := Publishing rest)) (w', pc(v := Idle))"
      by (rule Cons.IH)
    then show ?thesis using 1 unfolding Inr sum.case by (rule rtranclp_trans [rotated])
  qed
qed

lemma sweep_steps:
  assumes "pc (workerId r) = Idle" and "sweep r w = (res, w')"
  shows "relay_steps (workerId r) (w, pc) (w', pc)"
proof -
  let ?v = "workerId r"
  have idle: "pc(?v := Idle) = pc" using assms(1) by auto
  obtain x w1 where c: "getPendingOutboxEvents Pool (batchSize r) ?v (leaseDurationSeconds r) w = (x, w1)"
    by fastforce
  show ?thesis
  proof (cases x)
    case (Inl e)
    then have "relay_step ?v (w, pc) (w1, pc)" using c assms(1) by (auto intro: relay_step.claim_error)
    moreover have "w' = w1" using assms(2) by (simp add: sweep_def claim_batch_def bindE_def c Inl)
    ultimately show ?thesis by auto
  next
    case (Inr rows)
    then have 1: "relay_step ?v (w, pc) (w1, pc(?v := Publishing rows))"
      using c assms(1) by (auto intro: relay_step.claim)
    obtain y where "forE rows (publishEvent ?v) w1 = (y, w')"
      using assms(2)
      by (auto simp: sweep_def claim_batch_def bindE_def thenE_def c Inr returnE_def
          split: if_splits prod.splits sum.splits)
    then have "relay_steps ?v (w1, pc(?v := Publishing rows)) (w', pc)"
      using publish_all_steps idle by metis
    then show ?thesis using 1 by (rule converse_rtranclp_into_rtranclp [rotated])
  qed
qed

section \<open>A lease keeps the others out\<close>

interpretation later: run_preorder "\<lambda>w w'. now w \<le> now w'"
  by unfold_locales auto

lemma later_calls:
  "run_follows (\<lambda>w w'. now w \<le> now w') (query r s)"
  "run_follows (\<lambda>w w'. now w \<le> now w') (producer_send ms)"
  by (auto simp: run_follows_def query_def producer_send_def Let_def after_error_def
      split: outcome.split sum.split)

lemma later_relay:
  "run_follows (\<lambda>w w'. now w \<le> now w') (getPendingOutboxEvents r n v s)"
  "run_follows (\<lambda>w w'. now w \<le> now w') (send_row v x)"
  "run_follows (\<lambda>w w'. now w \<le> now w') (mark_row v x)"
  "run_follows (\<lambda>w w'. now w \<le> now w') (fail_row v x e)"
  unfolding send_row_def mark_row_def fail_row_def outbox_stmt_defs
  by (intro later.run_compose later_calls)+

lemma query_Pool_time:
  "query Pool s w = (x, w') \<Longrightarrow> db w' = db w \<or> (\<exists>y. s (now w') (db w) = Inr (y, db w'))"
  by (auto simp: query_def Let_def after_error_def split: outcome.splits sum.splits)

lemma mem_update_rows: "r \<in> set t \<Longrightarrow> \<not> p r \<Longrightarrow> r \<in> set (update_rows p f t)"
  by (auto simp: set_update_rows image_iff)

definition held_by :: "string \<Rightarrow> outbox_row \<Rightarrow> bool" where
  "held_by v r \<longleftrightarrow> ob_status r = ObProcessing \<and> ob_lease_owner r = Some v"

text \<open>No claim before the time \<open>t\<close> takes the row: its lease lives, or its attempts are used up.\<close>

definition closed_until :: "nat \<Rightarrow> outbox_row \<Rightarrow> bool" where
  "closed_until t r \<longleftrightarrow> 10 \<le> ob_attempts r \<or> (\<exists>e. ob_lease_expires_at r = Some e \<and> t \<le> e)"

lemma step_keeps_held:
  assumes step: "relay_step u (w, pc) (w', pc')" and u: "u \<noteq> v" "u \<noteq> []"
    and ok: "lease_table_ok (outbox_events (db w))" and r: "r \<in> set (outbox_events (db w))"
    and held: "held_by v r" and closed: "closed_until (now w') r"
  shows "r \<in> set (outbox_events (db w'))"
proof -
  have fenced: "\<not> holds_lease i (Some u) r" for i
    using held u by (auto simp: held_by_def holds_lease_def)
  have unclaimed: "ob_id r \<notin> set (claim_ids locked (now w') n (outbox_events (db w)))" for locked n
    using ok r held closed live_lease_not_claimed [of "outbox_events (db w)" r]
      exhausted_not_claimed [of "outbox_events (db w)" r]
    by (auto simp: lease_table_ok_def held_by_def closed_until_def)
  have claim: "r \<in> set (outbox_events (db w'))" if "getPendingOutboxEvents Pool n u s w = (x, w')" for n s x
    using query_Pool_time [OF that [unfolded getPendingOutboxEvents_def]] r unclaimed
    by (auto simp: claim_stmt_def claim_def mem_update_rows dest!: sym [where t = "db w'"])
  have marks: "r \<in> set (outbox_events (db w1))"
    if "markOutboxEventPublished Pool i (Some u) w = (x, w1)" for i x w1
    using query_Pool_time [OF that [unfolded markOutboxEventPublished_def]] r fenced
    by (auto simp: publish_stmt_def updates_def mark_published_def mem_update_rows dest!: sym [where t = "db w1"])
  have fails: "r \<in> set (outbox_events (db w1))"
    if "markOutboxEventFailed Pool i err (Some u) w = (x, w1)" for i err x w1
    using query_Pool_time [OF that [unfolded markOutboxEventFailed_def]] r fenced
    by (auto simp: fail_stmt_def updates_def mark_failed_def mem_update_rows dest!: sym [where t = "db w1"])
  have sends: "r \<in> set (outbox_events (db w'))" if "send_row u q w = (x, w')" for q x
    using db_followsD [of "\<lambda>d d'. d' = d" "send_row u q" w] that r
      keep.follows_rules [where g = "\<lambda>d. d"]
    unfolding send_row_def by (metis snd_conv)
  have mark: "r \<in> set (outbox_events (db w'))" if "mark_row u q w = (x, w')" for q x
    using marks that by (auto simp: mark_row_def bindE_def returnE_def split: prod.splits sum.splits)
  have fail: "r \<in> set (outbox_events (db w'))" if "fail_row u q e w = (x, w')" for q e x
    using fails that by (auto simp: fail_row_def bindE_def returnE_def split: prod.splits sum.splits)
  from step show ?thesis by cases (use claim sends mark fail r in auto)
qed

lemma step_later: "relay_step u (w, pc) (w', pc') \<Longrightarrow> now w \<le> now w'"
  by (erule relay_stepE) (metis run_followsD [OF later_relay(1)] run_followsD [OF later_relay(2)]
      run_followsD [OF later_relay(3)] run_followsD [OF later_relay(4)] snd_conv order_refl)+

lemma step_after: "relay_step u (w, pc) (w', pc') \<Longrightarrow> lease_after outbox_events (db w) (db w')"
  by (erule relay_stepE) (metis db_followsD [OF outbox_ops_after(2)] db_followsD [OF relay_rows_after(1)]
      db_followsD [OF relay_rows_after(2)] db_followsD [OF relay_rows_after(3)] snd_conv
      outbox.after.R_refl)+

section \<open>A sweep without failures\<close>

definition published_row :: "nat \<Rightarrow> outbox_row \<Rightarrow> outbox_row" where
  "published_row t q =
     q\<lparr>ob_status := ObPublished, ob_published_at := Some t, ob_lease_owner := None,
       ob_lease_expires_at := None\<rparr>"

definition publish_ids :: "nat \<Rightarrow> string \<Rightarrow> string list \<Rightarrow> outbox_row \<Rightarrow> outbox_row" where
  "publish_ids t v ids q = (if held_by v q \<and> ob_id q \<in> set ids then published_row t q else q)"

lemma mark_published_ids:
  assumes "v \<noteq> []"
  shows "mark_published t i (Some v) tbl = map (publish_ids t v [i]) tbl"
  using assms
  by (auto simp: mark_published_def update_rows_def publish_ids_def published_row_def holds_lease_def
      held_by_def)

lemma publish_ids_Cons: "publish_ids t v ids (publish_ids t v [i] q) = publish_ids t v (i # ids) q"
  by (auto simp: publish_ids_def published_row_def held_by_def)

lemma publishEvent_done:
  assumes "db_script w = []" "kafka_script w = []" "v \<noteq> []"
  shows "publishEvent v r w =
    (Inr (), w\<lparr>bus := bus w @ [relay_message v (toISOString (now w)) r],
               db := (db w)\<lparr>outbox_events := map (publish_ids (now w) v [ob_id r]) (outbox_events (db w))\<rparr>\<rparr>)"
  using assms
  by (simp add: publishEvent_def send_row_def mark_row_def markOutboxEventPublished_def publish_stmt_def
      updates_def mark_published_ids run_defs)

lemma publish_all_done:
  assumes "db_script w = []" "kafka_script w = []" "v \<noteq> []"
  shows "forE rows (publishEvent v) w =
    (Inr (), w\<lparr>bus := bus w @ map (relay_message v (toISOString (now w))) rows,
               db := (db w)\<lparr>outbox_events :=
                 map (publish_ids (now w) v (map ob_id rows)) (outbox_events (db w))\<rparr>\<rparr>)"
  using assms
proof (induction rows arbitrary: w)
  case Nil
  have "publish_ids (now w) v [] = id" by (auto simp: publish_ids_def)
  then show ?case by (simp add: returnE_def)
next
  case (Cons r rows)
  have "publish_ids t v (map ob_id rows) \<circ> publish_ids t v [ob_id r] = publish_ids t v (map ob_id (r # rows))" for t
    by (auto simp: publish_ids_Cons)
  then show ?case
    using Cons by (simp add: thenE_def bindE_def publishEvent_done)
qed

lemma length_claimed_eq:
  assumes "unique_by ob_id tbl"
  shows "length (claimed [] t limit v s tbl) = min limit (length (filter (eligible t) tbl))"
proof -
  let ?ids = "claim_ids [] t limit tbl"
  let ?s = "sort_key ob_created_at (filter (eligible t) tbl)"
  have ids: "?ids = map ob_id (take limit ?s)" by (simp add: claim_ids_def)
  have "distinct (map ob_id (filter (eligible t) tbl))"
    using assms by (simp add: unique_by_def distinct_map_filter)
  then have "distinct (map ob_id ?s)"
    by (metis distinct_map distinct_sort set_sort sort_key_stable)
  then have "distinct ?ids" by (simp add: ids take_map [symmetric] distinct_take)
  then have "length ?ids = card (set ?ids)" by (simp add: distinct_card)
  also have "set ?ids = set (map ob_id (filter (\<lambda>r. ob_id r \<in> set ?ids) tbl))"
    using claim_ids_mem(2) by (fastforce simp: image_iff)
  also have "card \<dots> = length (map ob_id (filter (\<lambda>r. ob_id r \<in> set ?ids) tbl))"
    using assms by (intro distinct_card) (simp add: distinct_map_filter unique_by_def)
  finally have "length (claimed [] t limit v s tbl) = length ?ids" by (simp add: claimed_def)
  then show ?thesis by (simp add: ids)
qed

end
