(* ===== verification/Outbox_Props.thy ===== *)
theory Outbox_Props
  imports Outbox_Relay Examples
begin

text \<open>
  The properties of the transactional outbox and its relays: delivery at least once and
  exclusion of workers under every interleaving, the batch a sweep publishes, and the two
  ways in which the code loses track of a row or of a timer.
\<close>

section \<open>A concrete outbox\<close>

definition demo_row :: outbox_row where
  "demo_row = new_outbox_row 0
     \<lparr>ev_id = ''evt_1'', ev_aggregateId = ''ord_1'', ev_aggregateType = ''Order'',
      ev_eventType = OrderCreated, ev_eventVersion = Some 1, ev_payload = [],
      ev_correlationId = ''corr_1'', ev_causationId = ''cmd_1'', ev_topic = OrdersTopic\<rparr>"

definition with_outbox :: "outbox_row list \<Rightarrow> world \<Rightarrow> world" where
  "with_outbox rows w = w\<lparr>db := (db w)\<lparr>outbox_events := rows\<rparr>\<rparr>"

definition demo_relay :: relay where
  "demo_relay =
     \<lparr>isRunning = True, isProcessing = False, batchSize = 50, pollIntervalMs = 150,
      workerId = ''relay_1'', leaseDurationSeconds = 30, pollTimer = None, timers = [], next_timer = 0\<rparr>"

lemma with_outbox_simps [simp]:
  "outbox_events (db (with_outbox rows w)) = rows" "db_script (with_outbox rows w) = db_script w"
  "kafka_script (with_outbox rows w) = kafka_script w" "bus (with_outbox rows w) = bus w"
  "now (with_outbox rows w) = now w"
  by (simp_all add: with_outbox_def)

lemma demo_row_simps [simp]:
  "ob_id demo_row = ''evt_1''" "ob_status demo_row = ObPending" "ob_attempts demo_row = 0"
  "ob_lease_owner demo_row = None" "ob_lease_expires_at demo_row = None"
  "ob_published_at demo_row = None" "ob_created_at demo_row = 0"
  by (simp_all add: demo_row_def new_outbox_row_def)

lemma demo_relay_simps [simp]:
  "isRunning demo_relay" "\<not> isProcessing demo_relay" "batchSize demo_relay = 50"
  "workerId demo_relay = ''relay_1''" "leaseDurationSeconds demo_relay = 30"
  by (simp_all add: demo_relay_def)

lemma demo_outbox_ok: "lease_table_ok [demo_row]"
  by (simp add: lease_table_ok_def unique_by_def lease_row_ok_def)

text \<open>A row in the hands of a worker, with the attempts so far.\<close>

definition leased_row :: "string \<Rightarrow> nat \<Rightarrow> outbox_row" where
  "leased_row v n =
     demo_row\<lparr>ob_status := ObProcessing, ob_attempts := n, ob_lease_owner := Some v,
       ob_leased_at := Some 0, ob_lease_expires_at := Some 30000\<rparr>"

lemma leased_row_ok: "0 < n \<Longrightarrow> n \<le> 10 \<Longrightarrow> lease_table_ok [leased_row v n]"
  by (simp add: lease_table_ok_def unique_by_def lease_row_ok_def leased_row_def)

section \<open>Runs of any number of relays\<close>

lemma run_after:
  assumes "relay_run U c c'"
  shows "lease_after outbox_events (db (fst c)) (db (fst c'))"
  using assms
proof (induction rule: relay_run.induct)
  case start
  show ?case by (rule outbox.after.R_refl)
next
  case (relay c1 v c2)
  then show ?case
    using step_after [of v "fst c1" "snd c1" "fst c2" "snd c2"] outbox.after.R_trans by auto
next
  case (outside w pc w')
  then show ?case using outside_after outbox.after.R_trans by fastforce
qed

lemma run_later:
  assumes "relay_run U c c'"
  shows "now (fst c) \<le> now (fst c')"
  using assms
proof (induction rule: relay_run.induct)
  case (relay c1 v c2)
  then show ?case using step_later [of v "fst c1" "snd c1" "fst c2" "snd c2"] by auto
next
  case (outside w pc w')
  from outside(2) have "now w \<le> now w'" by cases
  then show ?case using outside by simp
qed simp

lemma outside_keeps_row:
  "outside_step w w' \<Longrightarrow> r \<in> set (outbox_events (db w)) \<Longrightarrow> r \<in> set (outbox_events (db w'))"
  by (erule outside_step.cases) (auto simp: insert_ignore_def)

lemma run_keeps_held:
  assumes run: "relay_run U (w, pc) c'" and U: "v \<notin> U" "[] \<notin> U"
    and ok: "lease_table_ok (outbox_events (db w))" and r: "r \<in> set (outbox_events (db w))"
    and held: "held_by v r" and closed: "closed_until (now (fst c')) r"
  shows "r \<in> set (outbox_events (db (fst c')))"
  using run closed
proof (induction rule: relay_run.induct)
  case start
  show ?case using r by simp
next
  case (relay c1 u c2)
  have "now (fst c1) \<le> now (fst c2)"
    using relay(3) step_later [of u "fst c1" "snd c1" "fst c2" "snd c2"] by simp
  then have "closed_until (now (fst c1)) r" using relay.prems by (auto simp: closed_until_def)
  then have "r \<in> set (outbox_events (db (fst c1)))" by (rule relay.IH)
  moreover have "lease_table_ok (outbox_events (db (fst c1)))"
    using run_after [OF relay(1)] ok by (simp add: lease_after_def)
  moreover have "u \<noteq> v" "u \<noteq> []" using relay(2) U by auto
  ultimately show ?case
    using step_keeps_held [of u "fst c1" "snd c1" "fst c2" "snd c2" v r] relay(3) held relay.prems by simp
next
  case (outside w1 pc1 w2)
  from outside(2) have "now w1 \<le> now w2" by cases
  then have "closed_until (now w1) r" using outside.prems by (auto simp: closed_until_def)
  then have "r \<in> set (outbox_events (db w1))" using outside.IH by simp
  then show ?case using outside_keeps_row [OF outside(2)] by simp
qed

text \<open>C2: At-least-once delivery. Whatever relays run side by side, crash, lose leases or meet
  failures of Kafka and PostgreSQL, a row of \<open>outbox_events\<close> that has come to be PUBLISHED is on
  the message log: a message with its topic, key, identifiers and payload was sent.\<close>

theorem relay_at_least_once:
  assumes "lease_table_ok (outbox_events (db w))"
    and "\<And>r. r \<in> set (outbox_events (db w)) \<Longrightarrow> ob_status r \<noteq> ObPublished"
    and "relay_run U (w, \<lambda>_. Idle) (w', pc')"
    and "r \<in> set (outbox_events (db w'))" "ob_status r = ObPublished"
  shows "\<exists>m \<in> set (bus w'). \<exists>v t. m = relay_message v t r"
proof -
  have "relay_inv (w, \<lambda>_. Idle)" using assms(1,2) by (auto simp: relay_inv_def)
  from relay_inv_run [OF assms(3) this] show ?thesis
    using assms(4,5) by (auto simp: relay_inv_def carried_def carries_def)
qed

text \<open>C13: The rows of the outbox only progress. In every run the table keeps its invariant (at most
  ten attempts, leases exactly on PROCESSING rows, FAILED only after the tenth attempt), no row
  disappears or changes its message, attempts never decrease, and a PUBLISHED or FAILED row stays
  exactly as it is.\<close>

theorem outbox_rows_only_progress:
  assumes "lease_table_ok (outbox_events (db w))"
    and "relay_run U (w, pc) (w', pc')"
    and "lookup_row ob_id i (outbox_events (db w)) = Some r"
  shows "lease_table_ok (outbox_events (db w')) \<and>
    (\<exists>r'. lookup_row ob_id i (outbox_events (db w')) = Some r' \<and> same_message r r' \<and>
       ob_attempts r \<le> ob_attempts r' \<and> ob_attempts r' \<le> 10 \<and>
       (ob_status r = ObPublished \<or> ob_status r = ObFailed \<longrightarrow> r' = r))"
proof -
  have after: "lease_after outbox_events (db w) (db w')" using run_after [OF assms(2)] by simp
  then have ok: "lease_table_ok (outbox_events (db w'))" using assms(1) by (simp add: lease_after_def)
  obtain r' where r': "lookup_row ob_id i (outbox_events (db w')) = Some r'" "row_after r r'"
    using after assms(1,3) by (auto simp: lease_after_def table_after_def)
  then have "ob_attempts r' \<le> 10"
    using ok lookup_row_Some [OF r'(1)] by (auto simp: lease_table_ok_def lease_row_ok_def)
  then show ?thesis using ok r' by (auto simp: row_after_def)
qed

text \<open>C12: Exclusion. While worker \<open>v\<close> holds the lease of a row and the lease has not expired, no
  step of any other relay changes the row, so it is not claimed, published or failed by them.\<close>

theorem live_lease_excludes_others:
  assumes "relay_run U (w, pc) (w', pc')" and "v \<notin> U" "[] \<notin> U"
    and "lease_table_ok (outbox_events (db w))" and "r \<in> set (outbox_events (db w))"
    and "ob_status r = ObProcessing" "ob_lease_owner r = Some v"
    and "ob_lease_expires_at r = Some e" "now w' \<le> e"
  shows "r \<in> set (outbox_events (db w'))"
  using run_keeps_held [OF assms(1-5)] assms(6-9) by (simp add: held_by_def closed_until_def)

text \<open>C36: A row is stuck when its tenth worker dies. Once the worker that made the tenth claim takes
  no more steps, the row stays PROCESSING for ever: the lease expires, but \<open>attempts < 10\<close> keeps
  every other relay from claiming it, and it is never marked FAILED either.\<close>

theorem exhausted_lease_stuck:
  assumes "relay_run U (w, pc) (w', pc')" and "v \<notin> U" "[] \<notin> U"
    and "lease_table_ok (outbox_events (db w))" and "r \<in> set (outbox_events (db w))"
    and "ob_status r = ObProcessing" "ob_lease_owner r = Some v" "ob_attempts r = 10"
  shows "r \<in> set (outbox_events (db w')) \<and> ob_status r = ObProcessing"
  using run_keeps_held [OF assms(1-5)] assms(6-8) by (simp_all add: held_by_def closed_until_def)

text \<open>C14: The steps are those of the code. A run of \<open>processBatch\<close> by a relay that is not already
  processing is a sequence of steps of that worker from idle to idle, whatever fails on the way,
  and it clears \<open>isProcessing\<close>; a relay that is processing does nothing.\<close>

theorem processBatch_runs_by_steps:
  assumes "pc (workerId r) = Idle" and "processBatch r w = (res, r', w')"
  shows "if isProcessing r then res = Inr 0 \<and> r' = r \<and> w' = w
         else (relay_step (workerId r))\<^sup>*\<^sup>* (w, pc) (w', pc) \<and> \<not> isProcessing r'"
proof (cases "isProcessing r")
  case True
  then show ?thesis using assms(2) by (simp add: processBatch_def)
next
  case False
  then obtain x where "sweep r w = (x, w')" and "r' = r\<lparr>isProcessing := False\<rparr>"
    using assms(2) by (auto simp: processBatch_def split: prod.splits)
  then show ?thesis using False sweep_steps [of pc r w x w'] assms(1) by simp
qed

section \<open>Claims and sweeps\<close>

text \<open>C22: The claim. \<open>getPendingOutboxEvents\<close> leases exactly as many rows as are eligible, up to the
  limit; each belongs to the worker until the lease expires, had fewer than ten attempts and was
  pending or abandoned, and carries the message it carried; an eligible row that was passed over
  is no older than any claimed one; and the claim changes nothing else: the rows it does not
  return, the order of the rows and all other tables are as they were.\<close>

theorem claim_contract:
  assumes ok: "lease_table_ok (outbox_events (db w))"
    and run: "getPendingOutboxEvents Pool n v s w = (Inr rows, w')"
  shows "length rows = min n (length (filter (eligible (now w')) (outbox_events (db w)))) \<and>
    (\<forall>r \<in> set rows. r \<in> set (outbox_events (db w')) \<and> ob_status r = ObProcessing \<and>
       ob_lease_owner r = Some v \<and> ob_lease_expires_at r = Some (now w' + 1000 * s) \<and>
       (\<exists>q \<in> set (outbox_events (db w)). ob_id q = ob_id r \<and> eligible (now w') q \<and>
          ob_attempts r = ob_attempts q + 1 \<and> same_message q r)) \<and>
    (\<forall>r \<in> set rows. \<forall>q \<in> set (outbox_events (db w)).
       eligible (now w') q \<and> ob_id q \<notin> ob_id ` set rows \<longrightarrow> ob_created_at r \<le> ob_created_at q) \<and>
    db w' = (db w)\<lparr>outbox_events := outbox_events (db w')\<rparr> \<and>
    list_all2 (\<lambda>q q'. if ob_id q \<in> ob_id ` set rows then q' \<in> set rows \<and> ob_id q' = ob_id q else q' = q)
      (outbox_events (db w)) (outbox_events (db w'))"
proof -
  let ?tbl = "outbox_events (db w)"
  have stmt: "claim_stmt outbox_events put_outbox n v s (now w') (db w) = Inr (rows, db w')"
    using run unfolding getPendingOutboxEvents_def
    by (auto simp: query_def Let_def claim_stmt_def split: outcome.splits sum.splits)
  then have rows: "rows = claimed [] (now w') n v s ?tbl"
    and tbl': "outbox_events (db w') = claim [] (now w') n v s ?tbl"
    by (auto simp: claim_stmt_def dest: sym)
  have uniq: "unique_by ob_id ?tbl" using ok by (simp add: lease_table_ok_def)
  have count: "length rows = min n (length (filter (eligible (now w')) ?tbl))"
    using length_claimed_eq [OF uniq] by (simp add: rows)
  have leased: "r \<in> set (outbox_events (db w')) \<and> ob_status r = ObProcessing \<and>
           ob_lease_owner r = Some v \<and> ob_lease_expires_at r = Some (now w' + 1000 * s) \<and>
           (\<exists>q \<in> set ?tbl. ob_id q = ob_id r \<and> eligible (now w') q \<and> ob_attempts r = ob_attempts q + 1 \<and> same_message q r)"
    if r: "r \<in> set rows" for r
  proof -
    obtain q where q: "q \<in> set ?tbl" "ob_id q \<in> set (claim_ids [] (now w') n ?tbl)"
      and "r = lease (now w') v s q"
      using r by (auto simp: rows claimed_def)
    then show ?thesis
      using claim_eligible [OF uniq q] set_claimed_subset [of "[]" "now w'" n v s ?tbl] r
      by (auto simp: rows tbl' same_message_def)
  qed
  have oldest: "ob_created_at r \<le> ob_created_at q"
    if r: "r \<in> set rows" and q: "q \<in> set ?tbl" "eligible (now w') q" "ob_id q \<notin> ob_id ` set rows"
    for r q
  proof -
    obtain r0 where r0: "r0 \<in> set ?tbl" "ob_id r0 \<in> set (claim_ids [] (now w') n ?tbl)"
      and req: "r = lease (now w') v s r0"
      using r by (auto simp: rows claimed_def)
    have "ob_id q \<notin> set (claim_ids [] (now w') n ?tbl)"
      using q(1,3) by (auto simp: rows claimed_def image_iff)
    then show ?thesis
      using claim_oldest_first [OF uniq r0 q(1,2)] by (simp add: req)
  qed
  have "db w' = (db w)\<lparr>outbox_events := claim [] (now w') n v s ?tbl\<rparr>"
    using stmt by (simp add: claim_stmt_def)
  then have others: "db w' = (db w)\<lparr>outbox_events := outbox_events (db w')\<rparr>" by simp
  have "ob_id q \<in> ob_id ` set rows \<longleftrightarrow> ob_id q \<in> set (claim_ids [] (now w') n ?tbl)" if "q \<in> set ?tbl" for q
    using that unfolding rows claimed_def by (auto simp: image_iff)
  then have "list_all2 (\<lambda>q q'. if ob_id q \<in> ob_id ` set rows then q' \<in> set rows \<and> ob_id q' = ob_id q else q' = q)
      ?tbl (outbox_events (db w'))"
    unfolding tbl' claim_def update_rows_def by (auto simp: list_all2_conv_all_nth rows claimed_def)
  then show ?thesis using count leased oldest others by blast
qed

lemma claimed_row_published:
  assumes "x \<in> set (claimed [] t n v s tbl)"
  shows "\<exists>y \<in> set (map (publish_ids t' v (map ob_id (claimed [] t n v s tbl))) (claim [] t n v s tbl)).
           ob_id y = ob_id x \<and> ob_status y = ObPublished"
proof -
  have "held_by v x" using assms by (auto simp: claimed_def held_by_def)
  then have "ob_status (publish_ids t' v (map ob_id (claimed [] t n v s tbl)) x) = ObPublished"
    "ob_id (publish_ids t' v (map ob_id (claimed [] t n v s tbl)) x) = ob_id x"
    using assms by (simp_all add: publish_ids_def published_row_def)
  then show ?thesis using assms set_claimed_subset [of "[]" t n v s tbl] by (auto simp del: set_map intro!: bexI)
      (use imageI in \<open>auto\<close>)
qed

lemma claim_done:
  "db_script w = [] \<Longrightarrow> claim_batch r w =
     (let t = now w; v = workerId r; s = leaseDurationSeconds r; n = batchSize r; tbl = outbox_events (db w)
      in (Inr (claimed [] t n v s tbl), w\<lparr>db := (db w)\<lparr>outbox_events := claim [] t n v s tbl\<rparr>\<rparr>))"
  by (simp add: claim_batch_def getPendingOutboxEvents_def claim_stmt_def Let_def)

text \<open>What a sweep without failures leaves: the claimed rows sent and marked, nothing else changed.\<close>

definition swept :: "relay \<Rightarrow> world \<Rightarrow> world" where
  "swept r w =
     (let rows = claimed [] (now w) (batchSize r) (workerId r) (leaseDurationSeconds r) (outbox_events (db w));
          tbl = claim [] (now w) (batchSize r) (workerId r) (leaseDurationSeconds r) (outbox_events (db w))
      in w\<lparr>bus := bus w @ map (relay_message (workerId r) (toISOString (now w))) rows,
           db := (db w)\<lparr>outbox_events := map (publish_ids (now w) (workerId r) (map ob_id rows)) tbl\<rparr>\<rparr>)"

lemma processBatch_run:
  assumes "db_script w = []" "kafka_script w = []" "\<not> isProcessing r" "workerId r \<noteq> []"
  shows "processBatch r w =
    (Inr (length (claimed [] (now w) (batchSize r) (workerId r) (leaseDurationSeconds r) (outbox_events (db w)))), r, swept r w)"
proof -
  let ?t = "now w" and ?v = "workerId r" and ?s = "leaseDurationSeconds r"
    and ?n = "batchSize r" and ?tbl = "outbox_events (db w)"
  define rows where "rows = claimed [] ?t ?n ?v ?s ?tbl"
  define w1 where "w1 = w\<lparr>db := (db w)\<lparr>outbox_events := claim [] ?t ?n ?v ?s ?tbl\<rparr>\<rparr>"
  have w1: "db_script w1 = []" "kafka_script w1 = []" "now w1 = ?t"
    using assms(1,2) by (simp_all add: w1_def)
  have w': "swept r w = w1\<lparr>bus := bus w1 @ map (relay_message ?v (toISOString ?t)) rows,
     db := (db w1)\<lparr>outbox_events := map (publish_ids ?t ?v (map ob_id rows)) (outbox_events (db w1))\<rparr>\<rparr>"
    by (simp add: swept_def Let_def w1_def rows_def)
  have all: "forE rows (publishEvent ?v) w1 = (Inr (), swept r w)"
    using publish_all_done [OF w1(1,2) assms(4), of rows] by (simp add: w' w1(3))
  have none: "swept r w = w1" if "rows = []"
    using all that by (simp add: returnE_def)
  have "sweep r w = (Inr (length rows), swept r w)"
    using all none
    by (cases "rows = []")
      (simp_all add: sweep_def bindE_def thenE_def returnE_def claim_done assms(1) Let_def
        rows_def [symmetric] w1_def [symmetric])
  then show ?thesis
    using assms(3) by (cases r) (simp add: processBatch_def rows_def)
qed

lemma processBatch_sends:
  assumes "db_script w = []" "kafka_script w = []" "\<not> isProcessing r" "workerId r \<noteq> []"
    and "lease_table_ok (outbox_events (db w))"
  shows "\<exists>rows. processBatch r w = (Inr (length rows), r, swept r w) \<and>
    length rows = min (batchSize r) (length (filter (eligible (now w)) (outbox_events (db w)))) \<and>
    bus (swept r w) = bus w @ map (relay_message (workerId r) (toISOString (now w))) rows \<and>
    (\<forall>x \<in> set rows. (\<exists>q \<in> set (outbox_events (db w)). eligible (now w) q \<and> same_message q x) \<and>
       (\<exists>y \<in> set (outbox_events (db (swept r w))). ob_id y = ob_id x \<and> ob_status y = ObPublished)) \<and>
    (length (filter (eligible (now w)) (outbox_events (db w))) \<le> batchSize r \<longrightarrow>
       (\<forall>q \<in> set (outbox_events (db w)). eligible (now w) q \<longrightarrow> (\<exists>x \<in> set rows. same_message q x)))"
proof -
  let ?t = "now w" and ?v = "workerId r" and ?s = "leaseDurationSeconds r"
    and ?n = "batchSize r" and ?tbl = "outbox_events (db w)"
  define rows where "rows = claimed [] ?t ?n ?v ?s ?tbl"
  have uniq: "unique_by ob_id ?tbl" using assms(5) by (simp add: lease_table_ok_def)
  have run: "processBatch r w = (Inr (length rows), r, swept r w)"
    using processBatch_run [OF assms(1-4)] by (simp add: rows_def)
  have "bus (swept r w) = bus w @ map (relay_message ?v (toISOString ?t)) rows"
    by (simp add: swept_def Let_def rows_def)
  moreover have "length rows = min ?n (length (filter (eligible ?t) ?tbl))"
    using length_claimed_eq [OF uniq] by (simp add: rows_def)
  moreover have "\<exists>y \<in> set (outbox_events (db (swept r w))). ob_id y = ob_id x \<and> ob_status y = ObPublished"
    if "x \<in> set rows" for x
    using claimed_row_published [of x ?t ?n ?v ?s ?tbl ?t] that by (simp add: swept_def Let_def rows_def)
  moreover have "\<exists>q \<in> set ?tbl. eligible ?t q \<and> same_message q x" if x: "x \<in> set rows" for x
  proof -
    obtain q where q: "q \<in> set ?tbl" "ob_id q \<in> set (claim_ids [] ?t ?n ?tbl)" "x = lease ?t ?v ?s q"
      using x by (auto simp: rows_def claimed_def)
    then show ?thesis using claim_eligible [OF uniq q(1,2)] by (auto simp: same_message_def)
  qed
  moreover have "\<exists>x \<in> set rows. same_message q x"
    if all: "length (filter (eligible ?t) ?tbl) \<le> ?n" and q: "q \<in> set ?tbl" "eligible ?t q" for q
  proof -
    have "ob_id q \<in> set (claim_ids [] ?t ?n ?tbl)" using all q by (auto simp: claim_ids_def)
    then have "lease ?t ?v ?s q \<in> set rows" using q(1) by (auto simp: rows_def claimed_def)
    moreover have "same_message q (lease ?t ?v ?s q)" by (simp add: same_message_def)
    ultimately show ?thesis by blast
  qed
  ultimately show ?thesis using run by blast
qed

text \<open>Restarting during a sweep leaks a poll timer. When \<open>stop\<close> and \<open>start\<close> happen while a poll
  callback is still running, its \<open>finally\<close> schedules a second timer; the next \<open>stop\<close> clears only the
  last one, so a poll fires on a stopped relay, whose producer is disconnected.\<close>

theorem restart_during_poll_leaks_timer:
  assumes "kafka_script w = []" "isRunning r" "timers r = [k]" "pollTimer r = Some k" "k < next_timer r"
  shows "let r1 = fire k r;
             (_, r2, w2) = stop_relay r1 w;
             (_, r3, w3) = start_relay r2 w2;
             r4 = schedulePoll r3;
             (_, r5, w5) = stop_relay r4 w3
         in timers r4 = [next_timer r, Suc (next_timer r)] \<and> \<not> isRunning r5 \<and> timers r5 = [next_timer r]"
  using assms
  by (simp add: fire_def stop_relay_def start_relay_def schedulePoll_def clear_timer_def kafka_call_def
      Let_def)

section \<open>Witnesses\<close>

definition demo_swept :: world where
  "demo_swept = snd (snd (processBatch demo_relay (with_outbox [demo_row] demo_world)))"

definition demo_published :: outbox_row where
  "demo_published = published_row (now demo_world) (lease (now demo_world) ''relay_1'' 30 demo_row)"

lemma demo_claimed:
  "claimed [] t 50 v s [demo_row] = [lease t v s demo_row]" "claim [] t 50 v s [demo_row] = [lease t v s demo_row]"
  by (simp_all add: claimed_def claim_def claim_ids_def eligible_def)

lemma demo_relay_idle [simp]: "demo_relay\<lparr>isProcessing := False\<rparr> = demo_relay"
  by (simp add: demo_relay_def)

lemma demo_batch:
  "processBatch demo_relay (with_outbox [demo_row] demo_world) = (Inr 1, demo_relay, demo_swept)"
  "outbox_events (db demo_swept) = [demo_published]"
proof -
  have *: "processBatch demo_relay (with_outbox [demo_row] demo_world) =
     (Inr 1, demo_relay, demo_swept) \<and> outbox_events (db demo_swept) = [demo_published]"
    unfolding demo_swept_def
    by (simp add: processBatch_def sweep_def claim_done Let_def demo_claimed bindE_def thenE_def
        publishEvent_done returnE_def demo_published_def publish_ids_def held_by_def)
  then show "processBatch demo_relay (with_outbox [demo_row] demo_world) = (Inr 1, demo_relay, demo_swept)"
    "outbox_events (db demo_swept) = [demo_published]" by blast+
qed

lemma demo_run:
  "relay_run {''relay_1''} (with_outbox [demo_row] demo_world, \<lambda>_. Idle) (demo_swept, \<lambda>_. Idle)"
proof (rule steps_run [OF _ _ relay_run.start])
  show "relay_steps ''relay_1'' (with_outbox [demo_row] demo_world, \<lambda>_. Idle) (demo_swept, \<lambda>_. Idle)"
    using sweep_steps [of "\<lambda>_. Idle" demo_relay "with_outbox [demo_row] demo_world" "Inr 1" demo_swept]
      demo_batch(1) by (simp add: processBatch_def split: prod.splits)
qed simp

theorem relay_at_least_once_witness:
  "\<exists>m \<in> set (bus demo_swept). \<exists>v t. m = relay_message v t demo_published"
  by (rule relay_at_least_once [OF _ _ demo_run])
    (simp_all add: demo_outbox_ok demo_batch(2) demo_published_def published_row_def)

theorem outbox_rows_only_progress_witness:
  "\<exists>r'. lookup_row ob_id ''evt_1'' (outbox_events (db demo_swept)) = Some r' \<and> same_message demo_row r'"
  using outbox_rows_only_progress [OF _ demo_run, of "''evt_1''" demo_row]
  by (auto simp: demo_outbox_ok lookup_row_def)

text \<open>A second relay finds the row leased and leaves it alone.\<close>

definition busy_world :: "nat \<Rightarrow> world" where
  "busy_world n = with_outbox [leased_row ''relay_2'' n] demo_world"

lemma busy_sweep: "sweep demo_relay (busy_world n) = (Inr 0, busy_world n)"
proof -
  have now0: "now (busy_world n) = 0" and quiet: "db_script (busy_world n) = []"
    and tbl: "outbox_events (db (busy_world n)) = [leased_row ''relay_2'' n]"
    by (simp_all add: busy_world_def demo_world_def)
  have none: "claim_ids [] 0 50 [leased_row ''relay_2'' n] = []"
    by (simp add: claim_ids_def eligible_def leased_row_def)
  have same: "busy_world n\<lparr>db := (db (busy_world n))\<lparr>outbox_events := [leased_row ''relay_2'' n]\<rparr>\<rparr> = busy_world n"
    by (simp add: busy_world_def with_outbox_def)
  show ?thesis
    by (simp add: sweep_def bindE_def claim_done quiet tbl now0 Let_def claimed_def claim_def none
        update_rows_def returnE_def same)
qed

text \<open>The second relay sweeps, an hour passes, and it sweeps again.\<close>

lemma busy_run: "relay_run {''relay_1''} (busy_world n, \<lambda>_. Idle) (busy_world n, \<lambda>_. Idle)"
proof (rule steps_run [OF _ _ relay_run.start])
  show "relay_steps ''relay_1'' (busy_world n, \<lambda>_. Idle) (busy_world n, \<lambda>_. Idle)"
    using sweep_steps [of "\<lambda>_. Idle" demo_relay "busy_world n"] busy_sweep by simp
qed simp

lemma busy_later_run:
  "relay_run {''relay_1''} (busy_world n, \<lambda>_. Idle) ((busy_world n)\<lparr>now := 3600000\<rparr>, \<lambda>_. Idle)"
proof (rule relay_run.outside [OF busy_run])
  have "now (busy_world n) = 0" by (simp add: busy_world_def demo_world_def)
  then show "outside_step (busy_world n) ((busy_world n)\<lparr>now := 3600000\<rparr>)"
    by (intro outside_step.other [where ms = "[]"]) simp_all
qed

theorem live_lease_excludes_others_witness:
  "leased_row ''relay_2'' 1 \<in> set (outbox_events (db (snd (sweep demo_relay (busy_world 1)))))"
  unfolding busy_sweep snd_conv
  by (rule live_lease_excludes_others [OF busy_run, where v = "''relay_2''" and e = 30000])
    (simp_all add: leased_row_ok busy_world_def, simp_all add: leased_row_def demo_world_def with_outbox_def)

theorem exhausted_lease_stuck_witness:
  "leased_row ''relay_2'' 10 \<in> set (outbox_events (db ((busy_world 10)\<lparr>now := 3600000\<rparr>))) \<and>
   ob_status (leased_row ''relay_2'' 10) = ObProcessing"
  by (rule exhausted_lease_stuck [OF busy_later_run, where v = "''relay_2''"])
    (simp_all add: busy_world_def leased_row_ok, simp_all add: leased_row_def)

theorem processBatch_runs_by_steps_witness:
  "(relay_step ''relay_1'')\<^sup>*\<^sup>* (with_outbox [demo_row] demo_world, \<lambda>_. Idle) (demo_swept, \<lambda>_. Idle)"
  using processBatch_runs_by_steps [OF _ demo_batch(1), of "\<lambda>_. Idle"] by simp

theorem claim_contract_witness:
  "\<exists>rows w'. getPendingOutboxEvents Pool 50 ''relay_1'' 30 (with_outbox [demo_row] demo_world) = (Inr rows, w') \<and>
     length rows = 1"
proof -
  obtain rows w' where run: "getPendingOutboxEvents Pool 50 ''relay_1'' 30 (with_outbox [demo_row] demo_world) = (Inr rows, w')"
    by (simp add: getPendingOutboxEvents_def claim_stmt_def)
  then have "length rows = 1"
    using claim_contract [OF _ run] by (simp add: demo_outbox_ok eligible_def)
  then show ?thesis using run by blast
qed

theorem restart_during_poll_leaks_timer_witness:
  "let r = demo_relay\<lparr>timers := [0], pollTimer := Some 0, next_timer := 1\<rparr>;
       (_, r2, w2) = stop_relay (fire 0 r) demo_world;
       (_, r3, w3) = start_relay r2 w2;
       (_, r5, w5) = stop_relay (schedulePoll r3) w3
   in \<not> isRunning r5 \<and> timers r5 = [1]"
  using restart_during_poll_leaks_timer
    [of demo_world "demo_relay\<lparr>timers := [0], pollTimer := Some 0, next_timer := 1\<rparr>" 0]
  by (simp add: Let_def split: prod.splits)

end
