(* ===== verification/Read_Model.thy ===== *)
theory Read_Model
  imports Event_Handler
begin

text \<open>
  The SQL of \<open>applyHistoricalEvent\<close> in
  \<open>src/src/application/projections/projection-consumer.ts\<close>: one function on the database per
  statement, with the conversions of its bound parameters.  \<open>Projection\<close> puts them in the
  branches of the \<open>switch\<close>.
\<close>

text \<open>\<open>client.query\<close> of a statement that does not read the clock.\<close>

type_synonym sql = "database \<Rightarrow> exn + database"

definition run_sql :: "sql \<Rightarrow> unit op" where
  "run_sql f = query Client (\<lambda>t d. bind_sum (f d) (\<lambda>d'. Inr ((), d')))"

section \<open>Orders\<close>

text \<open>The \<open>ON CONFLICT\<close> clause of the insert: four columns are overwritten.\<close>

definition merge_order_read :: "order_read_row \<Rightarrow> order_read_row \<Rightarrow> order_read_row" where
  "merge_order_read old excluded =
     old\<lparr>om_status := ''pending'', om_total_amount := om_total_amount excluded,
         om_items := om_items excluded, om_updated_at := om_updated_at excluded\<rparr>"

definition new_order_read :: "envelope \<Rightarrow> exn + order_read_row" where
  "new_order_read e = (let p = obj_get (payload e) in
     bind_sum (text_column 100 (p ''user_id'')) (\<lambda>user.
     bind_sum (pg_decimal (p ''total_amount'')) (\<lambda>amount.
     bind_sum (text_column 10 (js_or (p ''currency'') (JStr ''USD''))) (\<lambda>currency.
     Inr \<lparr>om_order_id = aggregate_id e, om_user_id = user, om_status = ''pending'',
           om_total_amount = amount, om_currency = currency,
           om_items = to_json (js_or (p ''items'') (JArr [])), om_payment_id = None,
           om_reservation_id = None, om_fraud_check_id = None, om_shipment_id = None,
           om_tracking_number = None, om_failure_reason = None, om_created_at = occurred_at e,
           om_updated_at = occurred_at e, om_version = 1\<rparr>))))"

definition insert_order_read :: "envelope \<Rightarrow> sql" where
  "insert_order_read e d =
     bind_sum (new_order_read e) (\<lambda>r.
       Inr (d\<lparr>order_read_model := upsert om_order_id merge_order_read r (order_read_model d)\<rparr>))"

text \<open>\<open>UPDATE order_read_model SET ... WHERE order_id = $1\<close>.\<close>

definition update_order_read :: "string \<Rightarrow> (order_read_row \<Rightarrow> order_read_row) \<Rightarrow> sql" where
  "update_order_read i f d =
     Inr (d\<lparr>order_read_model := update_rows (\<lambda>r. om_order_id r = i) f (order_read_model d)\<rparr>)"

definition set_status :: "string \<Rightarrow> string \<Rightarrow> order_read_row \<Rightarrow> order_read_row" where
  "set_status st ts r = r\<lparr>om_status := st, om_updated_at := ts\<rparr>"

definition set_failure :: "string \<Rightarrow> envelope \<Rightarrow> order_read_row \<Rightarrow> order_read_row" where
  "set_failure st e r =
     r\<lparr>om_status := st, om_failure_reason := pg_param (obj_get (payload e) ''reason''),
       om_updated_at := occurred_at e\<rparr>"

section \<open>Payments and shipments\<close>

definition merge_payment_read :: "payment_read_row \<Rightarrow> payment_read_row \<Rightarrow> payment_read_row" where
  "merge_payment_read old excluded =
     old\<lparr>pm_status := ''AUTHORIZED'', pm_updated_at := pm_updated_at excluded\<rparr>"

definition insert_payment_read :: "envelope \<Rightarrow> sql" where
  "insert_payment_read e d = (let p = obj_get (payload e) in
     bind_sum (text_column 100 (p ''payment_id'')) (\<lambda>i.
     bind_sum (text_column 100 (js_or (p ''user_id'') (JStr ''usr_anonymous''))) (\<lambda>user.
     bind_sum (pg_decimal (p ''amount'')) (\<lambda>amount.
     Inr (d\<lparr>payment_read_model := upsert pm_payment_id merge_payment_read
        \<lparr>pm_payment_id = i, pm_order_id = aggregate_id e, pm_user_id = user, pm_amount = amount,
         pm_status = ''AUTHORIZED'', pm_authorization_code = pg_param (p ''authorization_code''),
         pm_refund_id = None, pm_failure_reason = None, pm_created_at = occurred_at e,
         pm_updated_at = occurred_at e\<rparr> (payment_read_model d)\<rparr>)))))"

definition refund_payment_read :: "envelope \<Rightarrow> sql" where
  "refund_payment_read e d =
     Inr (d\<lparr>payment_read_model := update_rows (\<lambda>r. pm_order_id r = aggregate_id e)
        (\<lambda>r. r\<lparr>pm_status := ''REFUNDED'',
               pm_refund_id := pg_param (js_or (obj_get (payload e) ''refund_id'') (JStr (''ref_'' @ aggregate_id e))),
               pm_updated_at := occurred_at e\<rparr>) (payment_read_model d)\<rparr>)"

definition merge_shipment_read :: "shipment_read_row \<Rightarrow> shipment_read_row \<Rightarrow> shipment_read_row" where
  "merge_shipment_read old excluded =
     old\<lparr>sh_status := ''CREATED'', sh_updated_at := sh_updated_at excluded\<rparr>"

definition insert_shipment_read :: "envelope \<Rightarrow> sql" where
  "insert_shipment_read e d = (let p = obj_get (payload e) in
     bind_sum (text_column 100 (p ''shipment_id'')) (\<lambda>i.
     bind_sum (text_column 100 (p ''tracking_number'')) (\<lambda>tracking.
     bind_sum (text_column 50 (js_or (p ''carrier'') (JStr ''FEDEX''))) (\<lambda>carrier.
     Inr (d\<lparr>shipment_read_model := upsert sh_shipment_id merge_shipment_read
        \<lparr>sh_shipment_id = i, sh_order_id = aggregate_id e, sh_tracking_number = tracking,
         sh_carrier = carrier, sh_status = ''CREATED'',
         sh_estimated_delivery = pg_param (p ''estimated_delivery''),
         sh_created_at = occurred_at e, sh_updated_at = occurred_at e\<rparr> (shipment_read_model d)\<rparr>)))))"

interpretation order_read: keyed_table om_order_id merge_order_read
  by unfold_locales (simp add: merge_order_read_def)

interpretation payment_read: keyed_table pm_payment_id merge_payment_read
  by unfold_locales (simp add: merge_payment_read_def)

interpretation shipment_read: keyed_table sh_shipment_id merge_shipment_read
  by unfold_locales (simp add: merge_shipment_read_def)

section \<open>Stock\<close>

text \<open>
  \<open>reserved_stock + $1\<close> and \<open>GREATEST(0, available_stock - $1)\<close> on INT columns: a result out
  of 32 bits is an error of the statement.
\<close>

definition reserve_row :: "int \<Rightarrow> string \<Rightarrow> inventory_read_row \<Rightarrow> exn + inventory_read_row" where
  "reserve_row n ts r =
     bind_sum (int4 (iv_reserved_stock r + n)) (\<lambda>reserved.
     bind_sum (int4 (iv_available_stock r - n)) (\<lambda>available.
     Inr (r\<lparr>iv_reserved_stock := reserved, iv_available_stock := max 0 available, iv_updated_at := ts\<rparr>)))"

definition release_row :: "int \<Rightarrow> string \<Rightarrow> inventory_read_row \<Rightarrow> exn + inventory_read_row" where
  "release_row n ts r =
     bind_sum (int4 (iv_reserved_stock r - n)) (\<lambda>reserved.
     bind_sum (int4 (iv_available_stock r + n)) (\<lambda>available.
     Inr (r\<lparr>iv_reserved_stock := max 0 reserved, iv_available_stock := available, iv_updated_at := ts\<rparr>)))"

text \<open>An UPDATE whose expressions can fail: the first failing row ends the statement.\<close>

fun update_rows_try :: "('r \<Rightarrow> bool) \<Rightarrow> ('r \<Rightarrow> exn + 'r) \<Rightarrow> 'r list \<Rightarrow> exn + 'r list" where
  "update_rows_try p f [] = Inr []"
| "update_rows_try p f (r # t) =
     bind_sum (if p r then f r else Inr r) (\<lambda>r'. bind_sum (update_rows_try p f t) (\<lambda>t'. Inr (r' # t')))"

definition update_stock :: "(int \<Rightarrow> string \<Rightarrow> inventory_read_row \<Rightarrow> exn + inventory_read_row) \<Rightarrow> js \<Rightarrow> js \<Rightarrow> string \<Rightarrow> sql" where
  "update_stock f quantity sku ts d =
     bind_sum (pg_int (js_or quantity (JNum (Fin 1)))) (\<lambda>n.
     bind_sum (update_rows_try (\<lambda>r. pg_param sku = Some (iv_sku r)) (f n ts) (inventory_read_model d)) (\<lambda>t.
     Inr (d\<lparr>inventory_read_model := t\<rparr>)))"

text \<open>\<open>for (const item of payload.items)\<close>: reading a property of a null element throws.\<close>

definition stock_item :: "(int \<Rightarrow> string \<Rightarrow> inventory_read_row \<Rightarrow> exn + inventory_read_row) \<Rightarrow> string \<Rightarrow> js \<Rightarrow> unit op" where
  "stock_item f ts item =
     bindE (liftE (member item ''quantity'')) (\<lambda>quantity.
     bindE (liftE (member item ''sku'')) (\<lambda>sku.
     run_sql (update_stock f quantity sku ts)))"

definition stock_items :: "(int \<Rightarrow> string \<Rightarrow> inventory_read_row \<Rightarrow> exn + inventory_read_row) \<Rightarrow> envelope \<Rightarrow> unit op" where
  "stock_items f e = forE (array_elems (obj_get (payload e) ''items'')) (stock_item f (occurred_at e))"

section \<open>Facts about the statements\<close>

lemma run_sql_InrD: "run_sql f w = (Inr u, w') \<Longrightarrow> f (db w) = Inr (db w')"
  unfolding run_sql_def by (auto dest!: query_InrD simp: bind_sum_Inr)

lemma run_sql_done:
  "db_script w = [] \<Longrightarrow> \<not> tx_aborted w \<Longrightarrow> f (db w) = Inr d \<Longrightarrow> run_sql f w = (Inr (), w\<lparr>db := d\<rparr>)"
  by (simp add: run_sql_def)

lemma keep_run_sql [frame_rules]:
  "(\<And>d d'. f d = Inr d' \<Longrightarrow> g d' = g d) \<Longrightarrow> db_follows (\<lambda>d d'. g d' = g d) (run_sql f)"
  unfolding run_sql_def by (intro keep.follows_query) (auto simp: stmt_follows_def bind_sum_Inr)

lemma quiet_run_sql [inv_rules]: "bus_quiet (run_sql f)"
  unfolding run_sql_def by (rule quiet_query)

lemma steady_run_sql [inv_rules]:
  "run_follows (\<lambda>w w'. environment w' = environment w) (run_sql f)"
  "run_follows (\<lambda>w w'. db_script w = [] \<longrightarrow> db_script w' = []) (run_sql f)"
  unfolding run_sql_def by (rule steady.run_query db_calm.run_query)+

text \<open>Which table a statement writes.\<close>

lemma read_model_writes:
  "insert_order_read e d = Inr d' \<Longrightarrow> \<exists>t. d' = d\<lparr>order_read_model := t\<rparr>"
  "update_order_read i f d = Inr d' \<Longrightarrow> \<exists>t. d' = d\<lparr>order_read_model := t\<rparr>"
  "insert_payment_read e d = Inr d' \<Longrightarrow> \<exists>t. d' = d\<lparr>payment_read_model := t\<rparr>"
  "refund_payment_read e d = Inr d' \<Longrightarrow> \<exists>t. d' = d\<lparr>payment_read_model := t\<rparr>"
  "insert_shipment_read e d = Inr d' \<Longrightarrow> \<exists>t. d' = d\<lparr>shipment_read_model := t\<rparr>"
  "update_stock h q s ts d = Inr d' \<Longrightarrow> \<exists>t. d' = d\<lparr>inventory_read_model := t\<rparr>"
  by (auto simp: insert_order_read_def update_order_read_def insert_payment_read_def
      refund_payment_read_def insert_shipment_read_def update_stock_def bind_sum_Inr Let_def)

end
