(* ===== verification/Realtime.thy ===== *)
theory Realtime
  imports Event_Handler
begin

text \<open>
  \<open>src/src/realtime\<close>: the Socket.IO gateway with its rooms and the older read-side bridge
  \<open>RealtimeConsumer\<close>.  A broadcast appends to \<open>sockets\<close> of the world; which client receives
  it is decided by the rooms.
\<close>

section \<open>The gateway\<close>

definition broadcast :: "ws_event \<Rightarrow> unit op" where
  "broadcast ev = modifyE (\<lambda>w. w\<lparr>sockets := sockets w @ [ev]\<rparr>)"

definition gateway_orderCreated :: "obj \<Rightarrow> unit op" where
  "gateway_orderCreated summary = broadcast (WsOrderCreated (JObj summary))"

definition gateway_orderUpdated :: "obj \<Rightarrow> unit op" where
  "gateway_orderUpdated update = broadcast (WsOrderUpdated (JObj update))"

text \<open>\<open>{ order_id: orderId, ...event }\<close> to the room of the order.\<close>

definition gateway_orderEvent :: "string \<Rightarrow> obj \<Rightarrow> unit op" where
  "gateway_orderEvent i event =
     broadcast (WsOrderEvent i (JObj (fold (\<lambda>(k, v) ob. obj_put k v ob) event [(''order_id'', JStr i)])))"

definition gateway_consumerHealth :: "obj \<Rightarrow> unit op" where
  "gateway_consumerHealth health = broadcast (WsConsumerHealth (JObj health))"

subsection \<open>Rooms\<close>

text \<open>The pairs of a socket and a room it has joined.\<close>

type_synonym rooms = "(string \<times> string) list"

definition room_of :: "string \<Rightarrow> string" where
  "room_of i = ''order:'' @ i"

definition on_subscribe :: "string \<Rightarrow> js \<Rightarrow> rooms \<Rightarrow> rooms" where
  "on_subscribe socket orderId rs =
     (case orderId of JStr (c # s) \<Rightarrow> List.insert (socket, room_of (c # s)) rs | _ \<Rightarrow> rs)"

definition on_unsubscribe :: "string \<Rightarrow> js \<Rightarrow> rooms \<Rightarrow> rooms" where
  "on_unsubscribe socket orderId rs =
     (case orderId of JStr (c # s) \<Rightarrow> filter (\<lambda>p. p \<noteq> (socket, room_of (c # s))) rs | _ \<Rightarrow> rs)"

definition receives :: "rooms \<Rightarrow> string \<Rightarrow> ws_event \<Rightarrow> bool" where
  "receives rs socket ev =
     (case ev of WsOrderEvent i _ \<Rightarrow> (socket, room_of i) \<in> set rs | _ \<Rightarrow> True)"

lemma room_of_inj [simp]: "room_of i = room_of j \<longleftrightarrow> i = j"
  by (simp add: room_of_def)

lemma receives_subscribe [simp]:
  "receives (on_subscribe s (JStr i) rs) s' (WsOrderEvent j v) \<longleftrightarrow>
     (i \<noteq> [] \<and> s' = s \<and> j = i) \<or> receives rs s' (WsOrderEvent j v)"
  by (cases i) (auto simp: receives_def on_subscribe_def)

lemma receives_unsubscribe [simp]:
  "receives (on_unsubscribe s (JStr i) rs) s' (WsOrderEvent j v) \<longleftrightarrow>
     \<not> (i \<noteq> [] \<and> s' = s \<and> j = i) \<and> receives rs s' (WsOrderEvent j v)"
  by (cases i) (auto simp: receives_def on_unsubscribe_def)

section \<open>The bridge from the older topics\<close>

definition SUBSCRIBE_TOPICS :: "topic list" where
  "SUBSCRIBE_TOPICS =
     [OtherTopic ''orders'', OtherTopic ''payments'', OtherTopic ''inventory'', OtherTopic ''notifications'']"

text \<open>
  Looking up a property that the object literal does not have finds those of
  \<open>Object.prototype\<close>: its methods (which no JSON shows: \<open>JUndef\<close>) and \<open>__proto__\<close>.
\<close>

definition prototype_methods :: "string list" where
  "prototype_methods =
     [''constructor'', ''__defineGetter__'', ''__defineSetter__'', ''hasOwnProperty'',
      ''__lookupGetter__'', ''__lookupSetter__'', ''isPrototypeOf'', ''propertyIsEnumerable'',
      ''toString'', ''valueOf'', ''toLocaleString'']"

definition literal_get :: "(string \<times> string) list \<Rightarrow> string \<Rightarrow> js option" where
  "literal_get table k =
     (case map_of table k of
        Some v \<Rightarrow> Some (JStr v)
      | None \<Rightarrow> if k \<in> set prototype_methods then Some JUndef
                else if k = ''__proto__'' then Some (JObj []) else None)"

definition STATUS_BY_TYPE :: "(string \<times> string) list" where
  "STATUS_BY_TYPE =
     [(''payment.approved'', ''payment_approved''), (''inventory.reserved'', ''inventory_reserved''),
      (''notification.sent'', ''completed'')]"

definition TOPIC_BY_TYPE :: "(string \<times> string) list" where
  "TOPIC_BY_TYPE =
     [(''order.created'', ''orders''), (''payment.approved'', ''payments''),
      (''inventory.reserved'', ''inventory''), (''notification.sent'', ''notifications'')]"

text \<open>\<open>Number(v) || 0\<close>.\<close>

definition number_or_zero :: "js \<Rightarrow> js" where
  "number_or_zero v = (let n = js_number v in if n = NaN then JNum (Fin 0) else JNum n)"

definition bridge_summary :: "obj \<Rightarrow> string \<Rightarrow> obj" where
  "bridge_summary event i =
     [(''order_id'', JStr i),
      (''user_id'', (case obj_get event ''user_id'' of JStr u \<Rightarrow> JStr u | _ \<Rightarrow> JStr ''unknown'')),
      (''status'', JStr ''pending''), (''total_amount'', number_or_zero (obj_get event ''total_amount''))]"

text \<open>The broadcasts for an event of a known type.\<close>

definition bridge_event :: "obj \<Rightarrow> string \<Rightarrow> string \<Rightarrow> js \<Rightarrow> unit op" where
  "bridge_event event ty i tpc =
     bindE (case obj_get event ''timestamp'' of JStr s \<Rightarrow> returnE s | _ \<Rightarrow> iso_now) (\<lambda>ts.
     thenE (if ty = ''order.created'' then gateway_orderCreated (bridge_summary event i)
            else gateway_orderUpdated
              [(''order_id'', JStr i),
               (''status'', case literal_get STATUS_BY_TYPE ty of Some v \<Rightarrow> v | None \<Rightarrow> JUndef)])
           (gateway_orderEvent i
              [(''event_type'', JStr ty), (''topic'', tpc), (''timestamp'', JStr ts)]))"

definition handleEvent :: "wire \<Rightarrow> unit op" where
  "handleEvent raw =
     (case wire_parse raw of
        Some (JObj event) \<Rightarrow>
          (case obj_get event ''type'' of
             JStr ty \<Rightarrow>
               (case obj_get event ''order_id'' of
                  JStr i \<Rightarrow>
                    (case literal_get TOPIC_BY_TYPE ty of
                       None \<Rightarrow> returnE ()
                     | Some tpc \<Rightarrow> bridge_event event ty i tpc)
                | _ \<Rightarrow> returnE ())
           | _ \<Rightarrow> returnE ())
      | _ \<Rightarrow> returnE ())"

text \<open>The whole record of \<open>start\<close> and \<open>stop\<close>: connect, one subscribe for all topics, run.\<close>

definition realtime_start :: "unit op" where
  "realtime_start = thenE kafka_call (thenE kafka_call kafka_call)"

definition realtime_stop :: "bool \<Rightarrow> unit op" where
  "realtime_stop started = whenE started kafka_call"

section \<open>What a broadcast leaves alone\<close>

lemma broadcast_run [simp]: "broadcast ev w = (Inr (), w\<lparr>sockets := sockets w @ [ev]\<rparr>)"
  by (simp add: broadcast_def modifyE_def)

lemmas gateway_defs =
  gateway_orderCreated_def gateway_orderUpdated_def gateway_orderEvent_def gateway_consumerHealth_def

lemma keep_broadcast [frame_rules]: "db_follows (\<lambda>d d'. g d' = g d) (broadcast ev)"
  by (simp add: db_follows_def)

lemma quiet_broadcast [inv_rules]: "bus_quiet (broadcast ev)"
  by (simp add: bus_quiet_def)

lemma steady_broadcast [inv_rules]:
  "run_follows (\<lambda>w w'. environment w' = environment w) (broadcast ev)"
  "run_follows (\<lambda>w w'. db_script w = [] \<longrightarrow> db_script w' = []) (broadcast ev)"
  by (simp_all add: run_follows_def environment_def)

text \<open>A property that every broadcast has.\<close>

lemma gateway_all:
  assumes "\<And>ev. P (broadcast ev)"
  shows "P (gateway_orderCreated s)" "P (gateway_orderUpdated u)" "P (gateway_orderEvent i v)"
  unfolding gateway_defs by (rule assms)+

text \<open>
  What the bridge shows for a message: nothing, or exactly two broadcasts, the order's
  summary or status and then the entry of its timeline.
\<close>

definition shows_pair :: "unit op \<Rightarrow> world \<Rightarrow> bool" where
  "shows_pair m w \<longleftrightarrow>
     (\<exists>evs. m w = (Inr (), w\<lparr>sockets := sockets w @ evs\<rparr>) \<and>
        (evs = [] \<or> (\<exists>i v u. evs = [WsOrderCreated u, WsOrderEvent i v] \<or> evs = [WsOrderUpdated u, WsOrderEvent i v])))"

lemma shows_pairI:
  "m w = (Inr (), w\<lparr>sockets := sockets w @ [WsOrderCreated u, WsOrderEvent i v]\<rparr>) \<Longrightarrow> shows_pair m w"
  "m w = (Inr (), w\<lparr>sockets := sockets w @ [WsOrderUpdated u, WsOrderEvent i v]\<rparr>) \<Longrightarrow> shows_pair m w"
  unfolding shows_pair_def by blast+

lemma bridge_event_shows: "shows_pair (bridge_event event ty i tpc) w"
proof -
  obtain ts where ts: "(case obj_get event ''timestamp'' of JStr s \<Rightarrow> returnE s | _ \<Rightarrow> iso_now) w = (Inr ts, w)"
    by (cases "obj_get event ''timestamp''") (simp_all add: run_defs)
  show ?thesis
  proof (cases "ty = ''order.created''")
    case True
    show ?thesis
      by (rule shows_pairI(1)) (simp add: True bridge_event_def bindE_def thenE_def ts [unfolded True] gateway_defs)
  next
    case False
    show ?thesis
      by (rule shows_pairI(2)) (simp add: False bridge_event_def bindE_def thenE_def ts gateway_defs)
  qed
qed

lemma shows_nothing: "shows_pair (returnE ()) w"
  unfolding shows_pair_def returnE_def by (rule exI [of _ "[]"]) simp

lemma handleEvent_broadcasts: "shows_pair (handleEvent raw) w"
  unfolding handleEvent_def
  by (simp add: bridge_event_shows shows_nothing split: option.split js.split)

end
