(* ===== verification/Projection.thy ===== *)
theory Projection
  imports Read_Model Realtime
begin

text \<open>
  \<open>src/src/application/projections/projection-consumer.ts\<close>: the consumer that stores every
  event and keeps the read models, and its live notifications.
\<close>

abbreviation projection_consumer :: string where
  "projection_consumer \<equiv> ''projection-consumer''"

definition projection_name :: string where
  "projection_name = ''order-fulfillment-projection''"

definition projection_topics :: "topic list" where
  "projection_topics =
     [OrdersTopic, PaymentsTopic, InventoryTopic, FraudTopic, ShippingTopic, NotificationsTopic]"

section \<open>The read models\<close>

text \<open>The \<open>switch\<close> of \<open>applyHistoricalEvent\<close>.\<close>

definition project :: "envelope \<Rightarrow> unit op" where
  "project e =
     (let p = obj_get (payload e); i = aggregate_id e; ts = occurred_at e;
          status = (\<lambda>st. run_sql (update_order_read i (set_status st ts)));
          failure = (\<lambda>st. run_sql (update_order_read i (set_failure st e)))
      in case event_type e of
           OrderCreated \<Rightarrow> run_sql (insert_order_read e)
         | PaymentRequested \<Rightarrow> status ''payment_pending''
         | PaymentAuthorized \<Rightarrow>
             thenE (run_sql (update_order_read i
                      (\<lambda>r. set_status ''payment_approved'' ts (r\<lparr>om_payment_id := pg_param (p ''payment_id'')\<rparr>))))
                   (run_sql (insert_payment_read e))
         | PaymentRejected \<Rightarrow> failure ''payment_rejected''
         | PaymentRefunded \<Rightarrow> run_sql (refund_payment_read e)
         | InventoryReservationRequested \<Rightarrow> status ''inventory_pending''
         | InventoryReserved \<Rightarrow>
             thenE (run_sql (update_order_read i
                      (\<lambda>r. set_status ''inventory_reserved'' ts (r\<lparr>om_reservation_id := pg_param (p ''reservation_id'')\<rparr>))))
                   (stock_items reserve_row e)
         | InventoryReleased \<Rightarrow> stock_items release_row e
         | InventoryReservationFailed \<Rightarrow> failure ''inventory_failed''
         | FraudCheckRequested \<Rightarrow> status ''fraud_pending''
         | FraudApproved \<Rightarrow>
             run_sql (update_order_read i
               (\<lambda>r. set_status ''fraud_approved'' ts (r\<lparr>om_fraud_check_id := pg_param (p ''fraud_check_id'')\<rparr>)))
         | FraudRejected \<Rightarrow> failure ''fraud_rejected''
         | ShipmentRequested \<Rightarrow> status ''shipping_pending''
         | ShipmentCreated \<Rightarrow>
             thenE (run_sql (update_order_read i
                      (\<lambda>r. set_status ''shipping_created'' ts
                         (r\<lparr>om_shipment_id := pg_param (p ''shipment_id''),
                            om_tracking_number := pg_param (p ''tracking_number'')\<rparr>))))
                   (run_sql (insert_shipment_read e))
         | OrderCompleted \<Rightarrow> status ''completed''
         | OrderCancelled \<Rightarrow> failure ''cancelled''
         | OrderFailed \<Rightarrow> failure ''failed''
         | _ \<Rightarrow> returnE ())"

definition executeInTx :: "envelope \<Rightarrow> unit op" where
  "executeInTx e =
     bindE (isProjectionEventApplied Client projection_name (event_id e)) (\<lambda>alreadyApplied.
     if alreadyApplied then returnE ()
     else thenE (project e)
            (markProjectionEventApplied Client projection_name (event_id e) (aggregate_id e)))"

text \<open>
  Without a client of its own the method opens a transaction exactly as \<open>withTransaction\<close>
  does: connect, BEGIN, the body, COMMIT, and ROLLBACK and rethrow on an error.
\<close>

definition applyHistoricalEvent :: "runner \<Rightarrow> envelope \<Rightarrow> unit op" where
  "applyHistoricalEvent r e =
     (case r of Client \<Rightarrow> executeInTx e | Pool \<Rightarrow> withTransaction (executeInTx e))"

section \<open>Live notifications\<close>

definition live_event :: "envelope \<Rightarrow> obj" where
  "live_event e =
     [(''event_type'', JStr (event_name (event_type e))),
      (''topic'', js_or (JStr (producer e)) (JStr ''unknown'')), (''timestamp'', JStr (occurred_at e)),
      (''correlation_id'', JStr (correlation_id e)), (''causation_id'', JStr (causation_id e)),
      (''payload'', JObj (payload e))]"

definition live_summary :: "envelope \<Rightarrow> obj" where
  "live_summary e = (let p = obj_get (payload e) in
     [(''order_id'', JStr (aggregate_id e)), (''user_id'', p ''user_id''),
      (''status'', JStr ''pending''), (''total_amount'', p ''total_amount''),
      (''created_at'', JStr (occurred_at e))])"

definition live_update :: "envelope \<Rightarrow> string \<Rightarrow> string option \<Rightarrow> unit op" where
  "live_update e st step =
     gateway_orderUpdated ([(''order_id'', JStr (aggregate_id e)), (''status'', JStr st)] @
       (case step of None \<Rightarrow> [] | Some s \<Rightarrow> [(''step'', JStr s)]))"

definition emitLiveNotifications :: "envelope \<Rightarrow> unit op" where
  "emitLiveNotifications e =
     thenE (gateway_orderEvent (aggregate_id e) (live_event e))
       (case event_type e of
          OrderCreated \<Rightarrow> gateway_orderCreated (live_summary e)
        | PaymentRequested \<Rightarrow> live_update e ''payment_pending'' (Some ''PAYMENT'')
        | PaymentAuthorized \<Rightarrow> live_update e ''payment_approved'' (Some ''PAYMENT'')
        | PaymentRejected \<Rightarrow> live_update e ''payment_rejected'' (Some ''PAYMENT'')
        | InventoryReservationRequested \<Rightarrow> live_update e ''inventory_pending'' (Some ''INVENTORY'')
        | InventoryReserved \<Rightarrow> live_update e ''inventory_reserved'' (Some ''INVENTORY'')
        | InventoryReservationFailed \<Rightarrow> live_update e ''inventory_failed'' (Some ''INVENTORY'')
        | FraudCheckRequested \<Rightarrow> live_update e ''fraud_pending'' (Some ''FRAUD'')
        | FraudApproved \<Rightarrow> live_update e ''fraud_approved'' (Some ''FRAUD'')
        | FraudRejected \<Rightarrow> live_update e ''fraud_rejected'' (Some ''FRAUD'')
        | ShipmentRequested \<Rightarrow> live_update e ''shipping_pending'' (Some ''SHIPPING'')
        | ShipmentCreated \<Rightarrow> live_update e ''shipping_created'' (Some ''SHIPPING'')
        | OrderCompleted \<Rightarrow> live_update e ''completed'' None
        | OrderCancelled \<Rightarrow> live_update e ''cancelled'' None
        | OrderFailed \<Rightarrow> live_update e ''failed'' None
        | _ \<Rightarrow> returnE ())"

section \<open>The handler\<close>

definition projection_processEvent :: "envelope \<Rightarrow> unit op" where
  "projection_processEvent e =
     thenE (appendToEventStore Pool e)
     (thenE (recordEvent (aggregate_id e) (event_name (event_type e))
               (if producer e = [] then ''system'' else producer e))
     (thenE (applyHistoricalEvent Pool e) (emitLiveNotifications e)))"

section \<open>The cases\<close>

text \<open>A property of every branch is one of the statements and of their sequence.\<close>

lemma project_cases:
  assumes "\<And>f. P (run_sql (update_order_read (aggregate_id e) f))"
    "P (run_sql (insert_order_read e))" "P (run_sql (insert_payment_read e))"
    "P (run_sql (refund_payment_read e))" "P (run_sql (insert_shipment_read e))"
    "P (stock_items reserve_row e)" "P (stock_items release_row e)"
    "P (returnE ())" "\<And>m n. P m \<Longrightarrow> P n \<Longrightarrow> P (thenE m n)"
  shows "P (project e)"
  unfolding project_def Let_def by (cases "event_type e") (simp_all add: assms)

lemma live_cases:
  assumes "\<And>s. P (gateway_orderUpdated s)" "\<And>s. P (gateway_orderCreated s)"
    "\<And>i v. P (gateway_orderEvent i v)" "P (returnE ())" "\<And>m n. P m \<Longrightarrow> P n \<Longrightarrow> P (thenE m n)"
  shows "P (emitLiveNotifications e)"
  unfolding emitLiveNotifications_def live_update_def
  by (rule assms(5), rule assms(3)) (cases "event_type e"; simp add: assms)

section \<open>What the steps leave alone\<close>

lemma keep_stock_items [frame_rules]:
  "(\<And>t d. g (d\<lparr>inventory_read_model := t\<rparr>) = g d) \<Longrightarrow> db_follows (\<lambda>d d'. g d' = g d) (stock_items f e)"
  unfolding stock_items_def stock_item_def
  by (intro keep.follows_rules keep_run_sql) (auto dest: read_model_writes(6))

lemma quiet_stock_items [inv_rules]: "bus_quiet (stock_items f e)"
  unfolding stock_items_def stock_item_def by (intro quiet_rules quiet_run_sql)

lemma keep_project [frame_rules]:
  assumes "\<And>t d. g (d\<lparr>order_read_model := t\<rparr>) = g d" "\<And>t d. g (d\<lparr>payment_read_model := t\<rparr>) = g d"
    "\<And>t d. g (d\<lparr>inventory_read_model := t\<rparr>) = g d" "\<And>t d. g (d\<lparr>shipment_read_model := t\<rparr>) = g d"
  shows "db_follows (\<lambda>d d'. g d' = g d) (project e)"
  by (rule project_cases)
    (auto intro!: keep.follows_rules keep_run_sql keep_stock_items dest!: read_model_writes simp: assms)

lemma quiet_project [inv_rules]: "bus_quiet (project e)"
  by (rule project_cases) (intro quiet_rules quiet_run_sql quiet_stock_items; assumption)+

lemma quiet_apply [inv_rules]: "bus_quiet (applyHistoricalEvent r e)"
proof -
  have "bus_quiet (executeInTx e)"
    unfolding executeInTx_def by (auto intro!: quiet_rules quiet_event_ops quiet_project)
  then show ?thesis
    by (cases r) (simp_all add: applyHistoricalEvent_def quiet_withTransaction)
qed

lemma keep_apply [frame_rules]:
  assumes "\<And>t d. g (d\<lparr>order_read_model := t\<rparr>) = g d" "\<And>t d. g (d\<lparr>payment_read_model := t\<rparr>) = g d"
    "\<And>t d. g (d\<lparr>inventory_read_model := t\<rparr>) = g d" "\<And>t d. g (d\<lparr>shipment_read_model := t\<rparr>) = g d"
    "\<And>t d. g (d\<lparr>projection_applied_events := t\<rparr>) = g d"
  shows "db_follows (\<lambda>d d'. g d' = g d) (applyHistoricalEvent r e)"
proof -
  have "db_follows (\<lambda>d d'. g d' = g d) (executeInTx e)"
    unfolding executeInTx_def isProjectionEventApplied_def markProjectionEventApplied_def
    by (intro keep.follows_rules keep_project keep.follows_selects keep_writes assms)
      (simp add: put_applied_def assms)
  then show ?thesis
    by (cases r) (simp_all add: applyHistoricalEvent_def keep.follows_withTransaction)
qed

text \<open>No broadcast: the sockets are untouched.\<close>

interpretation silent: run_relation "\<lambda>w w'. sockets w' = sockets w"
  by unfold_locales simp_all

context run_calls
begin

lemma run_run_sql: "run_follows S (run_sql f)"
  unfolding run_sql_def by (rule run_query)

lemma run_apply: "run_follows S (applyHistoricalEvent r e)"
proof -
  have items: "run_follows S (stock_items f e)" for f
    unfolding stock_items_def stock_item_def by (intro call_rules run_run_sql)
  have "run_follows S (project e)"
    by (rule project_cases) (intro call_rules run_run_sql items; assumption)+
  then have "run_follows S (executeInTx e)"
    unfolding executeInTx_def isProjectionEventApplied_def markProjectionEventApplied_def
    by (intro call_rules)
  then show ?thesis
    by (cases r) (simp_all add: applyHistoricalEvent_def run_withTransaction)
qed

end

lemma quiet_live [inv_rules]: "bus_quiet (emitLiveNotifications e)"
  by (rule live_cases) (intro gateway_all [where P = bus_quiet] quiet_rules quiet_broadcast; assumption)+

lemma keep_live [frame_rules]: "db_follows (\<lambda>d d'. g d' = g d) (emitLiveNotifications e)"
  by (rule live_cases)
    (intro gateway_all [where P = "db_follows (\<lambda>d d'. g d' = g d)"] keep.follows_rules keep_broadcast; assumption)+

lemma steady_live [inv_rules]:
  "run_follows (\<lambda>w w'. environment w' = environment w) (emitLiveNotifications e)"
  "run_follows (\<lambda>w w'. db_script w = [] \<longrightarrow> db_script w' = []) (emitLiveNotifications e)"
proof -
  show "run_follows (\<lambda>w w'. environment w' = environment w) (emitLiveNotifications e)"
    by (rule live_cases)
      (intro gateway_all [where P = "run_follows (\<lambda>w w'. environment w' = environment w)"]
         steady.run_compose steady_broadcast; assumption)+
  show "run_follows (\<lambda>w w'. db_script w = [] \<longrightarrow> db_script w' = []) (emitLiveNotifications e)"
    by (rule live_cases)
      (intro gateway_all [where P = "run_follows (\<lambda>w w'. db_script w = [] \<longrightarrow> db_script w' = [])"]
         db_calm.run_compose steady_broadcast; assumption)+
qed

section \<open>The contract of the base class\<close>

lemma projection_keeps:
  assumes "\<And>t d. g (d\<lparr>order_read_model := t\<rparr>) = g d" "\<And>t d. g (d\<lparr>payment_read_model := t\<rparr>) = g d"
    "\<And>t d. g (d\<lparr>inventory_read_model := t\<rparr>) = g d" "\<And>t d. g (d\<lparr>shipment_read_model := t\<rparr>) = g d"
    "\<And>t d. g (d\<lparr>projection_applied_events := t\<rparr>) = g d" "\<And>t d. g (d\<lparr>event_store := t\<rparr>) = g d"
    "\<And>t d. g (d\<lparr>order_events := t\<rparr>) = g d"
  shows "db_follows (\<lambda>d d'. g d' = g d) (projection_processEvent e)"
proof -
  have append: "stmt_follows (\<lambda>d d'. g d' = g d) (append_stmt e)"
    by (auto simp: stmt_follows_def append_stmt_def Let_def assms split: if_splits)
  show ?thesis
    unfolding projection_processEvent_def appendToEventStore_def append_execute_def recordEvent_def runner.case
    by (intro keep.follows_rules keep_apply keep_live keep.follows_selects keep_writes append assms)
qed

interpretation projection: event_handler projection_consumer projection_processEvent
proof
  show "db_follows (\<lambda>d d'. base_tables d' = base_tables d) (projection_processEvent e)" for e
    by (rule projection_keeps) (simp_all add: base_tables_def)
  show "run_follows (\<lambda>w w'. environment w' = environment w) (projection_processEvent e)" for e
    unfolding projection_processEvent_def appendToEventStore_def append_execute_def recordEvent_def runner.case
    by (intro steady.run_rules steady.run_apply steady_live)
  show "run_follows (\<lambda>w w'. db_script w = [] \<longrightarrow> db_script w' = []) (projection_processEvent e)" for e
    unfolding projection_processEvent_def appendToEventStore_def append_execute_def recordEvent_def runner.case
    by (intro db_calm.run_rules db_calm.run_apply steady_live)
qed

end
