(* ===== verification/Platform.thy ===== *)
theory Platform
  imports Domain_Consumers Saga Projection
begin

text \<open>
  The seven consumers that \<open>src/src/index.ts\<close> starts, as one type: the name, the topics and
  the handler of each, the delivery of a message to one of them, and sequences of
  deliveries.  The contract \<open>event_handler\<close> holds for all of them, so the theorems about
  the base class are stated once for every consumer.
\<close>

section \<open>The consumers\<close>

datatype platform_consumer =
    PaymentConsumer | InventoryConsumer | FraudConsumer | ShippingConsumer | NotificationConsumer
  | SagaOrchestrator | ProjectionConsumer

fun consumer_name :: "platform_consumer \<Rightarrow> string" where
  "consumer_name PaymentConsumer = ''payment-service''"
| "consumer_name InventoryConsumer = ''inventory-service''"
| "consumer_name FraudConsumer = ''fraud-service''"
| "consumer_name ShippingConsumer = ''shipping-service''"
| "consumer_name NotificationConsumer = ''notification-service''"
| "consumer_name SagaOrchestrator = saga_name"
| "consumer_name ProjectionConsumer = projection_consumer"

fun consumer_topics :: "platform_consumer \<Rightarrow> topic list" where
  "consumer_topics PaymentConsumer = [PaymentsTopic]"
| "consumer_topics InventoryConsumer = [InventoryTopic]"
| "consumer_topics FraudConsumer = [FraudTopic]"
| "consumer_topics ShippingConsumer = [ShippingTopic]"
| "consumer_topics NotificationConsumer = [NotificationsTopic]"
| "consumer_topics SagaOrchestrator = saga_topics"
| "consumer_topics ProjectionConsumer = projection_topics"

fun consumer_handler :: "platform_consumer \<Rightarrow> envelope \<Rightarrow> unit op" where
  "consumer_handler PaymentConsumer = payment_processEvent"
| "consumer_handler InventoryConsumer = inventory_processEvent"
| "consumer_handler FraudConsumer = fraud_processEvent"
| "consumer_handler ShippingConsumer = shipping_processEvent"
| "consumer_handler NotificationConsumer = notification_processEvent"
| "consumer_handler SagaOrchestrator = saga_processEvent"
| "consumer_handler ProjectionConsumer = projection_processEvent"

definition deliver :: "platform_consumer \<Rightarrow> each_message \<Rightarrow> unit op" where
  "deliver c m = handleMessage (consumer_name c) (consumer_handler c) m"

text \<open>
  Any sequence of deliveries: an error that leaves \<open>handleMessage\<close> makes the client deliver
  the message again, which is one more element of the list.
\<close>

primrec deliveries :: "(platform_consumer \<times> each_message) list \<Rightarrow> world \<Rightarrow> world" where
  "deliveries [] w = w"
| "deliveries (d # ds) w = deliveries ds (snd (deliver (fst d) (snd d) w))"

instantiation platform_consumer :: linorder
begin

definition less_eq_platform_consumer :: "platform_consumer \<Rightarrow> platform_consumer \<Rightarrow> bool" where
  "less_eq_platform_consumer a b \<longleftrightarrow> consumer_name a \<le> consumer_name b"

definition less_platform_consumer :: "platform_consumer \<Rightarrow> platform_consumer \<Rightarrow> bool" where
  "less_platform_consumer a b \<longleftrightarrow> consumer_name a < consumer_name b"

instance
proof
  fix a b c :: platform_consumer
  show "a \<le> b \<Longrightarrow> b \<le> a \<Longrightarrow> a = b"
    by (cases a; cases b) (simp_all add: less_eq_platform_consumer_def)
qed (auto simp: less_eq_platform_consumer_def less_platform_consumer_def)

end

section \<open>The contract of every consumer\<close>

lemma consumer_contract: "event_handler (consumer_handler c)"
  by (cases c)
    (simp_all add: payment.event_handler_axioms inventory.event_handler_axioms fraud.event_handler_axioms
      shipping.event_handler_axioms notification.event_handler_axioms saga_consumer.event_handler_axioms
      projection.event_handler_axioms)

lemma consumer_name_inj: "consumer_name c = consumer_name c' \<Longrightarrow> c = c'"
  by (cases c; cases c') simp_all

interpretation consumer: event_handler "consumer_name c" "consumer_handler c" for c
  by (rule consumer_contract)

text \<open>A relation that every delivery keeps is kept by every sequence of them.\<close>

lemma deliveries_follow:
  assumes "\<And>c m. db_follows (\<lambda>d d'. I d \<longrightarrow> I d') (deliver c m)" and "I (db w)"
  shows "I (db (deliveries ds w))"
  using assms(2)
proof (induction ds arbitrary: w)
  case (Cons d ds)
  then show ?case using db_followsD [OF assms(1) [of "fst d" "snd d"], of w] by simp
qed simp

section \<open>Delivering a message that parses\<close>

text \<open>The bookkeeping before the duplicate check.\<close>

definition seen :: "string \<Rightarrow> world \<Rightarrow> world" where
  "seen name w = w\<lparr>consumers := (consumers w)(name := (consumers w name)
      \<lparr>lastEventTimestamp := Some (toISOString (now w))\<rparr>)\<rparr>"

lemma seen_simps [simp]:
  "db (seen n w) = db w" "bus (seen n w) = bus w" "sockets (seen n w) = sockets w" "now (seen n w) = now w"
  "db_script (seen n w) = db_script w" "kafka_script (seen n w) = kafka_script w"
  "environment (seen n w) = environment w" "uuid_src (seen n w) = uuid_src w"
  "uuid_next (seen n w) = uuid_next w" "rand_src (seen n w) = rand_src w" "rand_next (seen n w) = rand_next w"
  "chaos (seen n w) = chaos w" "fresh_dlq_ids (seen n w) = fresh_dlq_ids w"
  by (simp_all add: seen_def environment_def fresh_dlq_ids_def)

lemma deliver_valid:
  assumes "valid_envelope e" "em_value m = wire_of (js_of_envelope e)"
  shows "deliver c m w =
    process_valid (consumer_name c) (consumer_handler c) m (e\<lparr>payload := obj_json (payload e)\<rparr>)
      (seen (consumer_name c) w)"
  by (simp add: deliver_def handleMessage_def bindE_def thenE_def iso_now_def getsE_def assms(2)
      parse_result_valid [OF assms(1)] seen_def)

end
