(* ===== verification/Handler_Props.thy ===== *)
theory Handler_Props
  imports Platform Examples
begin

text \<open>
  Properties of the base consumer for every consumer of the platform: the round trip of an
  emitted event, duplicates, the outcome of a delivery, the retry schedule, the two
  dead-letter paths, and the provenance of what a delivery sends.
\<close>

section \<open>Round trip\<close>

lemma producer_send_InrD:
  "producer_send ms w = (Inr u, w') \<Longrightarrow> bus w' = bus w @ ms \<and> db w' = db w"
  by (auto simp: producer_send_def Let_def split: outcome.splits)

lemma emit_InrD:
  assumes "emit name p w = (Inr e, w')"
  shows "\<exists>u. e = emit_envelope name (now w) u p \<and> bus w' = bus w @ [emit_message name p e]"
proof -
  obtain u w1 where u: "(case e_eventId p of Some (c # s) \<Rightarrow> returnE [] | _ \<Rightarrow> uuid) w = (Inr u, w1)"
    and k: "bindE clock (\<lambda>t. let e = emit_envelope name t u p
       in thenE (producer_send [emit_message name p e]) (returnE e)) w1 = (Inr e, w')"
    using bindE_InrD [OF assms [unfolded emit_def]] by blast
  have w1: "now w1 = now w" "bus w1 = bus w"
    using u by (auto simp: run_defs split: option.splits list.splits)
  have "thenE (producer_send [emit_message name p (emit_envelope name (now w) u p)])
      (returnE (emit_envelope name (now w) u p)) w1 = (Inr e, w')"
    using k by (simp add: bindE_def clock_def getsE_def Let_def w1)
  then show ?thesis
    using w1 by (auto dest!: thenE_InrD simp: returnE_def dest: producer_send_InrD)
qed

text \<open>What a caller of \<open>emit\<close> has to supply: non-empty identifiers and a declared event type.\<close>

definition emit_params_ok :: "string \<Rightarrow> emit_params \<Rightarrow> bool" where
  "emit_params_ok name p \<longleftrightarrow>
     name \<noteq> [] \<and> e_aggregateId p \<noteq> [] \<and> e_aggregateType p \<noteq> [] \<and> e_correlationId p \<noteq> [] \<and>
     e_causationId p \<noteq> [] \<and> event_name (e_eventType p) \<noteq> [] \<and>
     event_of_name (event_name (e_eventType p)) = e_eventType p"

lemma valid_emit_envelope:
  "emit_params_ok name p \<Longrightarrow> iso_year t < 10000 \<Longrightarrow> valid_envelope (emit_envelope name t u p)"
  unfolding emit_envelope_def
  by (rule valid_createEventEnvelope) (simp_all add: emit_params_ok_def)

text \<open>C21: round trip of an event.  What \<open>emit\<close> sends is one message, keyed by the aggregate,
  on the topic asked for; and whatever consumer receives it, at any later time, its parsing
  gives back the envelope that \<open>emit\<close> returned, field by field, with the payload as JSON
  carries it.\<close>

theorem emitted_event_read_back:
  assumes "emit name p w = (Inr e, w')" and "emit_params_ok name p" and "iso_year (now w) < 10000"
  shows "\<exists>m. bus w' = bus w @ [m] \<and> m_topic m = e_topic p \<and> m_key m = e_aggregateId p \<and>
    (\<forall>v. parse_result (m_value m) v = (Inr (Inr (e\<lparr>payload := obj_json (payload e)\<rparr>)), v))"
proof -
  obtain u where e: "e = emit_envelope name (now w) u p" and b: "bus w' = bus w @ [emit_message name p e]"
    using emit_InrD [OF assms(1)] by blast
  have "valid_envelope e" unfolding e by (rule valid_emit_envelope [OF assms(2,3)])
  from parse_result_valid [OF this] b show ?thesis
    by (intro exI [of _ "emit_message name p e"]) (simp add: emit_message_def)
qed

definition demo_emit :: emit_params where
  "demo_emit = reply demo_order PaymentsTopic PaymentRequested ''Payment'' (payment_request demo_order)"

theorem emitted_event_read_back_witness:
  "\<exists>e w' m. emit saga_name demo_emit demo_world = (Inr e, w') \<and> bus w' = [m] \<and> m_key m = ''ord_1'' \<and>
     parse_result (m_value m) demo_world = (Inr (Inr (e\<lparr>payload := obj_json (payload e)\<rparr>)), demo_world)"
proof -
  obtain e w' where run: "emit saga_name demo_emit demo_world = (Inr e, w')"
    by (simp add: emit_done demo_emit_def reply_def Let_def)
  have "event_of_name ''PaymentRequested'' = PaymentRequested" by code_simp
  then have "emit_params_ok saga_name demo_emit"
    by (simp add: emit_params_ok_def demo_emit_def reply_def demo_order_def demo_event_def)
  moreover have "iso_year (now demo_world) < 10000" by (rule demo_year)
  ultimately obtain m where "bus w' = bus demo_world @ [m]" "m_key m = e_aggregateId demo_emit"
    "\<forall>v. parse_result (m_value m) v = (Inr (Inr (e\<lparr>payload := obj_json (payload e)\<rparr>)), v)"
    using emitted_event_read_back [OF run] by blast
  then show ?thesis using run by (auto simp: demo_emit_def reply_def demo_order_def)
qed

section \<open>Duplicates\<close>

text \<open>C18: idempotence.  A message whose event the consumer has already processed changes no
  table and sends nothing, whatever the database and the broker do.\<close>

theorem duplicate_delivery_skipped:
  assumes "valid_envelope e" "em_value m = wire_of (js_of_envelope e)"
    and "event_processed (event_id e) (consumer_name c) (db w)"
  shows "db (snd (deliver c m w)) = db w \<and> bus (snd (deliver c m w)) = bus w"
  using consumer.duplicate_skipped [of "e\<lparr>payload := obj_json (payload e)\<rparr>" c "seen (consumer_name c) w" m] assms
  by (simp add: deliver_valid)

definition processed_world :: "string \<Rightarrow> string \<Rightarrow> world \<Rightarrow> world" where
  "processed_world i name w = w\<lparr>db := put_processed i name ''PROCESSED'' None 0 (db w)\<rparr>"

theorem duplicate_delivery_skipped_witness:
  "bus (snd (deliver SagaOrchestrator demo_message
     (processed_world ''evt_1'' saga_name (demo_world\<lparr>db_script := [(Refused ''timeout'', 3)]\<rparr>)))) = []"
proof -
  let ?w = "processed_world ''evt_1'' saga_name (demo_world\<lparr>db_script := [(Refused ''timeout'', 3)]\<rparr>)"
  have "event_processed (event_id demo_order) (consumer_name SagaOrchestrator) (db ?w)"
    by (simp add: processed_world_def demo_order_def)
  from duplicate_delivery_skipped [OF demo_order_valid _ this, of demo_message]
  show ?thesis by (simp add: demo_message_def processed_world_def)
qed

section \<open>The outcome of a delivery\<close>

text \<open>C9: no silent loss while the database answers.  When \<open>handleMessage\<close> returns for a
  valid event, the event is marked PROCESSED for this consumer; or it is dead-lettered, which
  is one transaction that leaves the dead letter, the FAILED mark and the row of the
  dead-letter outbox together; or the dead-letter transaction failed too, which takes a
  failing database, and no dead letter was added.\<close>

theorem delivery_outcome:
  assumes "valid_envelope e" "em_value m = wire_of (js_of_envelope e)"
    and "fresh_dlq_ids w" "deliver c m w = (Inr (), w')"
  shows "event_processed (event_id e) (consumer_name c) (db w') \<or>
    dead_lettered (consumer_name c) (event_id e) (db w') \<or>
    (db_script w \<noteq> [] \<and> dlq_messages (db w') = dlq_messages (db w))"
proof -
  let ?n = "consumer_name c" and ?e = "e\<lparr>payload := obj_json (payload e)\<rparr>"
  have run: "process_valid ?n (consumer_handler c) m ?e (seen ?n w) = (Inr (), w')"
    using assms(4) unfolding deliver_valid [OF assms(1,2)] .
  have "fresh_dlq_ids (seen ?n w)" using assms(3) by simp
  from consumer.process_valid_outcome [OF this, where c = c and e = ?e and m = m and w' = w', unfolded run]
  show ?thesis by simp
qed

definition demo_notification :: envelope where
  "demo_notification = demo_event NotificationRequested ''evt_7'' [(''user_id'', JStr ''user_1'')]"

definition demo_notification_message :: each_message where
  "demo_notification_message = \<lparr>em_topic = NotificationsTopic, em_partition = 0, em_offset = ''4'',
     em_value = wire_of (js_of_envelope demo_notification)\<rparr>"

lemma demo_notification_valid: "valid_envelope demo_notification"
proof -
  have "iso_prefix ''2024-01-01T00:00:00.000Z''" by code_simp
  moreover have "event_of_name ''NotificationRequested'' = NotificationRequested" by code_simp
  ultimately show ?thesis by (simp add: demo_notification_def demo_event_def valid_envelope_def)
qed

definition mail_down :: "world \<Rightarrow> world" where
  "mail_down w = w\<lparr>chaos := (chaos w)\<lparr>notificationFailure := True\<rparr>\<rparr>"

lemma demo_fresh: "fresh_dlq_ids (mail_down demo_world)"
  by (simp add: fresh_dlq_ids_def mail_down_def demo_world_def createTables_def empty_database_def)

lemma dlq_returns:
  "fst (handleExhaustedRetriesDLQ name e m err n w) = Inr ()"
  "fst (handleNonRetryableDLQ name m err w) = Inr ()"
  by (simp_all add: handleExhaustedRetriesDLQ_def handleNonRetryableDLQ_def Let_def run_defs split: prod.split sum.split)

text \<open>While the database answers the lookup, \<open>handleMessage\<close> itself never fails.\<close>

lemma calm_delivery_returns:
  assumes "valid_envelope e" "em_value m = wire_of (js_of_envelope e)" and calm: "db_script w = []"
  shows "fst (deliver c m w) = Inr ()"
proof -
  let ?n = "consumer_name c" and ?e = "e\<lparr>payload := obj_json (payload e)\<rparr>"
  obtain res w2 where l: "retry_loop ?n (consumer_handler c) ?e maxRetries 0 None (seen ?n w) = (Inr res, w2)"
    using consumer.loop_returns by blast
  have "isEventProcessed (event_id e) ?n (seen ?n w) = (Inr (event_processed (event_id e) ?n (db w)), seen ?n w)"
    using calm by (simp add: isEventProcessed_def selects_def)
  then show ?thesis
    unfolding deliver_valid [OF assms(1,2)]
    by (simp add: process_valid_def bindE_def l returnE_def thenE_def dlq_returns split: option.split prod.split)
qed

theorem delivery_outcome_witness:
  "let w' = snd (deliver NotificationConsumer demo_notification_message (mail_down demo_world))
   in event_processed ''evt_7'' ''notification-service'' (db w') \<or>
      dead_lettered ''notification-service'' ''evt_7'' (db w')"
proof -
  let ?w = "mail_down demo_world"
  have m: "em_value demo_notification_message = wire_of (js_of_envelope demo_notification)"
    by (simp add: demo_notification_message_def)
  have "db_script ?w = []" by (simp add: mail_down_def)
  from calm_delivery_returns [OF demo_notification_valid m this, of NotificationConsumer]
  obtain w' where run: "deliver NotificationConsumer demo_notification_message ?w = (Inr (), w')"
    by (metis prod.collapse)
  from delivery_outcome [OF demo_notification_valid m demo_fresh this]
  have "event_processed ''evt_7'' ''notification-service'' (db w') \<or>
      dead_lettered ''notification-service'' ''evt_7'' (db w')"
    by (simp add: demo_notification_def mail_down_def)
  then show ?thesis by (simp add: run)
qed

text \<open>C38: a failed dead-letter transaction loses the event.  The consumer gives up on an event
  after its retries; when the database then refuses the connection for the dead-letter
  transaction, the error is swallowed: \<open>handleMessage\<close> returns normally, so the offset is
  committed, although no table has changed and nothing was sent.  Shown for the
  notification service while its mail server is down, which throws at every attempt.\<close>

theorem swallowed_dead_letter:
  assumes "valid_envelope e" "em_value m = wire_of (js_of_envelope e)"
    and "event_type e = NotificationRequested" "shouldFail SvNotification (chaos w)"
    and "db_script w = (Done, n) # (Refused x, k) # rest"
    and "\<not> event_processed (event_id e) ''notification-service'' (db w)"
  shows "\<exists>w'. deliver NotificationConsumer m w = (Inr (), w') \<and> db w' = db w \<and> bus w' = bus w"
proof -
  let ?n = "''notification-service''" and ?e = "e\<lparr>payload := obj_json (payload e)\<rparr>"
  have fail: "try_process ?n notification_processEvent ?e v =
      (Inl (AppError ''Notification mail server unreachable (Chaos Injection)''), v)"
    if "chaos v = chaos w" for v
    using that assms(3,4)
    by (simp add: try_process_def notification_processEvent_def should_fail_def run_defs)
  have wait: "\<exists>v'. wait_to_retry left a v = (Inr (), v') \<and> db v' = db v \<and> bus v' = bus v \<and> chaos v' = chaos v \<and> db_script v' = db_script v" for left a v
    by (simp add: wait_to_retry_def run_defs)
  have loop: "\<exists>err v'. retry_loop ?n notification_processEvent ?e left a le v = (Inr (Some (err, a + left)), v') \<and>
      db v' = db v \<and> bus v' = bus v \<and> db_script v' = db_script v"
    if "chaos v = chaos w" for left a le v
    using that
  proof (induction left arbitrary: a le v)
    case 0
    then show ?case by (simp add: returnE_def split: option.split)
  next
    case (Suc left)
    obtain v1 where v1: "wait_to_retry left (a + 1) v = (Inr (), v1)" "db v1 = db v" "bus v1 = bus v"
      "chaos v1 = chaos v" "db_script v1 = db_script v" using wait by blast
    then show ?case
      using Suc.IH [of v1 "a + 1"] Suc.prems by (auto simp: run_defs fail)
  qed
  define w1 where "w1 = snd (isEventProcessed (event_id e) ?n (seen ?n w))"
  have l: "isEventProcessed (event_id e) ?n (seen ?n w) = (Inr False, w1)"
    and w1: "db w1 = db w" "bus w1 = bus w" "chaos w1 = chaos w" "db_script w1 = (Refused x, k) # rest"
    using assms(5,6) by (simp_all add: w1_def isEventProcessed_def selects_def query_def)
  obtain err v where v: "retry_loop ?n notification_processEvent ?e 3 0 None w1 = (Inr (Some (err, 3)), v)"
    "db v = db w" "bus v = bus w" "db_script v = (Refused x, k) # rest"
    using loop [OF w1(3), of 3 0 None] w1 by auto
  show ?thesis
    unfolding deliver_valid [OF assms(1,2)]
    using v(2-4)
    by (simp add: process_valid_def bindE_def l v(1) maxRetries_def thenE_def handleExhaustedRetriesDLQ_def
        exhausted_transaction_def withTransaction_def control_def Let_def run_defs)
qed

theorem swallowed_dead_letter_witness:
  "\<exists>w'. deliver NotificationConsumer demo_notification_message
       (mail_down (demo_world\<lparr>db_script := [(Done, 0), (Refused ''connection refused'', 0)]\<rparr>)) = (Inr (), w') \<and>
     dlq_messages (db w') = [] \<and> bus w' = []"
proof -
  let ?w = "mail_down (demo_world\<lparr>db_script := [(Done, 0), (Refused ''connection refused'', 0)]\<rparr>)"
  have "\<exists>w'. deliver NotificationConsumer demo_notification_message ?w = (Inr (), w') \<and> db w' = db ?w \<and> bus w' = bus ?w"
    by (rule swallowed_dead_letter [OF demo_notification_valid])
      (simp_all add: demo_notification_message_def demo_notification_def mail_down_def shouldFail_def
        event_processed_def demo_world_def createTables_def empty_database_def)
  then show ?thesis by (auto simp: mail_down_def demo_world_def createTables_def empty_database_def)
qed

section \<open>The retry schedule\<close>

lemma wait_between:
  assumes "0 < left"
  shows "\<exists>v j. wait_to_retry left a w = (Inr (), v) \<and> j < jitterMs \<and> now v = now w + backoff a + j"
  using assms
  by (auto simp: wait_to_retry_def run_defs jitterMs_def intro!: exI [of _ "rand_src w (rand_next w) mod 200"])

text \<open>C26: the retry loop is bounded.  For a handler that always fails, and takes no time of its
  own, the loop makes three attempts, which is the count it reports; it waits 500 and 1000
  milliseconds plus a jitter below 200 each between them and not at all after the last; and
  no delay ever exceeds ten seconds.\<close>

theorem retry_schedule:
  assumes "\<And>v. \<exists>err v'. try_process name h e v = (Inl err, v') \<and> now v' = now v"
  shows "\<exists>err w'. retry_loop name h e maxRetries 0 None w = (Inr (Some (err, 3)), w') \<and>
    now w + 1500 \<le> now w' \<and> now w' < now w + 1900 \<and> backoff n \<le> 10000"
proof -
  obtain e1 w1 where 1: "try_process name h e w = (Inl e1, w1)" "now w1 = now w" using assms by blast
  obtain v1 j1 where v1: "wait_to_retry 2 1 w1 = (Inr (), v1)" "j1 < jitterMs" "now v1 = now w1 + backoff 1 + j1"
    using wait_between by (metis zero_less_numeral)
  obtain e2 w2 where 2: "try_process name h e v1 = (Inl e2, w2)" "now w2 = now v1" using assms by blast
  obtain v2 j2 where v2: "wait_to_retry 1 2 w2 = (Inr (), v2)" "j2 < jitterMs" "now v2 = now w2 + backoff 2 + j2"
    using wait_between by (metis zero_less_one)
  obtain e3 w3 where 3: "try_process name h e v2 = (Inl e3, w3)" "now w3 = now v2" using assms by blast
  have z: "wait_to_retry 0 3 w3 = (Inr (), w3)" by (simp add: wait_to_retry_def whenE_def returnE_def)
  have "retry_loop name h e (Suc (Suc (Suc 0))) 0 None w = (Inr (Some (e3, 3)), w3)"
    using v1(1) v2(1) z by (simp add: tryE_run thenE_def bindE_def 1(1) 2(1) 3(1) returnE_def numeral_2_eq_2 numeral_3_eq_3)
  moreover have "now w + 1500 \<le> now w3" "now w3 < now w + 1900"
    using 1(2) 2(2) 3(2) v1(2,3) v2(2,3) by (simp_all add: backoff_def baseBackoffMs_def jitterMs_def)
  ultimately show ?thesis by (auto simp: maxRetries_def numeral_3_eq_3 backoff_def)
qed

lemma demo_now [simp]: "now demo_world = 0"
  by (simp add: demo_world_def)

theorem retry_schedule_witness:
  "\<exists>err w'. retry_loop ''notification-service'' (\<lambda>_. throwE (AppError ''down'')) demo_notification maxRetries 0 None demo_world =
     (Inr (Some (err, 3)), w') \<and> 1500 \<le> now w' \<and> now w' < 1900"
proof -
  have "\<exists>err v'. try_process ''notification-service'' (\<lambda>_. throwE (AppError ''down'')) demo_notification v = (Inl err, v') \<and> now v' = now v" for v
    by (simp add: try_process_def run_defs)
  from retry_schedule [OF this, of demo_world 1] show ?thesis by auto
qed

section \<open>The dead-letter outbox\<close>

text \<open>C37: the dead-letter outbox is written but never published.  The base class inserts its
  rows PENDING without a lease and marks them published only when they are leased, and no
  worker leases them.  So in any history of deliveries, whatever fails, every row of the
  dead-letter outbox is still PENDING, also when its message was sent.\<close>

theorem dead_letter_outbox_never_published:
  assumes "dlq_outbox (db w) = []"
  shows "dlq_outbox_pending (db (deliveries ds w))"
proof (rule deliveries_follow)
  show "db_follows (\<lambda>d d'. dlq_outbox_pending d \<longrightarrow> dlq_outbox_pending d') (deliver c m)" for c m
    unfolding deliver_def by (rule consumer.handle_message_keeps_pending)
qed (simp add: assms dlq_outbox_pending_def)

theorem dead_letter_outbox_never_published_witness:
  "dlq_outbox_pending (db (deliveries
     [(NotificationConsumer, demo_notification_message), (SagaOrchestrator, demo_message)] (mail_down demo_world)))"
  by (rule dead_letter_outbox_never_published)
    (simp add: mail_down_def demo_world_def createTables_def empty_database_def)

section \<open>Malformed messages\<close>

text \<open>A message that does not parse reaches no handler.  In a world without failures its
  delivery returns; the dead letter is recorded as UNRESOLVED under the event id
  malformed\_event with the raw text; one message goes to the dead-letter topic; and no
  table of the domain changes.\<close>

theorem malformed_message_dead_lettered:
  assumes "\<And>v. \<exists>err v'. parse_message (em_value m) v = (Inl err, v') \<and> db v' = db v \<and> bus v' = bus v \<and>
      db_script v' = db_script v \<and> kafka_script v' = kafka_script v \<and> uuid_src v' = uuid_src v"
    and "db_script w = []" "kafka_script w = []" "fresh_dlq_ids w"
  shows "\<exists>w' k q. deliver c m w = (Inr (), w') \<and>
    lookup_row dl_id k (dlq_messages (db w')) = Some q \<and> dl_event_id q = ''malformed_event'' \<and>
    dl_status q = UNRESOLVED \<and> obj_get (dl_payload q) ''raw_message'' = JStr (wire_text (em_value m)) \<and>
    domain_tables (db w') = domain_tables (db w) \<and>
    (\<exists>x. bus w' = bus w @ [x] \<and> m_topic x = DlqTopic \<and> m_key x = k)"
proof -
  let ?n = "consumer_name c"
  obtain err v where v: "parse_message (em_value m) (seen ?n w) = (Inl err, v)" "db v = db w" "bus v = bus w"
    "db_script v = []" "kafka_script v = []" "uuid_src v = uuid_src w"
    using assms(1) [of "seen ?n w"] assms(2,3) by auto
  define k where "k = ''dlq_'' @ take 8 (uuid_src v (uuid_next v))"
  define pl where "pl = malformed_payload ?n k m err (error_stack v err) (toISOString (now v))"
  define q where "q = \<lparr>dq_id = k, dq_eventId = ''malformed_event'', dq_topic = em_topic m,
      dq_partition = em_partition m, dq_offset = em_offset m, dq_consumerName = ?n,
      dq_errorMessage = err_message err, dq_stackTrace = error_stack v err, dq_payload = pl,
      dq_correlationId = None\<rparr>"
  define ob where "ob = ''outbox_'' @ k"
  define x where "x = \<lparr>dx_id = ob, dx_dlqId = k, dx_topic = DlqTopic, dx_payload = pl\<rparr>"
  define msg where "msg = \<lparr>m_topic = DlqTopic, m_key = k, m_value = wire_of (JObj pl), m_headers = []\<rparr>"
  define T where "T = withTransaction (thenE (recordDLQMessage Client q) (insertDLQOutboxEvent Client x))"
  define v1 where "v1 = v\<lparr>uuid_next := Suc (uuid_next v)\<rparr>"
  have fresh: "lookup_row dl_id (dq_id q) (dlq_messages (db w)) = None"
    using assms(4) by (simp add: q_def k_def fresh_dlq_ids_def v(6))
  have row: "lookup_row dl_id k (dlq_messages (put_dlq q t (db w))) = Some (new_dlq_row t q)" for t
    using lookup_put_dlq [OF fresh] by (simp add: q_def)
  have raw: "obj_get (obj_json pl) ''raw_message'' = JStr (wire_text (em_value m))"
    by (simp add: pl_def malformed_payload_def obj_get_json)
  have "deliver c m w = handleNonRetryableDLQ ?n m err v"
    using v(1) by (simp add: deliver_def handleMessage_def bindE_def thenE_def iso_now_def getsE_def seen_def
        parse_result_def tryE_def returnE_def)
  also have "handleNonRetryableDLQ ?n m err v =
      tryE (thenE T
        (thenE (producer_send [msg]) (thenE (markDLQOutboxPublished Pool ob (Some ?n)) (returnE ()))))
        (\<lambda>_. returnE ()) v1"
    by (simp add: handleNonRetryableDLQ_def bindE_def uuid8_def uuid_def getsE_def iso_now_def returnE_def
        k_def ob_def pl_def q_def x_def msg_def v1_def T_def Let_def)
  finally have run: "deliver c m w = \<dots>" .
  have calm: "db_script v1 = []" "kafka_script v1 = []" "db v1 = db w" "bus v1 = bus w"
    using v by (simp_all add: v1_def)
  define t where "t = now v1"
  define d where "d = put_dlq q t (db w)"
  define d2 where "d2 = d\<lparr>dlq_outbox := insert_ignore ob_id (new_dlq_outbox_row t x) (dlq_outbox d)\<rparr>"
  have tx: "\<exists>v2. T v1 = (Inr (), v2) \<and>
      db v2 = d2 \<and> bus v2 = bus w \<and> db_script v2 = [] \<and> kafka_script v2 = []"
    using calm
    by (simp add: T_def withTransaction_def recordDLQMessage_def insertDLQOutboxEvent_def thenE_def bindE_def writes_def
        d_def d2_def t_def begin_tx_def)
  then obtain v2 where v2: "T v1 = (Inr (), v2)"
    "db v2 = d2" "bus v2 = bus w" "db_script v2 = []" "kafka_script v2 = []" by blast
  define v3 where "v3 = v2\<lparr>bus := bus w @ [msg]\<rparr>"
  have send: "producer_send [msg] v2 = (Inr (), v3)" using v2 by (simp add: v3_def)
  have v3: "db v3 = d2" "bus v3 = bus w @ [msg]" by (simp_all add: v3_def v2)
  obtain b v4 where mark: "markDLQOutboxPublished Pool ob (Some ?n) v3 = (b, v4)" by fastforce
  have same: "dlq_messages (db v4) = dlq_messages d2" "domain_tables (db v4) = domain_tables d2" "bus v4 = bus w @ [msg]"
    using db_followsD [OF keep_dlq_outbox_ops(3) [of dlq_messages Pool ob "Some ?n"], of v3]
      db_followsD [OF keep_dlq_outbox_ops(3) [of domain_tables Pool ob "Some ?n"], of v3]
      bus_quietD [OF quiet_outbox_ops(7) [of Pool ob "Some ?n"], of v3]
    by (simp_all add: mark v3 domain_tables_def)
  have "deliver c m w = (Inr (), v4)"
    unfolding run by (simp add: tryE_run thenE_def bindE_def v2(1) send mark returnE_def split: sum.split)
  moreover have "lookup_row dl_id k (dlq_messages (db v4)) = Some (new_dlq_row t q)"
    using row by (simp add: same d2_def d_def)
  moreover have "domain_tables d2 = domain_tables (db w)"
    by (simp add: d2_def d_def put_dlq_def domain_tables_def)
  then have "domain_tables (db v4) = domain_tables (db w)" by (simp add: same)
  moreover note same(3)
  ultimately show ?thesis
    using raw by (intro exI [of _ v4] exI [of _ k] exI [of _ "new_dlq_row t q"]) (simp add: new_dlq_row_def q_def msg_def)
qed

definition garbled_message :: each_message where
  "garbled_message = \<lparr>em_topic = OrdersTopic, em_partition = 0, em_offset = ''9'', em_value = Wire ''{oops'' None\<rparr>"

theorem malformed_message_dead_lettered_witness:
  "\<exists>w' k q. deliver PaymentConsumer garbled_message demo_world = (Inr (), w') \<and>
     lookup_row dl_id k (dlq_messages (db w')) = Some q \<and> dl_event_id q = ''malformed_event'' \<and>
     dl_status q = UNRESOLVED \<and> (\<exists>x. bus w' = [x] \<and> m_topic x = DlqTopic)"
proof -
  have p: "\<exists>err v'. parse_message (em_value garbled_message) v = (Inl err, v') \<and> db v' = db v \<and> bus v' = bus v \<and>
      db_script v' = db_script v \<and> kafka_script v' = kafka_script v \<and> uuid_src v' = uuid_src v" for v
    by (simp add: garbled_message_def parse_message_def throwE_def)
  have "fresh_dlq_ids demo_world"
    by (simp add: fresh_dlq_ids_def demo_world_def createTables_def empty_database_def)
  from malformed_message_dead_lettered [OF p _ _ this, of PaymentConsumer] show ?thesis
    by simp blast
qed

end
