(* ===== verification/Provenance.thy ===== *)
theory Provenance
  imports Handler_Props
begin

text \<open>
  What the consumers send: every message is a follow-up of the event that was delivered, of
  a type and on a topic that belong to the consumer, and a domain service answers its
  commands with exactly one event.
\<close>

section \<open>The vocabulary of a consumer\<close>

fun vocabulary :: "platform_consumer \<Rightarrow> (topic \<times> event_type) list" where
  "vocabulary PaymentConsumer =
     [(PaymentsTopic, PaymentAuthorized), (PaymentsTopic, PaymentRejected), (PaymentsTopic, PaymentRefunded)]"
| "vocabulary InventoryConsumer =
     [(InventoryTopic, InventoryReserved), (InventoryTopic, InventoryReservationFailed)]"
| "vocabulary FraudConsumer = [(FraudTopic, FraudApproved), (FraudTopic, FraudRejected)]"
| "vocabulary ShippingConsumer = [(ShippingTopic, ShipmentCreated), (ShippingTopic, ShipmentFailed)]"
| "vocabulary NotificationConsumer = [(NotificationsTopic, NotificationSent)]"
| "vocabulary SagaOrchestrator =
     [(PaymentsTopic, PaymentRequested), (InventoryTopic, InventoryReservationRequested),
      (FraudTopic, FraudCheckRequested), (ShippingTopic, ShipmentRequested),
      (NotificationsTopic, NotificationRequested), (OrdersTopic, OrderCompleted), (OrdersTopic, OrderCancelled),
      (OrdersTopic, OrderFailed), (PaymentsTopic, PaymentRefundRequested), (InventoryTopic, InventoryReleased)]"
| "vocabulary ProjectionConsumer = []"

definition answers_with :: "platform_consumer \<Rightarrow> envelope \<Rightarrow> message \<Rightarrow> bool" where
  "answers_with c e x \<longleftrightarrow>
     follow_up (consumer_name c) (correlation_id e) (event_id e) x \<and>
     (\<exists>ty. (m_topic x, ty) \<in> set (vocabulary c) \<and> map_of (m_headers x) ''event-type'' = Some (event_name ty))"

lemma answers_with_emit [simp]:
  "answers_with c e (emit_message (consumer_name c) p ev) \<longleftrightarrow>
     e_correlationId p = correlation_id e \<and> e_causationId p = event_id e \<and>
     (\<exists>ty. (e_topic p, ty) \<in> set (vocabulary c) \<and> event_name (e_eventType p) = event_name ty)"
  by (simp add: answers_with_def) (simp add: emit_message_def)

lemma sends_reply:
  assumes "e_correlationId p = correlation_id e" "e_causationId p = event_id e"
    "(e_topic p, e_eventType p) \<in> set (vocabulary c)" "name = consumer_name c"
  shows "sends (answers_with c e) (emit_event name p)"
  unfolding assms(4) by (rule sends_emit_event) (use assms in auto)

lemma quiet_sends_basic:
  "sends P (returnE x)" "sends P (throwE y)" "sends P (liftE r)" "sends P (getsE f)" "sends P uuid8"
  "sends P (random_below n)" "sends P clock" "sends P iso_now" "sends P (sleep n)" "sends P (query rn s)"
  by (intro quiet_sends quiet_basic quiet_base quiet_query)+

lemma domain_sends:
  "sends (answers_with PaymentConsumer e) (payment_processEvent e)"
  "sends (answers_with InventoryConsumer e) (inventory_processEvent e)"
  "sends (answers_with FraudConsumer e) (fraud_processEvent e)"
  "sends (answers_with ShippingConsumer e) (shipping_processEvent e)"
  "sends (answers_with NotificationConsumer e) (notification_processEvent e)"
  unfolding handler_defs
  by (intro sends_rules quiet_sends_basic sends_reply; simp add: reply_def)+

lemma quiet_if: "bus_quiet m \<Longrightarrow> bus_quiet n \<Longrightarrow> bus_quiet (if b then m else n)"
  by simp

lemma saga_sends: "sends (answers_with SagaOrchestrator e) (saga_processEvent e)"
proof -
  have "sends (answers_with SagaOrchestrator e) (saga_case e s)" for s
    by (rule saga_case_cases [where P = "sends (answers_with SagaOrchestrator e)"];
        (unfold saga_case_defs saveSagaInstance_def getSagaByAggregateIdForUpdate_def)?)
      (intro sends_rules quiet_sends_basic quiet_sends [OF quiet_withTransaction] quiet_if quiet_rules sends_reply;
       simp add: reply_def)+
  then show ?thesis
    unfolding saga_processEvent_def getSagaByAggregateId_def
    by (intro sends_bindE quiet_sends_basic)
qed

lemma consumer_sends: "sends (answers_with c e) (consumer_handler c e)"
proof (cases c)
  case ProjectionConsumer
  have "bus_quiet (projection_processEvent e)"
    unfolding projection_processEvent_def appendToEventStore_def append_execute_def recordEvent_def runner.case
    by (intro quiet_rules quiet_apply quiet_live)
  then show ?thesis by (simp add: ProjectionConsumer quiet_sends)
qed (simp_all add: domain_sends saga_sends)

section \<open>Around the handler\<close>

lemma house_sends:
  assumes "run_follows housekeeping m" and "\<And>x. m_topic x = DlqTopic \<Longrightarrow> P x"
  shows "sends P m"
proof -
  have "sends (\<lambda>x. m_topic x = DlqTopic) m"
    using assms(1) by (simp add: run_follows_def housekeeping_def sends_def)
  then show ?thesis by (rule sends_mono) (rule assms(2))
qed

lemma process_valid_sends:
  assumes "sends P (h e)" and dlq: "\<And>x. m_topic x = DlqTopic \<Longrightarrow> P x"
  shows "sends P (process_valid name h m e)"
proof -
  note house = housekeeping_steps [THEN house_sends, OF dlq] housekeeping_dlq [THEN house_sends, OF dlq]
  have loop: "sends P (retry_loop name h e left a le)" for left a le
  proof (induction left arbitrary: a le)
    case (Suc left)
    then show ?case
      unfolding retry_loop.simps try_process_def by (intro sends_rules quiet_sends_basic house assms(1))
  qed (simp add: quiet_sends_basic)
  have "sends P (case p of (err, n) \<Rightarrow> thenE (update_consumer name f) (handleExhaustedRetriesDLQ name e m err n))" for p f
    by (cases p) (simp add: sends_thenE house)
  then show ?thesis
    unfolding process_valid_def by (intro sends_rules quiet_sends_basic house loop)
qed

text \<open>C19: provenance.  Whatever fails and however often the handler is retried, a delivery sends
  only dead letters and messages of the consumer's own vocabulary, on the topic that
  belongs to the event type, which carry the correlation id of the delivered event and name
  it as their cause.  No service speaks for another.\<close>

theorem sent_messages_follow_the_event:
  assumes "valid_envelope e" "em_value m = wire_of (js_of_envelope e)"
  shows "\<exists>ms. bus (snd (deliver c m w)) = bus w @ ms \<and>
    list_all (\<lambda>x. m_topic x = DlqTopic \<or> answers_with c e x) ms"
proof -
  let ?e = "e\<lparr>payload := obj_json (payload e)\<rparr>"
  have "answers_with c ?e = answers_with c e" by (simp add: answers_with_def fun_eq_iff)
  then have "sends (\<lambda>x. m_topic x = DlqTopic \<or> answers_with c e x) (consumer_handler c ?e)"
    using consumer_sends [of c ?e] by (auto elim: sends_mono)
  then have "sends (\<lambda>x. m_topic x = DlqTopic \<or> answers_with c e x)
      (process_valid (consumer_name c) (consumer_handler c) m ?e)"
    by (rule process_valid_sends) simp
  from sendsE [OF this, of "seen (consumer_name c) w"] show ?thesis
    unfolding deliver_valid [OF assms] by (metis seen_simps(2))
qed

theorem sent_messages_follow_the_event_witness:
  "\<exists>ms. bus (snd (deliver SagaOrchestrator demo_message demo_world)) = ms \<and>
    list_all (\<lambda>x. m_topic x = DlqTopic \<or> answers_with SagaOrchestrator demo_order x) ms"
  using sent_messages_follow_the_event [OF demo_order_valid, of demo_message SagaOrchestrator demo_world]
  by (simp add: demo_message_def)

end
