(* ===== verification/Services.thy ===== *)
theory Services
  imports Provenance
begin

text \<open>
  The domain services as functions from a command to an answer: the decision table of the
  five services, and the proof that the handlers implement it on every branch, the chaos
  faults and the malformed orders included.
\<close>

section \<open>The decision table\<close>

datatype service_reply = Silent | Throws | Answers topic event_type

fun domain_service :: "platform_consumer \<Rightarrow> bool" where
  "domain_service SagaOrchestrator = False"
| "domain_service ProjectionConsumer = False"
| "domain_service _ = True"

definition requested_items :: "envelope \<Rightarrow> js" where
  "requested_items e = js_or (obj_get (payload e) ''items'') (JArr [])"

fun reply_to :: "platform_consumer \<Rightarrow> chaos_config \<Rightarrow> envelope \<Rightarrow> service_reply" where
  "reply_to PaymentConsumer cfg e =
     (if event_type e = PaymentRequested
      then Answers PaymentsTopic (if shouldFail SvPayment cfg then PaymentRejected else PaymentAuthorized)
      else if event_type e = PaymentRefundRequested then Answers PaymentsTopic PaymentRefunded else Silent)"
| "reply_to InventoryConsumer cfg e =
     (if event_type e = InventoryReservationRequested
      then (case has_out_of_stock (requested_items e) of
              Inl _ \<Rightarrow> Throws
            | Inr missing \<Rightarrow> Answers InventoryTopic
                (if shouldFail SvInventory cfg \<or> missing then InventoryReservationFailed else InventoryReserved))
      else Silent)"
| "reply_to FraudConsumer cfg e =
     (if event_type e = FraudCheckRequested
      then Answers FraudTopic
             (if is_high_risk (shouldFail SvFraud cfg) (payload e) then FraudRejected else FraudApproved)
      else Silent)"
| "reply_to ShippingConsumer cfg e =
     (if event_type e = ShipmentRequested
      then Answers ShippingTopic (if shouldFail SvShipping cfg then ShipmentFailed else ShipmentCreated)
      else Silent)"
| "reply_to NotificationConsumer cfg e =
     (if event_type e = NotificationRequested
      then (if shouldFail SvNotification cfg then Throws else Answers NotificationsTopic NotificationSent)
      else Silent)"
| "reply_to _ cfg e = Silent"

text \<open>One answer on the log: the message and the envelope it carries.\<close>

definition one_answer :: "platform_consumer \<Rightarrow> envelope \<Rightarrow> topic \<Rightarrow> event_type \<Rightarrow> world \<Rightarrow> world \<Rightarrow> bool" where
  "one_answer c e tpc ty w w' \<longleftrightarrow>
     (\<exists>p u t. bus w' = bus w @ [emit_message (consumer_name c) p (emit_envelope (consumer_name c) t u p)] \<and>
        e_topic p = tpc \<and> e_eventType p = ty \<and> e_aggregateId p = aggregate_id e \<and>
        e_correlationId p = correlation_id e \<and> e_causationId p = event_id e \<and> e_eventId p = None \<and>
        e_aggregateType p \<noteq> [] \<and> obj_get (e_payload p) ''order_id'' = JStr (aggregate_id e))"

lemma emit_event_done:
  "kafka_script w = [] \<Longrightarrow> e_eventId p = None \<Longrightarrow>
   emit_event name p w = (Inr (), w\<lparr>uuid_next := Suc (uuid_next w),
     bus := bus w @ [emit_message name p (emit_envelope name (now w) (uuid_src w (uuid_next w)) p)]\<rparr>)"
  by (simp add: emit_event_def bindE_def emit_done Let_def returnE_def)

lemma latency_runs: "\<exists>t. checkLatency s w = (Inr (), w\<lparr>now := t\<rparr>)"
  by (auto simp: checkLatency_def run_defs intro: exI [of _ "now w"])

lemma one_answer_emit:
  assumes "bus w' = bus w @ [emit_message (consumer_name c) (reply e tpc ty agg pl)
      (emit_envelope (consumer_name c) t u (reply e tpc ty agg pl))]"
    and "agg \<noteq> []" "obj_get pl ''order_id'' = JStr (aggregate_id e)"
  shows "one_answer c e tpc ty w w'"
  unfolding one_answer_def
  by (rule exI [of _ "reply e tpc ty agg pl"], rule exI [of _ u], rule exI [of _ t])
    (simp add: assms(1) reply_def assms(2,3))

text \<open>A handler implements its row of the table.\<close>

definition implements :: "platform_consumer \<Rightarrow> envelope \<Rightarrow> world \<Rightarrow> bool" where
  "implements c e w \<longleftrightarrow>
     (case reply_to c (chaos w) e of
        Silent \<Rightarrow> \<exists>w'. consumer_handler c e w = (Inr (), w') \<and> bus w' = bus w
      | Throws \<Rightarrow> \<exists>err w'. consumer_handler c e w = (Inl err, w') \<and> bus w' = bus w
      | Answers tpc ty \<Rightarrow> \<exists>w'. consumer_handler c e w = (Inr (), w') \<and> one_answer c e tpc ty w w')"

lemmas answer_run =
  thenE_def bindE_def should_fail_def getsE_def uuid8_def uuid_def iso_now_def clock_def random_below_def
  returnE_def liftE_def throwE_def Let_def

lemma reply_event_id [simp]: "e_eventId (reply e tpc ty agg pl) = None"
  by (simp add: reply_def)

lemma payment_implements: "kafka_script w = [] \<Longrightarrow> implements PaymentConsumer e w"
proof -
  assume k: "kafka_script w = []"
  obtain t where t: "checkLatency SvPayment w = (Inr (), w\<lparr>now := t\<rparr>)" using latency_runs by blast
  show ?thesis
    unfolding implements_def
    by (auto simp: payment_processEvent_def answer_run t k emit_event_done intro!: one_answer_emit
        simp: payment_rejected_def payment_authorized_def payment_refunded_def)
qed

lemma inventory_implements: "kafka_script w = [] \<Longrightarrow> implements InventoryConsumer e w"
proof -
  assume k: "kafka_script w = []"
  obtain t where t: "checkLatency SvInventory w = (Inr (), w\<lparr>now := t\<rparr>)" using latency_runs by blast
  show ?thesis
    unfolding implements_def
    by (cases "has_out_of_stock (requested_items e)")
      (auto simp: inventory_processEvent_def answer_run t k emit_event_done requested_items_def intro!: one_answer_emit
        simp: reservation_failed_def reservation_made_def)
qed

lemma fraud_implements: "kafka_script w = [] \<Longrightarrow> implements FraudConsumer e w"
proof -
  assume k: "kafka_script w = []"
  obtain t where t: "checkLatency SvFraud w = (Inr (), w\<lparr>now := t\<rparr>)" using latency_runs by blast
  show ?thesis
    unfolding implements_def
    by (auto simp: fraud_processEvent_def answer_run t k emit_event_done intro!: one_answer_emit
        simp: fraud_rejected_def fraud_approved_def)
qed

lemma shipping_implements: "kafka_script w = [] \<Longrightarrow> implements ShippingConsumer e w"
  unfolding implements_def
  by (auto simp: shipping_processEvent_def answer_run emit_event_done intro!: one_answer_emit
      simp: shipment_failed_def shipment_created_def)

lemma notification_implements: "kafka_script w = [] \<Longrightarrow> implements NotificationConsumer e w"
  unfolding implements_def
  by (auto simp: notification_processEvent_def answer_run emit_event_done intro!: one_answer_emit
      simp: notification_sent_def)

text \<open>C20: the domain services implement their decision table.  While the broker accepts, a
  service ignores what is not one of its commands; it throws on an order whose items are no
  list (inventory) and while its mail server is down (notification); and it answers every
  other command with exactly one message, of the event type and on the topic the table
  gives for the chaos configuration and the payload, keyed by the order, with the
  correlation of the command, naming it as the cause, and with the order id in the
  payload.\<close>

theorem services_implement_table:
  assumes "domain_service c" "kafka_script w = []"
  shows "implements c e w"
  using assms
  by (cases c) (simp_all add: payment_implements inventory_implements fraud_implements
      shipping_implements notification_implements)

definition demo_request :: envelope where
  "demo_request = demo_event FraudCheckRequested ''evt_8''
     [(''user_id'', JStr ''fraudster_7''), (''amount'', num 10)]"

theorem services_implement_table_witness:
  "\<exists>w'. fraud_processEvent demo_request demo_world = (Inr (), w') \<and>
     one_answer FraudConsumer demo_request FraudTopic FraudRejected demo_world w'"
proof -
  have "str_includes ''fraudster_7'' ''fraudster''" by code_simp
  then have "reply_to FraudConsumer (chaos demo_world) demo_request = Answers FraudTopic FraudRejected"
    by (simp add: demo_request_def is_high_risk_def)
  moreover have "implements FraudConsumer demo_request demo_world"
    by (rule services_implement_table) simp_all
  ultimately show ?thesis by (simp add: implements_def)
qed

end
