(* ===== verification/Read_Model_Spec.thy ===== *)
theory Read_Model_Spec
  imports Projection
begin

text \<open>
  What the projection does to one order, as a function on the row of that order alone, and
  the proof that the SQL of \<open>Projection\<close> does exactly this: the row of the event's order
  steps, every other order keeps its row.  The stock side follows in the second part.
\<close>

section \<open>The specification\<close>

fun projected_status :: "event_type \<Rightarrow> string option" where
  "projected_status OrderCreated = Some ''pending''"
| "projected_status PaymentRequested = Some ''payment_pending''"
| "projected_status PaymentAuthorized = Some ''payment_approved''"
| "projected_status PaymentRejected = Some ''payment_rejected''"
| "projected_status InventoryReservationRequested = Some ''inventory_pending''"
| "projected_status InventoryReserved = Some ''inventory_reserved''"
| "projected_status InventoryReservationFailed = Some ''inventory_failed''"
| "projected_status FraudCheckRequested = Some ''fraud_pending''"
| "projected_status FraudApproved = Some ''fraud_approved''"
| "projected_status FraudRejected = Some ''fraud_rejected''"
| "projected_status ShipmentRequested = Some ''shipping_pending''"
| "projected_status ShipmentCreated = Some ''shipping_created''"
| "projected_status OrderCompleted = Some ''completed''"
| "projected_status OrderCancelled = Some ''cancelled''"
| "projected_status OrderFailed = Some ''failed''"
| "projected_status _ = None"

definition gives_reason :: "event_type \<Rightarrow> bool" where
  "gives_reason t \<longleftrightarrow>
     t \<in> {PaymentRejected, InventoryReservationFailed, FraudRejected, OrderCancelled, OrderFailed}"

text \<open>The identifiers an event brings.\<close>

definition add_references :: "envelope \<Rightarrow> order_read_row \<Rightarrow> order_read_row" where
  "add_references e r = (let p = (\<lambda>k. pg_param (obj_get (payload e) k)) in
     if event_type e = PaymentAuthorized then r\<lparr>om_payment_id := p ''payment_id''\<rparr>
     else if event_type e = InventoryReserved then r\<lparr>om_reservation_id := p ''reservation_id''\<rparr>
     else if event_type e = FraudApproved then r\<lparr>om_fraud_check_id := p ''fraud_check_id''\<rparr>
     else if event_type e = ShipmentCreated
          then r\<lparr>om_shipment_id := p ''shipment_id'', om_tracking_number := p ''tracking_number''\<rparr>
     else if gives_reason (event_type e) then r\<lparr>om_failure_reason := p ''reason''\<rparr>
     else r)"

definition order_change :: "envelope \<Rightarrow> order_read_row \<Rightarrow> order_read_row" where
  "order_change e r =
     (case projected_status (event_type e) of
        None \<Rightarrow> r | Some st \<Rightarrow> set_status st (occurred_at e) (add_references e r))"

definition order_step :: "envelope \<Rightarrow> order_read_row option \<Rightarrow> exn + order_read_row option" where
  "order_step e row =
     (if event_type e = OrderCreated
      then bind_sum (new_order_read e) (\<lambda>r.
             Inr (Some (case row of None \<Rightarrow> r | Some old \<Rightarrow> merge_order_read old r)))
      else Inr (map_option (order_change e) row))"

text \<open>The row of an order after a list of its events.\<close>

fun order_fold :: "envelope list \<Rightarrow> order_read_row option \<Rightarrow> exn + order_read_row option" where
  "order_fold [] row = Inr row"
| "order_fold (e # es) row = bind_sum (order_step e row) (order_fold es)"

section \<open>The projection steps the row\<close>

abbreviation order_of :: "string \<Rightarrow> database \<Rightarrow> order_read_row option" where
  "order_of i d \<equiv> lookup_row om_order_id i (order_read_model d)"

lemma set_status_id [simp]: "om_order_id (set_status st ts r) = om_order_id r"
  by (simp add: set_status_def)

lemma update_order_of:
  assumes "run_sql (update_order_read i f) w = (Inr u, w')" and "\<And>r. om_order_id (f r) = om_order_id r"
  shows "order_of j (db w') = (if j = i then map_option f (order_of i (db w)) else order_of j (db w))"
proof -
  have "db w' = (db w)\<lparr>order_read_model := update_rows (\<lambda>r. om_order_id r = i) f (order_read_model (db w))\<rparr>"
    using run_sql_InrD [OF assms(1)] by (simp add: update_order_read_def)
  then show ?thesis
    using assms(2)
    by (auto simp: lookup_row_update_rows map_option_case dest!: lookup_row_Some split: option.split)
qed

lemma other_statement_order:
  assumes "db_follows (\<lambda>d d'. order_read_model d' = order_read_model d) m" "m w = (x, w')"
  shows "order_read_model (db w') = order_read_model (db w)"
  using db_followsD [OF assms(1), of w] assms(2) by simp

lemma statements_keep_orders:
  "db_follows (\<lambda>d d'. order_read_model d' = order_read_model d) (run_sql (insert_payment_read e))"
  "db_follows (\<lambda>d d'. order_read_model d' = order_read_model d) (run_sql (refund_payment_read e))"
  "db_follows (\<lambda>d d'. order_read_model d' = order_read_model d) (run_sql (insert_shipment_read e))"
  "db_follows (\<lambda>d d'. order_read_model d' = order_read_model d) (stock_items f e)"
  by (auto intro!: keep_run_sql keep_stock_items dest!: read_model_writes)

text \<open>Two shapes of branch: one update of the order, and one followed by a statement elsewhere.\<close>

lemma update_then_order:
  assumes "thenE (run_sql (update_order_read i f)) m w = (Inr u, w')"
    and "\<And>r. om_order_id (f r) = om_order_id r"
    and "db_follows (\<lambda>d d'. order_read_model d' = order_read_model d) m"
  shows "order_of j (db w') = (if j = i then map_option f (order_of i (db w)) else order_of j (db w))"
proof -
  obtain v w1 where "run_sql (update_order_read i f) w = (Inr v, w1)" "m w1 = (Inr u, w')"
    using thenE_InrD [OF assms(1)] by blast
  then show ?thesis
    using update_order_of [of i f w v w1 j] assms(2) other_statement_order [OF assms(3)] by auto
qed

lemma insert_order_of:
  assumes "run_sql (insert_order_read e) w = (Inr u, w')" "event_type e = OrderCreated"
  shows "order_step e (order_of (aggregate_id e) (db w)) = Inr (order_of (aggregate_id e) (db w'))"
    and "j \<noteq> aggregate_id e \<Longrightarrow> order_of j (db w') = order_of j (db w)"
proof -
  obtain r where r: "new_order_read e = Inr r"
    and d: "order_read_model (db w') = upsert om_order_id merge_order_read r (order_read_model (db w))"
    using run_sql_InrD [OF assms(1)] by (auto simp: insert_order_read_def bind_sum_Inr dest: sym)
  have id: "om_order_id r = aggregate_id e"
    using r by (auto simp: new_order_read_def Let_def bind_sum_Inr)
  show "order_step e (order_of (aggregate_id e) (db w)) = Inr (order_of (aggregate_id e) (db w'))"
    using order_read.lookup_upsert_same [of r "order_read_model (db w)"]
    by (simp add: order_step_def assms(2) r d id split: option.split)
  show "order_of j (db w') = order_of j (db w)" if "j \<noteq> aggregate_id e"
    using order_read.lookup_upsert_other [of j r] that by (simp add: d id)
qed

definition steps_order :: "envelope \<Rightarrow> database \<Rightarrow> database \<Rightarrow> bool" where
  "steps_order e d d' \<longleftrightarrow>
     order_step e (order_of (aggregate_id e) d) = Inr (order_of (aggregate_id e) d') \<and>
     (\<forall>j. j \<noteq> aggregate_id e \<longrightarrow> order_of j d' = order_of j d)"

lemma steps_orderI:
  assumes "\<And>j. order_of j d' = (if j = aggregate_id e then map_option f (order_of (aggregate_id e) d) else order_of j d)"
    and "event_type e \<noteq> OrderCreated" "f = order_change e"
  shows "steps_order e d d'"
  using assms by (simp add: steps_order_def order_step_def)

lemma steps_order_id:
  assumes "order_read_model d' = order_read_model d"
    and "event_type e \<noteq> OrderCreated" "order_change e = id"
  shows "steps_order e d d'"
  using assms by (simp add: steps_order_def order_step_def option.map_id)

lemma order_change_fields:
  "projected_status (event_type e) = Some st \<Longrightarrow>
   order_change e = (\<lambda>r. set_status st (occurred_at e) (add_references e r))"
  "projected_status (event_type e) = None \<Longrightarrow> order_change e = id"
  by (auto simp: order_change_def)

lemma set_failure_eq:
  "gives_reason (event_type e) \<Longrightarrow>
   set_failure st e = (\<lambda>r. set_status st (occurred_at e) (add_references e r))"
  by (auto simp: set_failure_def set_status_def add_references_def gives_reason_def Let_def)

lemma set_failure_id [simp]: "om_order_id (set_failure st e r) = om_order_id r"
  by (simp add: set_failure_def)

lemma order_change_id [simp]: "om_order_id (order_change e r) = om_order_id r"
  by (simp add: order_change_def add_references_def Let_def split: option.split)

text \<open>The remaining branches update the order's row or do nothing.\<close>

lemma project_simple:
  assumes "event_type e \<notin> {OrderCreated, PaymentAuthorized, InventoryReserved, ShipmentCreated,
    PaymentRefunded, InventoryReleased}"
  shows "project e = (case projected_status (event_type e) of None \<Rightarrow> returnE ()
           | Some st \<Rightarrow> run_sql (update_order_read (aggregate_id e) (order_change e)))"
  using assms
  by (cases "event_type e")
    (simp_all add: project_def Let_def order_change_fields set_failure_eq gives_reason_def add_references_def)

lemma project_simple_steps:
  assumes "event_type e \<notin> {OrderCreated, PaymentAuthorized, InventoryReserved, ShipmentCreated,
    PaymentRefunded, InventoryReleased}" and run: "project e w = (Inr u, w')"
  shows "steps_order e (db w) (db w')"
proof (cases "projected_status (event_type e)")
  case None
  then have "w' = w" using run project_simple [OF assms(1)] by (simp add: returnE_def)
  then show ?thesis using assms(1) order_change_fields(2) [OF None] by (intro steps_order_id) auto
next
  case (Some st)
  then have "run_sql (update_order_read (aggregate_id e) (order_change e)) w = (Inr u, w')"
    using run project_simple [OF assms(1)] by simp
  from update_order_of [OF this order_change_id] show ?thesis
    using assms(1) by (intro steps_orderI [where f = "order_change e"]) simp_all
qed

lemma project_steps_order:
  assumes "project e w = (Inr u, w')"
  shows "steps_order e (db w) (db w')"
proof (cases "event_type e")
  case OrderCreated
  then have "run_sql (insert_order_read e) w = (Inr u, w')"
    using assms by (simp add: project_def Let_def)
  from insert_order_of [OF this OrderCreated] show ?thesis by (simp add: steps_order_def)
next
  case PaymentAuthorized
  then have *: "thenE (run_sql (update_order_read (aggregate_id e) (order_change e)))
      (run_sql (insert_payment_read e)) w = (Inr u, w')"
    using assms by (simp add: project_def Let_def order_change_fields add_references_def)
  show ?thesis
    by (rule steps_orderI [OF update_then_order [OF * _ statements_keep_orders(1)]])
      (simp_all add: PaymentAuthorized order_change_def add_references_def Let_def)
next
  case InventoryReserved
  then have *: "thenE (run_sql (update_order_read (aggregate_id e) (order_change e)))
      (stock_items reserve_row e) w = (Inr u, w')"
    using assms by (simp add: project_def Let_def order_change_fields add_references_def)
  show ?thesis
    by (rule steps_orderI [OF update_then_order [OF * _ statements_keep_orders(4)]])
      (simp_all add: InventoryReserved order_change_def add_references_def Let_def)
next
  case ShipmentCreated
  then have *: "thenE (run_sql (update_order_read (aggregate_id e) (order_change e)))
      (run_sql (insert_shipment_read e)) w = (Inr u, w')"
    using assms by (simp add: project_def Let_def order_change_fields add_references_def)
  show ?thesis
    by (rule steps_orderI [OF update_then_order [OF * _ statements_keep_orders(3)]])
      (simp_all add: ShipmentCreated order_change_def add_references_def Let_def)
next
  case PaymentRefunded
  then have "run_sql (refund_payment_read e) w = (Inr u, w')"
    using assms by (simp add: project_def Let_def)
  from other_statement_order [OF statements_keep_orders(2) this] show ?thesis
    by (intro steps_order_id) (simp_all add: PaymentRefunded order_change_def fun_eq_iff)
next
  case InventoryReleased
  then have "stock_items release_row e w = (Inr u, w')"
    using assms by (simp add: project_def Let_def)
  from other_statement_order [OF statements_keep_orders(4) this] show ?thesis
    by (intro steps_order_id) (simp_all add: InventoryReleased order_change_def fun_eq_iff)
qed (use assms project_simple_steps in simp_all)

section \<open>Applying an event once\<close>

lemma applied_InrD:
  assumes "isProjectionEventApplied r name i w = (Inr b, w')"
  shows "b = projection_applied name i (db w)" "db w' = db w" "r = Client \<Longrightarrow> \<not> tx_aborted w'"
proof -
  show "b = projection_applied name i (db w)" "db w' = db w"
    using query_InrD [OF assms [unfolded isProjectionEventApplied_def]] by (auto simp: selects_def)
  show "\<not> tx_aborted w'" if "r = Client"
    using assms that unfolding isProjectionEventApplied_def by (auto dest: query_Client_InrD)
qed

lemma mark_applied_InrD:
  assumes "markProjectionEventApplied r name i agg w = (Inr u, w')"
  shows "\<exists>t. db w' = put_applied name i agg t (db w)" "r = Client \<Longrightarrow> \<not> tx_aborted w'"
proof -
  show "\<exists>t. db w' = put_applied name i agg t (db w)"
    using query_writes_InrD assms unfolding markProjectionEventApplied_def by blast
  show "\<not> tx_aborted w'" if "r = Client"
    using assms that unfolding markProjectionEventApplied_def by (auto dest: query_Client_InrD)
qed

text \<open>
  \<open>applied_once e d d'\<close>: the event was applied before and nothing changes, or it was not,
  the branch of the \<open>switch\<close> ran to its end and the event is marked.
\<close>

definition applied_once :: "envelope \<Rightarrow> database \<Rightarrow> database \<Rightarrow> bool" where
  "applied_once e d d' \<longleftrightarrow>
     (if projection_applied projection_name (event_id e) d then d' = d
      else \<exists>u w1 w2 t. db w1 = d \<and> project e w1 = (Inr u, w2) \<and>
             d' = put_applied projection_name (event_id e) (aggregate_id e) t (db w2))"

lemma executeInTx_once:
  assumes "executeInTx e w = (Inr u, w')"
  shows "applied_once e (db w) (db w')" "\<not> tx_aborted w'"
proof -
  obtain b w1 where b: "isProjectionEventApplied Client projection_name (event_id e) w = (Inr b, w1)"
    and k: "(if b then returnE () else thenE (project e)
       (markProjectionEventApplied Client projection_name (event_id e) (aggregate_id e))) w1 = (Inr u, w')"
    using bindE_InrD [OF assms [unfolded executeInTx_def]] by blast
  note b' = applied_InrD [OF b]
  have "applied_once e (db w) (db w') \<and> \<not> tx_aborted w'"
  proof (cases b)
    case True
    then show ?thesis using k b' by (simp add: returnE_def applied_once_def)
  next
    case False
    then obtain v w2 where p: "project e w1 = (Inr v, w2)"
      and m: "markProjectionEventApplied Client projection_name (event_id e) (aggregate_id e) w2 = (Inr u, w')"
      using k thenE_InrD [of "project e" _ w1 u w'] by auto
    show ?thesis
      using mark_applied_InrD [OF m] p False b' by (auto simp: applied_once_def)
  qed
  then show "applied_once e (db w) (db w')" "\<not> tx_aborted w'" by simp_all
qed

lemma apply_once:
  assumes "applyHistoricalEvent Pool e w = (Inr u, w')"
  shows "applied_once e (db w) (db w')"
proof -
  obtain w2 w3 where "db w2 = db w" and run: "executeInTx e w2 = (Inr u, w3)"
    and "if tx_aborted w3 then db w' = db w else db w' = db w3"
    using withTransaction_InrD assms unfolding applyHistoricalEvent_def runner.case by metis
  then show ?thesis using executeInTx_once [OF run] by simp
qed

lemma put_applied_tables [simp]:
  "order_read_model (put_applied n i a t d) = order_read_model d"
  "inventory_read_model (put_applied n i a t d) = inventory_read_model d"
  "payment_read_model (put_applied n i a t d) = payment_read_model d"
  "shipment_read_model (put_applied n i a t d) = shipment_read_model d"
  "event_store (put_applied n i a t d) = event_store d"
  by (simp_all add: put_applied_def)

lemma project_keeps_log:
  assumes "project e w = (Inr u, w')"
  shows "projection_applied_events (db w') = projection_applied_events (db w)"
    and "event_store (db w') = event_store (db w)"
  using db_followsD [OF keep_project [of projection_applied_events e], of w]
    db_followsD [OF keep_project [of event_store e], of w] by (simp_all add: assms)

lemma applied_once_order:
  assumes "applied_once e d d'"
  shows "if projection_applied projection_name (event_id e) d
         then order_read_model d' = order_read_model d else steps_order e d d'"
  using assms project_steps_order by (fastforce simp: applied_once_def steps_order_def)

lemma applied_once_log:
  assumes "applied_once e d d'"
  shows "projection_applied n i d' \<longleftrightarrow> projection_applied n i d \<or> (n = projection_name \<and> i = event_id e)"
  using assms project_keeps_log
  by (auto simp: applied_once_def projection_applied_def split: if_splits)
    (fastforce simp: projection_applied_def put_applied_def insert_ignore_def pa_key_def split: if_splits)+

section \<open>Applying a list of events\<close>

text \<open>Events that were not applied before, each identifier once, all of one order.\<close>

lemma apply_all_orders:
  assumes "forE es (applyHistoricalEvent Pool) w = (Inr u, w')"
    and "distinct (map event_id es)"
    and "\<And>e. e \<in> set es \<Longrightarrow> aggregate_id e = agg \<and> \<not> projection_applied projection_name (event_id e) (db w)"
  shows "order_fold es (order_of agg (db w)) = Inr (order_of agg (db w'))"
  using assms
proof (induction es arbitrary: w)
  case Nil
  then show ?case by (simp add: returnE_def)
next
  case (Cons e es)
  obtain v w1 where 1: "applyHistoricalEvent Pool e w = (Inr v, w1)"
    and 2: "forE es (applyHistoricalEvent Pool) w1 = (Inr u, w')"
    using thenE_InrD Cons.prems(1) by fastforce
  have fresh: "\<not> projection_applied projection_name (event_id e) (db w)" and agg: "aggregate_id e = agg"
    using Cons.prems(3) by auto
  have step: "order_step e (order_of agg (db w)) = Inr (order_of agg (db w1))"
    using applied_once_order [OF apply_once [OF 1]] fresh agg by (simp add: steps_order_def)
  have "aggregate_id x = agg \<and> \<not> projection_applied projection_name (event_id x) (db w1)"
    if x: "x \<in> set es" for x
  proof -
    have "event_id x \<in> event_id ` set es" using x by (rule imageI)
    then have "event_id x \<noteq> event_id e" using Cons.prems(2) by auto
    then show ?thesis
      using Cons.prems(3) x applied_once_log [OF apply_once [OF 1]] by auto
  qed
  then have "order_fold es (order_of agg (db w1)) = Inr (order_of agg (db w'))"
    using Cons.prems(2) by (intro Cons.IH [OF 2]) auto
  then show ?case using step by simp
qed

end
