(* ===== verification/Replay.thy ===== *)
theory Replay
  imports Read_Model_Spec
begin

text \<open>
  \<open>src/src/replay/event-replay-service.ts\<close>: the rebuild of an order's read model from the
  event store, and the replay of a dead letter to its topic.
\<close>

section \<open>The service\<close>

datatype replay_status = Success | Failure

record replay_result =
  replay_id :: string
  replay_target :: string
  events_processed :: nat
  duration_ms :: nat
  replay_status :: replay_status
  reconstructed_state :: "order_view option"
  replay_error :: "string option"

definition replay_failed :: "string \<Rightarrow> string \<Rightarrow> nat \<Rightarrow> exn \<Rightarrow> replay_result op" where
  "replay_failed i target t0 err =
     bindE clock (\<lambda>t. returnE
       \<lparr>replay_id = i, replay_target = target, events_processed = 0, duration_ms = t - t0,
        replay_status = Failure, reconstructed_state = None, replay_error = Some (err_message err)\<rparr>)"

definition replay_succeeded :: "string \<Rightarrow> string \<Rightarrow> nat \<Rightarrow> nat \<Rightarrow> order_view option \<Rightarrow> replay_result op" where
  "replay_succeeded i target t0 n st =
     bindE clock (\<lambda>t. returnE
       \<lparr>replay_id = i, replay_target = target, events_processed = n, duration_ms = t - t0,
        replay_status = Success, reconstructed_state = st, replay_error = None\<rparr>)"

text \<open>The statements of \<open>replayAggregate\<close> that touch the database, with the projection consumer present or not.\<close>

definition rebuild :: "bool \<Rightarrow> string \<Rightarrow> (nat \<times> order_view option) op" where
  "rebuild hasProjection agg =
     bindE (getEventsByAggregateId agg) (\<lambda>events.
     thenE (resetReadModelForAggregate Pool agg)
     (thenE (whenE hasProjection (forE events (applyHistoricalEvent Pool)))
     (bindE (getOrder agg) (\<lambda>st. returnE (length events, st)))))"

definition replayAggregate :: "bool \<Rightarrow> string \<Rightarrow> replay_result op" where
  "replayAggregate hasProjection agg =
     bindE clock (\<lambda>t0.
     bindE clock (\<lambda>t. let i = ''rpl_'' @ nat_string (int t) in
     tryE (bindE (rebuild hasProjection agg) (\<lambda>(n, st). replay_succeeded i agg t0 n st))
          (replay_failed i agg t0)))"

subsection \<open>Dead letters\<close>

definition replay_message :: "string \<Rightarrow> dlq_row \<Rightarrow> js \<Rightarrow> js \<Rightarrow> string \<Rightarrow> message" where
  "replay_message i q original agg ts =
     \<lparr>m_topic = dl_topic q, m_key = js_string (js_or agg (JStr (dl_event_id q))),
      m_value = wire_of original,
      m_headers = [(''replayed-from-dlq'', i), (''replayed-at'', ts), (''source-dlq-id'', i)]\<rparr>"

text \<open>The \<open>try\<close> block: reading a property of a missing \<open>original_event\<close> throws.\<close>

definition resend :: "string \<Rightarrow> dlq_row \<Rightarrow> unit op" where
  "resend i q =
     thenE (setDLQStatus i REPLAYING)
     (let original = obj_get (dl_payload q) ''original_event'' in
      thenE (resetProcessedEventForReplay (dl_event_id q) (Some (dl_consumer_name q)))
      (bindE (liftE (member original ''aggregate_id'')) (\<lambda>agg.
       bindE iso_now (\<lambda>ts.
       thenE (producer_send [replay_message i q original agg ts])
             (markDLQResolved i REPLAYED)))))"

definition replayDLQ :: "string \<Rightarrow> replay_result op" where
  "replayDLQ i =
     bindE clock (\<lambda>t0.
     bindE (getDLQMessage i) (\<lambda>found.
       case found of
         None \<Rightarrow> throwE (AppError (''DLQ message '' @ i @ '' not found''))
       | Some q \<Rightarrow>
           if dl_status q = DISCARDED
           then throwE (AppError (''Cannot replay discarded DLQ message '' @ i))
           else
             let target = topic_name (topics (dl_topic q)) in
             tryE (thenE (resend i q) (replay_succeeded i target t0 1 None))
                  (\<lambda>err. thenE (tryE (setDLQStatus i UNRESOLVED) (\<lambda>_. returnE ()))
                             (replay_failed i target t0 err))))"

section \<open>A rebuild reconstructs the row of the order\<close>

lemma reset_tables:
  assumes "resetReadModelForAggregate r agg w = (Inr u, w')"
  shows "order_of agg (db w') = None"
    and "projection_applied n i (db w') \<longleftrightarrow>
         (\<exists>x \<in> set (projection_applied_events (db w)). pa_key x = (n, i) \<and> pa_aggregate_id x \<noteq> agg)"
    and "event_store (db w') = event_store (db w)"
    and "inventory_read_model (db w') = inventory_read_model (db w)"
    and "j \<noteq> agg \<Longrightarrow> order_of j (db w') = order_of j (db w)"
proof -
  let ?d = "db w"
  have d': "db w' = ?d\<lparr>order_read_model := delete_rows (\<lambda>x. om_order_id x = agg) (order_read_model ?d),
      payment_read_model := delete_rows (\<lambda>x. pm_order_id x = agg) (payment_read_model ?d),
      shipment_read_model := delete_rows (\<lambda>x. sh_order_id x = agg) (shipment_read_model ?d),
      projection_applied_events := delete_rows (\<lambda>x. pa_aggregate_id x = agg) (projection_applied_events ?d)\<rparr>"
    using assms unfolding resetReadModelForAggregate_def
    by (auto dest!: thenE_InrD query_writes_InrD)
  have find: "lookup_row om_order_id j (delete_rows (\<lambda>x. om_order_id x = agg) t) =
      (if j = agg then None else lookup_row om_order_id j t)" for j t
    by (induction t) (auto simp: delete_rows_def)
  show "order_of agg (db w') = None" "event_store (db w') = event_store (db w)"
    "inventory_read_model (db w') = inventory_read_model (db w)"
    "j \<noteq> agg \<Longrightarrow> order_of j (db w') = order_of j (db w)"
    by (simp_all add: d' find)
  show "projection_applied n i (db w') \<longleftrightarrow>
         (\<exists>x \<in> set (projection_applied_events (db w)). pa_key x = (n, i) \<and> pa_aggregate_id x \<noteq> agg)"
    by (auto simp: d' projection_applied_def delete_rows_def image_iff)
qed

text \<open>
  The log of applied events agrees with the event store: a stored event was applied, if at
  all, for the aggregate it is stored under.
\<close>

definition log_matches :: "database \<Rightarrow> bool" where
  "log_matches d \<longleftrightarrow>
     (\<forall>x \<in> set (projection_applied_events d). \<forall>r \<in> set (event_store d).
        pa_projection_name x = projection_name \<and> pa_event_id x = es_event_id r \<longrightarrow>
        pa_aggregate_id x = es_aggregate_id r)"

lemma aggregate_events_set:
  "set (aggregate_events agg d) = envelope_of_row ` {r \<in> set (event_store d). es_aggregate_id r = agg}"
  by (auto simp: aggregate_events_def stream_def)

lemma aggregate_events_distinct:
  assumes "unique_by es_event_id (event_store d)"
  shows "distinct (map event_id (aggregate_events agg d))"
proof -
  have "distinct (map es_event_id (stream agg (event_store d)))"
    using assms by (simp add: stream_def unique_by_def distinct_map_filter)
  then have "distinct (map es_event_id (sort_key es_sequence_number (stream agg (event_store d))))"
    by (metis distinct_map distinct_sort set_sort)
  then show ?thesis
    by (simp add: aggregate_events_def comp_def envelope_of_row_def)
qed

text \<open>
  What a rebuild does: the stored events are applied, none of them applied before, to a
  database without the row of the order and with the stock as it was.
\<close>

lemma rebuild_applies:
  assumes run: "rebuild True agg w = (Inr (n, st), w')"
    and uniq: "unique_by es_event_id (event_store (db w))" and log: "log_matches (db w)"
  shows "\<exists>w2 v w3. forE (aggregate_events agg (db w)) (applyHistoricalEvent Pool) w2 = (Inr v, w3) \<and>
    distinct (map event_id (aggregate_events agg (db w))) \<and>
    (\<forall>e \<in> set (aggregate_events agg (db w)). aggregate_id e = agg \<and> \<not> projection_applied projection_name (event_id e) (db w2)) \<and>
    order_of agg (db w2) = None \<and> inventory_read_model (db w2) = inventory_read_model (db w) \<and>
    db w' = db w3 \<and> n = length (aggregate_events agg (db w)) \<and>
    (case order_of agg (db w3) of Some r \<Rightarrow> st = Some (view_of_read_row r) | None \<Rightarrow> True)"
proof -
  let ?es = "aggregate_events agg (db w)"
  obtain es w1 where 1: "getEventsByAggregateId agg w = (Inr es, w1)"
    and k1: "thenE (resetReadModelForAggregate Pool agg)
     (thenE (whenE True (forE es (applyHistoricalEvent Pool)))
     (bindE (getOrder agg) (\<lambda>st. returnE (length es, st)))) w1 = (Inr (n, st), w')"
    using bindE_InrD [OF run [unfolded rebuild_def]] by blast
  have es: "es = ?es" "db w1 = db w"
    using query_InrD [OF 1 [unfolded getEventsByAggregateId_def]] by (auto simp: selects_def)
  obtain u w2 where 2: "resetReadModelForAggregate Pool agg w1 = (Inr u, w2)"
    and k2: "thenE (whenE True (forE es (applyHistoricalEvent Pool)))
     (bindE (getOrder agg) (\<lambda>st. returnE (length es, st))) w2 = (Inr (n, st), w')"
    using thenE_InrD [OF k1] by blast
  obtain v w3 where 3: "forE es (applyHistoricalEvent Pool) w2 = (Inr v, w3)"
    and k3: "bindE (getOrder agg) (\<lambda>st. returnE (length es, st)) w3 = (Inr (n, st), w')"
    using thenE_InrD [OF k2] by (auto simp: whenE_def)
  have fresh: "aggregate_id e = agg \<and> \<not> projection_applied projection_name (event_id e) (db w2)"
    if e: "e \<in> set es" for e
  proof -
    obtain r where r: "r \<in> set (event_store (db w))" "es_aggregate_id r = agg" "e = envelope_of_row r"
      using e by (auto simp: es aggregate_events_set)
    then have "pa_aggregate_id x = agg"
      if "x \<in> set (projection_applied_events (db w))" "pa_key x = (projection_name, event_id e)" for x
      using log that by (auto simp: log_matches_def pa_key_def envelope_of_row_def)
    then show ?thesis
      using r reset_tables(2) [OF 2] by (auto simp: es(2) envelope_of_row_def)
  qed
  obtain s w4 where 4: "getOrder agg w3 = (Inr s, w4)" and ret: "n = length es" "s = st" "w' = w4"
    using bindE_InrD [OF k3] by (auto simp: returnE_def)
  obtain row w5 where q: "query Pool (selects (order_of agg)) w3 = (Inr row, w5)"
    and k4: "(case row of Some r \<Rightarrow> returnE (Some (view_of_read_row r))
       | None \<Rightarrow> bindE (query Pool (selects (\<lambda>d. lookup_row or_id agg (orders d))))
                  (\<lambda>legacy. returnE (map_option mapOrderRow legacy))) w5 = (Inr s, w4)"
    using bindE_InrD [OF 4 [unfolded getOrder_def]] by blast
  have q': "row = order_of agg (db w3)" "db w5 = db w3"
    using query_InrD [OF q] by (auto simp: selects_def)
  have d4: "db w4 = db w5 \<and> (case row of Some r \<Rightarrow> s = Some (view_of_read_row r) | None \<Rightarrow> True)"
    using k4 by (cases row) (auto simp: returnE_def selects_def dest!: bindE_InrD query_InrD)
  show ?thesis
    by (rule exI [of _ w2], rule exI [of _ v], rule exI [of _ w3])
      (use 3 fresh aggregate_events_distinct [OF uniq] reset_tables(1,4) [OF 2] d4 q' ret es in \<open>auto split: option.splits\<close>)
qed

lemma rebuild_orders:
  assumes run: "rebuild True agg w = (Inr (n, st), w')"
    and uniq: "unique_by es_event_id (event_store (db w))" and log: "log_matches (db w)"
  shows "n = length (aggregate_events agg (db w)) \<and>
    order_fold (aggregate_events agg (db w)) None = Inr (order_of agg (db w')) \<and>
    (case order_of agg (db w') of Some r \<Rightarrow> st = Some (view_of_read_row r) | None \<Rightarrow> True)"
proof -
  obtain w2 v w3 where r: "forE (aggregate_events agg (db w)) (applyHistoricalEvent Pool) w2 = (Inr v, w3)"
    "distinct (map event_id (aggregate_events agg (db w)))"
    "\<forall>e \<in> set (aggregate_events agg (db w)). aggregate_id e = agg \<and> \<not> projection_applied projection_name (event_id e) (db w2)"
    "order_of agg (db w2) = None" "db w' = db w3" "n = length (aggregate_events agg (db w))"
    "case order_of agg (db w3) of Some r \<Rightarrow> st = Some (view_of_read_row r) | None \<Rightarrow> True"
    using rebuild_applies [OF assms] by blast
  have "order_fold (aggregate_events agg (db w)) (order_of agg (db w2)) = Inr (order_of agg (db w3))"
    using r(3) by (intro apply_all_orders [OF r(1,2)]) auto
  then show ?thesis using r(4-7) by simp
qed

end
