(* ===== verification/Stock.thy ===== *)
theory Stock
  imports Replay
begin

text \<open>
  The inventory read model: what an event does to the row of one stock keeping unit, the
  proof that the SQL does this, and what follows for reservations, releases and replays.
\<close>

section \<open>One row\<close>

lemma lookup_update_rows_try:
  assumes "update_rows_try p f t = Inr t'"
    and "\<And>x y. f x = Inr y \<Longrightarrow> key y = key x"
  shows "lookup_row key k t' =
    map_option (\<lambda>r. if p r then (case f r of Inr r' \<Rightarrow> r' | Inl _ \<Rightarrow> r) else r) (lookup_row key k t)"
  using assms(1)
proof (induction t arbitrary: t')
  case (Cons r t)
  obtain r' u where r': "(if p r then f r else Inr r) = Inr r'"
    and u: "update_rows_try p f t = Inr u" "t' = r' # u"
    using Cons.prems by (auto simp: bind_sum_Inr)
  have "key r' = key r" using r' assms(2) by (auto split: if_splits)
  then show ?case using Cons.IH [OF u(1)] r' u(2) by (auto split: if_splits)
qed simp

abbreviation stock_of :: "string \<Rightarrow> database \<Rightarrow> inventory_read_row option" where
  "stock_of sku d \<equiv> lookup_row iv_sku sku (inventory_read_model d)"

text \<open>The effect of an item of an event on the row of \<open>sku\<close>.\<close>

definition item_quantity :: "js \<Rightarrow> int" where
  "item_quantity item =
     (case member item ''quantity'' of
        Inr q \<Rightarrow> (case pg_int (js_or q (JNum (Fin 1))) of Inr n \<Rightarrow> n | Inl _ \<Rightarrow> 0)
      | Inl _ \<Rightarrow> 0)"

definition item_sku :: "js \<Rightarrow> string option" where
  "item_sku item = (case member item ''sku'' of Inr s \<Rightarrow> pg_param s | Inl _ \<Rightarrow> None)"

definition item_change ::
  "(int \<Rightarrow> string \<Rightarrow> inventory_read_row \<Rightarrow> exn + inventory_read_row) \<Rightarrow> string \<Rightarrow> string \<Rightarrow> js \<Rightarrow>
   inventory_read_row \<Rightarrow> inventory_read_row" where
  "item_change f ts sku item r =
     (if item_sku item = Some sku
      then (case f (item_quantity item) ts r of Inr r' \<Rightarrow> r' | Inl _ \<Rightarrow> r) else r)"

definition stock_change :: "envelope \<Rightarrow> string \<Rightarrow> inventory_read_row \<Rightarrow> inventory_read_row" where
  "stock_change e sku =
     (let items = array_elems (obj_get (payload e) ''items'') in
      if event_type e = InventoryReserved then fold (item_change reserve_row (occurred_at e) sku) items
      else if event_type e = InventoryReleased then fold (item_change release_row (occurred_at e) sku) items
      else id)"

lemma stock_rows_keep_sku:
  "reserve_row n ts r = Inr r' \<Longrightarrow> iv_sku r' = iv_sku r"
  "release_row n ts r = Inr r' \<Longrightarrow> iv_sku r' = iv_sku r"
  by (auto simp: reserve_row_def release_row_def bind_sum_Inr)

lemma stock_item_change:
  assumes "stock_item f ts item w = (Inr u, w')"
    and "\<And>n r r'. f n ts r = Inr r' \<Longrightarrow> iv_sku r' = iv_sku r"
  shows "stock_of sku (db w') = map_option (item_change f ts sku item) (stock_of sku (db w))"
proof -
  obtain q s where q: "member item ''quantity'' = Inr q" and s: "member item ''sku'' = Inr s"
    and run: "run_sql (update_stock f q s ts) w = (Inr u, w')"
    using assms(1)
    by (auto simp: stock_item_def bindE_def liftE_def split: sum.splits)
  obtain n t where n: "pg_int (js_or q (JNum (Fin 1))) = Inr n"
    and t: "update_rows_try (\<lambda>r. pg_param s = Some (iv_sku r)) (f n ts) (inventory_read_model (db w)) = Inr t"
    and d: "inventory_read_model (db w') = t"
    using run_sql_InrD [OF run] by (auto simp: update_stock_def bind_sum_Inr dest: sym)
  have item: "item_quantity item = n" "item_sku item = pg_param s"
    by (simp_all add: item_quantity_def item_sku_def q s n)
  have "lookup_row iv_sku sku t = map_option (\<lambda>r. if pg_param s = Some (iv_sku r)
      then (case f n ts r of Inr r' \<Rightarrow> r' | Inl _ \<Rightarrow> r) else r) (stock_of sku (db w))"
    by (rule lookup_update_rows_try [OF t]) (rule assms(2))
  then show ?thesis
    unfolding d
    by (cases "stock_of sku (db w)") (auto simp: item_change_def item dest: lookup_row_Some)
qed

lemma stock_items_change:
  assumes "forE items (stock_item f ts) w = (Inr u, w')"
    and "\<And>n r r'. f n ts r = Inr r' \<Longrightarrow> iv_sku r' = iv_sku r"
  shows "stock_of sku (db w') = map_option (fold (item_change f ts sku) items) (stock_of sku (db w))"
  using assms(1)
proof (induction items arbitrary: w)
  case Nil
  then show ?case by (simp add: returnE_def option.map_id0 id_def [symmetric])
next
  case (Cons item items)
  obtain v w1 where 1: "stock_item f ts item w = (Inr v, w1)" and 2: "forE items (stock_item f ts) w1 = (Inr u, w')"
    using thenE_InrD Cons.prems by fastforce
  show ?case
    using Cons.IH [OF 2] stock_item_change [OF 1 assms(2), where sku = sku]
    by (simp add: option.map_comp comp_def)
qed

lemma statements_keep_stock:
  "db_follows (\<lambda>d d'. inventory_read_model d' = inventory_read_model d) (run_sql (update_order_read i g))"
  "db_follows (\<lambda>d d'. inventory_read_model d' = inventory_read_model d) (run_sql (insert_order_read e))"
  "db_follows (\<lambda>d d'. inventory_read_model d' = inventory_read_model d) (run_sql (insert_payment_read e))"
  "db_follows (\<lambda>d d'. inventory_read_model d' = inventory_read_model d) (run_sql (refund_payment_read e))"
  "db_follows (\<lambda>d d'. inventory_read_model d' = inventory_read_model d) (run_sql (insert_shipment_read e))"
  by (auto intro!: keep_run_sql dest!: read_model_writes)

text \<open>An event that is neither a reservation nor a release leaves the stock alone.\<close>

lemma project_keeps_stock:
  assumes "event_type e \<noteq> InventoryReserved" "event_type e \<noteq> InventoryReleased"
  shows "db_follows (\<lambda>d d'. inventory_read_model d' = inventory_read_model d) (project e)"
  using assms unfolding project_def Let_def
  by (cases "event_type e")
    (simp_all add: statements_keep_stock keep.follows_thenE keep.follows_returnE)

lemma project_stock:
  assumes "project e w = (Inr u, w')"
  shows "stock_of sku (db w') = map_option (stock_change e sku) (stock_of sku (db w))"
proof -
  consider (reserved) "event_type e = InventoryReserved" | (released) "event_type e = InventoryReleased"
    | (other) "event_type e \<noteq> InventoryReserved" "event_type e \<noteq> InventoryReleased" by blast
  then show ?thesis
  proof cases
    case reserved
    then obtain f v w1 where 1: "run_sql (update_order_read (aggregate_id e) f) w = (Inr v, w1)"
      and 2: "forE (array_elems (obj_get (payload e) ''items'')) (stock_item reserve_row (occurred_at e)) w1 = (Inr u, w')"
      using assms by (auto simp: project_def Let_def stock_items_def dest!: thenE_InrD)
    have "inventory_read_model (db w1) = inventory_read_model (db w)"
      using db_followsD [OF statements_keep_stock(1) [of "aggregate_id e" f], of w] 1 by simp
    then show ?thesis
      using stock_items_change [OF 2 stock_rows_keep_sku(1)] reserved by (simp add: stock_change_def Let_def)
  next
    case released
    then have "forE (array_elems (obj_get (payload e) ''items'')) (stock_item release_row (occurred_at e)) w = (Inr u, w')"
      using assms by (simp add: project_def Let_def stock_items_def)
    from stock_items_change [OF this stock_rows_keep_sku(2)] released show ?thesis
      by (simp add: stock_change_def Let_def)
  next
    case other
    then have "stock_change e sku = id" by (simp add: stock_change_def Let_def)
    then show ?thesis
      using db_followsD [OF project_keeps_stock [OF other], of w] assms by (simp add: option.map_id)
  qed
qed

lemma applied_once_stock:
  assumes "applied_once e d d'"
  shows "stock_of sku d' = (if projection_applied projection_name (event_id e) d then stock_of sku d
           else map_option (stock_change e sku) (stock_of sku d))"
  using assms project_stock by (fastforce simp: applied_once_def)

lemma apply_all_stock:
  assumes "forE es (applyHistoricalEvent Pool) w = (Inr u, w')"
    and "distinct (map event_id es)"
    and "\<And>e. e \<in> set es \<Longrightarrow> \<not> projection_applied projection_name (event_id e) (db w)"
  shows "stock_of sku (db w') = map_option (fold (\<lambda>e. stock_change e sku) es) (stock_of sku (db w))"
  using assms
proof (induction es arbitrary: w)
  case Nil
  then show ?case by (simp add: returnE_def option.map_id0 id_def [symmetric])
next
  case (Cons e es)
  obtain v w1 where 1: "applyHistoricalEvent Pool e w = (Inr v, w1)"
    and 2: "forE es (applyHistoricalEvent Pool) w1 = (Inr u, w')"
    using thenE_InrD Cons.prems(1) by fastforce
  have "\<not> projection_applied projection_name (event_id x) (db w1)" if x: "x \<in> set es" for x
  proof -
    have "event_id x \<in> event_id ` set es" using x by (rule imageI)
    then have "event_id x \<noteq> event_id e" using Cons.prems(2) by auto
    then show ?thesis using Cons.prems(3) x applied_once_log [OF apply_once [OF 1]] by auto
  qed
  then have "stock_of sku (db w') = map_option (fold (\<lambda>e. stock_change e sku) es) (stock_of sku (db w1))"
    using Cons.prems(2) by (intro Cons.IH [OF 2]) auto
  moreover have "\<not> projection_applied projection_name (event_id e) (db w)" using Cons.prems(3) by simp
  ultimately show ?case
    using applied_once_stock [OF apply_once [OF 1], of sku] by (simp add: option.map_comp comp_def)
qed

lemma rebuild_stock:
  assumes "rebuild True agg w = (Inr (n, st), w')"
    and "unique_by es_event_id (event_store (db w))" "log_matches (db w)"
  shows "stock_of sku (db w') =
    map_option (fold (\<lambda>e. stock_change e sku) (aggregate_events agg (db w))) (stock_of sku (db w))"
proof -
  obtain w2 v w3 where r: "forE (aggregate_events agg (db w)) (applyHistoricalEvent Pool) w2 = (Inr v, w3)"
    "distinct (map event_id (aggregate_events agg (db w)))"
    "\<forall>e \<in> set (aggregate_events agg (db w)). aggregate_id e = agg \<and> \<not> projection_applied projection_name (event_id e) (db w2)"
    "inventory_read_model (db w2) = inventory_read_model (db w)" "db w' = db w3"
    using rebuild_applies [OF assms] by blast
  have "stock_of sku (db w3) =
      map_option (fold (\<lambda>e. stock_change e sku) (aggregate_events agg (db w))) (stock_of sku (db w2))"
    using r(3) by (intro apply_all_stock [OF r(1,2)]) auto
  then show ?thesis using r(4,5) by simp
qed

section \<open>Reserving and releasing\<close>

lemma reserve_then_release:
  assumes "reserve_row n ts r = Inr r1" "release_row n ts' r1 = Inr r2"
    and "0 \<le> iv_reserved_stock r" "0 \<le> iv_available_stock r"
  shows "iv_reserved_stock r2 = iv_reserved_stock r \<and> iv_available_stock r2 = max n (iv_available_stock r)"
  using assms by (auto simp: reserve_row_def release_row_def bind_sum_Inr int4_def split: if_splits)

text \<open>No stock is lost: reserved and available together cover the total.\<close>

definition stock_covered :: "database \<Rightarrow> bool" where
  "stock_covered d \<longleftrightarrow>
     (\<forall>r \<in> set (inventory_read_model d). iv_total_stock r \<le> iv_reserved_stock r + iv_available_stock r)"

lemma stock_rows_cover:
  "reserve_row n ts r = Inr r' \<Longrightarrow> iv_total_stock r \<le> iv_reserved_stock r + iv_available_stock r \<Longrightarrow>
   iv_total_stock r' \<le> iv_reserved_stock r' + iv_available_stock r'"
  "release_row n ts r = Inr r' \<Longrightarrow> iv_total_stock r \<le> iv_reserved_stock r + iv_available_stock r \<Longrightarrow>
   iv_total_stock r' \<le> iv_reserved_stock r' + iv_available_stock r'"
  by (auto simp: reserve_row_def release_row_def bind_sum_Inr int4_def split: if_splits)

lemma update_rows_try_all:
  assumes "update_rows_try p f t = Inr t'" and "\<And>x y. f x = Inr y \<Longrightarrow> I x \<Longrightarrow> I y" and "\<forall>x \<in> set t. I x"
  shows "\<forall>x \<in> set t'. I x"
  using assms(1,3)
proof (induction t arbitrary: t')
  case (Cons r t)
  then show ?case using assms(2) by (auto simp: bind_sum_Inr split: if_splits)
qed simp

lemma stock_items_cover:
  assumes "\<And>n ts r r'. f n ts r = Inr r' \<Longrightarrow> iv_total_stock r \<le> iv_reserved_stock r + iv_available_stock r \<Longrightarrow>
    iv_total_stock r' \<le> iv_reserved_stock r' + iv_available_stock r'"
  shows "db_follows (\<lambda>d d'. stock_covered d \<longrightarrow> stock_covered d') (stock_items f e)"
proof -
  have "stock_covered d'" if run: "update_stock f q s ts d = Inr d'" and cov: "stock_covered d" for q s ts d d'
  proof -
    obtain n t where t: "update_rows_try (\<lambda>r. pg_param s = Some (iv_sku r)) (f n ts) (inventory_read_model d) = Inr t"
      and d': "inventory_read_model d' = t"
      using run by (auto simp: update_stock_def bind_sum_Inr dest: sym)
    from cov show ?thesis
      unfolding stock_covered_def d' by (rule update_rows_try_all [OF t, rotated]) (rule assms)
  qed
  then have "db_follows (\<lambda>d d'. stock_covered d \<longrightarrow> stock_covered d') (run_sql (update_stock f q s ts))" for q s ts
    unfolding run_sql_def by (intro always.follows_query) (auto simp: stmt_follows_def bind_sum_Inr)
  then show ?thesis
    unfolding stock_items_def stock_item_def by (intro always.follows_rules)
qed

lemma kept_stock_covered:
  "db_follows (\<lambda>d d'. inventory_read_model d' = inventory_read_model d) m \<Longrightarrow>
   db_follows (\<lambda>d d'. stock_covered d \<longrightarrow> stock_covered d') m"
  by (simp add: db_follows_def stock_covered_def)

lemma apply_covers: "db_follows (\<lambda>d d'. stock_covered d \<longrightarrow> stock_covered d') (applyHistoricalEvent r e)"
proof -
  note kept = statements_keep_stock [THEN kept_stock_covered]
  have p: "db_follows (\<lambda>d d'. stock_covered d \<longrightarrow> stock_covered d') (project e)"
  proof (rule project_cases [where P = "db_follows (\<lambda>d d'. stock_covered d \<longrightarrow> stock_covered d')"])
    show "db_follows (\<lambda>d d'. stock_covered d \<longrightarrow> stock_covered d') (stock_items reserve_row e)"
      by (rule stock_items_cover) (rule stock_rows_cover(1))
    show "db_follows (\<lambda>d d'. stock_covered d \<longrightarrow> stock_covered d') (stock_items release_row e)"
      by (rule stock_items_cover) (rule stock_rows_cover(2))
  qed (rule kept always.follows_returnE always.follows_thenE, assumption?)+
  have "db_follows (\<lambda>d d'. stock_covered d \<longrightarrow> stock_covered d') (executeInTx e)"
    unfolding executeInTx_def isProjectionEventApplied_def markProjectionEventApplied_def
    by (intro always.follows_rules p always.follows_selects stmt_follows_writes)
      (simp add: stock_covered_def)
  then show ?thesis
    by (cases r) (simp_all add: applyHistoricalEvent_def always.follows_withTransaction)
qed

lemma projection_covers: "db_follows (\<lambda>d d'. stock_covered d \<longrightarrow> stock_covered d') (projection_processEvent e)"
proof -
  have append: "stmt_follows (\<lambda>d d'. stock_covered d \<longrightarrow> stock_covered d') (append_stmt e)"
    by (auto simp: stmt_follows_def append_stmt_def Let_def stock_covered_def split: if_splits)
  have live: "db_follows (\<lambda>d d'. stock_covered d \<longrightarrow> stock_covered d') (emitLiveNotifications e)"
    by (rule kept_stock_covered) (rule keep_live)
  show ?thesis
    unfolding projection_processEvent_def appendToEventStore_def append_execute_def recordEvent_def runner.case
    by (intro always.follows_rules apply_covers live always.follows_selects stmt_follows_writes append)
      (simp add: stock_covered_def)
qed

end
