(* ===== verification/Projection_Props.thy ===== *)
theory Projection_Props
  imports Stock Handler_Props
begin

text \<open>
  Properties of the read side: an event is applied at most once and atomically, the row of
  an order is the fold of its events, a replay is silent and rebuilds that fold, and what a
  replay does to the stock.
\<close>

section \<open>Applying an event\<close>

text \<open>C8: an event changes the read models atomically and at most once.  Whatever the database
  does during \<open>applyHistoricalEvent\<close>, afterwards either nothing has changed, or the whole
  branch of the event's type has run and the event is marked as applied; and an event that
  is marked changes nothing when it is applied again.\<close>

theorem projection_atomic_and_once:
  "let d = db w; d' = db (snd (applyHistoricalEvent Pool e w)) in
     d' = d \<or> (\<not> projection_applied projection_name (event_id e) d \<and> applied_once e d d' \<and>
               projection_applied projection_name (event_id e) d')"
proof -
  have "applyHistoricalEvent Pool e w = withTransaction (executeInTx e) w"
    by (simp add: applyHistoricalEvent_def)
  then consider "db (snd (applyHistoricalEvent Pool e w)) = db w"
    | w2 u w3 where "db w2 = db w" "executeInTx e w2 = (Inr u, w3)" "db (snd (applyHistoricalEvent Pool e w)) = db w3"
    using withTransaction_atomic [of "executeInTx e" w] by auto
  then show ?thesis
  proof cases
    case 2
    have once: "applied_once e (db w) (db w3)" using executeInTx_once(1) [OF 2(2)] 2(1) by simp
    show ?thesis
    proof (cases "projection_applied projection_name (event_id e) (db w)")
      case True
      then show ?thesis using once 2(3) by (simp add: applied_once_def Let_def)
    next
      case False
      then show ?thesis using once applied_once_log [OF once] 2(3) by (simp add: Let_def)
    qed
  qed (simp add: Let_def)
qed

text \<open>C15: the row of an order is the fold of its events.  When a sequence of events of one
  order, none applied before and no identifier twice, has been applied, the row of the order
  is what the reference function \<open>order_fold\<close> computes from the row before: created as
  pending by OrderCreated, its status replaced by the one of each event type, its references
  and failure reason filled in.\<close>

theorem order_row_is_fold:
  assumes "forE es (applyHistoricalEvent Pool) w = (Inr (), w')" and "distinct (map event_id es)"
    and "list_all (\<lambda>e. aggregate_id e = agg \<and> \<not> projection_applied projection_name (event_id e) (db w)) es"
  shows "order_fold es (order_of agg (db w)) = Inr (order_of agg (db w'))"
  using assms by (intro apply_all_orders) (auto simp: list_all_iff)

text \<open>The run of \<open>applyHistoricalEvent\<close> when the database answers.\<close>

lemma apply_done:
  assumes "db_script w = []" "\<not> projection_applied projection_name (event_id e) (db w)"
    and "project e (begin_tx w) = (Inr (), (begin_tx w)\<lparr>db := d\<rparr>)"
  shows "applyHistoricalEvent Pool e w =
    (Inr (), w\<lparr>db := put_applied projection_name (event_id e) (aggregate_id e) (now w) d,
       tx_aborted := False, tx_time := now w\<rparr>)"
  using assms
  by (simp add: applyHistoricalEvent_def withTransaction_def executeInTx_def isProjectionEventApplied_def
      markProjectionEventApplied_def selects_def writes_def bindE_def thenE_def) (simp add: begin_tx_def)

lemma update_order_done:
  "db_script w = [] \<Longrightarrow> run_sql (update_order_read i f) (begin_tx w) =
     (Inr (), (begin_tx w)\<lparr>db := (db w)\<lparr>order_read_model := update_rows (\<lambda>r. om_order_id r = i) f (order_read_model (db w))\<rparr>\<rparr>)"
  by (simp add: run_sql_done update_order_read_def)

definition demo_order_row :: order_read_row where
  "demo_order_row =
     \<lparr>om_order_id = ''ord_1'', om_user_id = ''user_1'', om_status = ''pending'', om_total_amount = Fin 200,
      om_currency = ''USD'', om_items = demo_items, om_payment_id = None, om_reservation_id = None,
      om_fraud_check_id = None, om_shipment_id = None, om_tracking_number = None, om_failure_reason = None,
      om_created_at = ''2024-01-01T00:00:00.000Z'', om_updated_at = ''2024-01-01T00:00:00.000Z'', om_version = 1\<rparr>"

definition with_order_row :: "world \<Rightarrow> world" where
  "with_order_row w = w\<lparr>db := (db w)\<lparr>order_read_model := [demo_order_row]\<rparr>\<rparr>"

lemma with_order_row_simps [simp]:
  "db_script (with_order_row w) = db_script w" "kafka_script (with_order_row w) = kafka_script w"
  "order_read_model (db (with_order_row w)) = [demo_order_row]" "om_order_id demo_order_row = ''ord_1''"
  "projection_applied_events (db (with_order_row w)) = projection_applied_events (db w)"
  by (simp_all add: with_order_row_def demo_order_row_def)

lemma demo_log_empty [simp]: "projection_applied_events (db demo_world) = []"
  by (simp add: demo_world_def createTables_def empty_database_def)

definition demo_history :: "envelope list" where
  "demo_history = [demo_event PaymentRequested ''evt_2'' [], demo_event OrderCompleted ''evt_9'' []]"

theorem order_row_is_fold_witness:
  "\<exists>w'. forE demo_history (applyHistoricalEvent Pool) (with_order_row demo_world) = (Inr (), w') \<and>
     map_option om_status (order_of ''ord_1'' (db w')) = Some ''completed''"
proof -
  let ?w = "with_order_row demo_world"
  let ?a = "demo_event PaymentRequested ''evt_2'' []" and ?b = "demo_event OrderCompleted ''evt_9'' []"
  obtain w1 where 1: "applyHistoricalEvent Pool ?a ?w = (Inr (), w1)"
    "db_script w1 = []" "\<not> projection_applied projection_name ''evt_9'' (db w1)"
    using apply_done [of ?w ?a] update_order_done [of ?w "''ord_1''"]
    by (simp add: project_def Let_def projection_applied_def put_applied_def insert_ignore_def pa_key_def)
  obtain w2 where 2: "applyHistoricalEvent Pool ?b w1 = (Inr (), w2)"
    using apply_done [OF 1(2), of ?b] 1(3) update_order_done [OF 1(2), of "''ord_1''"]
    by (simp add: project_def Let_def)
  have run: "forE demo_history (applyHistoricalEvent Pool) ?w = (Inr (), w2)"
    by (simp add: demo_history_def thenE_def bindE_def 1(1) 2 returnE_def)
  have fold: "order_fold demo_history (order_of ''ord_1'' (db ?w)) = Inr (order_of ''ord_1'' (db w2))"
    by (rule order_row_is_fold [OF run]) (simp_all add: demo_history_def projection_applied_def)
  have "\<exists>r. order_fold demo_history (order_of ''ord_1'' (db ?w)) = Inr (Some r) \<and> om_status r = ''completed''"
    by (simp add: demo_history_def order_step_def order_change_def set_status_def)
  then show ?thesis using run fold by auto
qed

section \<open>Replay\<close>

lemma pair_case: "(\<And>a b. P (f a b)) \<Longrightarrow> P (case p of (a, b) \<Rightarrow> f a b)"
  by (cases p) simp

lemmas replay_defs =
  replayAggregate_def rebuild_def replay_succeeded_def replay_failed_def Let_def
  getEventsByAggregateId_def resetReadModelForAggregate_def getOrder_def

lemma keep_replay:
  assumes "\<And>t d. g (d\<lparr>order_read_model := t\<rparr>) = g d" "\<And>t d. g (d\<lparr>payment_read_model := t\<rparr>) = g d"
    "\<And>t d. g (d\<lparr>inventory_read_model := t\<rparr>) = g d" "\<And>t d. g (d\<lparr>shipment_read_model := t\<rparr>) = g d"
    "\<And>t d. g (d\<lparr>projection_applied_events := t\<rparr>) = g d"
  shows "db_follows (\<lambda>d d'. g d' = g d) (replayAggregate p agg)"
  unfolding replay_defs
  by (intro keep.follows_rules keep_apply keep.follows_selects keep_writes
      pair_case [where P = "db_follows (\<lambda>d d'. g d' = g d)"] assms)

lemma quiet_option: "bus_quiet m \<Longrightarrow> (\<And>y. bus_quiet (k y)) \<Longrightarrow> bus_quiet (case x of None \<Rightarrow> m | Some y \<Rightarrow> k y)"
  by (simp split: option.split)

lemma quiet_replay: "bus_quiet (replayAggregate p agg)"
  unfolding replay_defs
  by (intro quiet_rules quiet_apply quiet_option pair_case [where P = bus_quiet])

lemma silent_replay: "run_follows (\<lambda>w w'. sockets w' = sockets w) (replayAggregate p agg)"
  unfolding replay_defs
  by (intro silent.run_rules silent.run_apply pair_case [where P = "run_follows (\<lambda>w w'. sockets w' = sockets w)"])

text \<open>The tables a replay may write.\<close>

definition write_side :: "database \<Rightarrow> database" where
  "write_side d = d\<lparr>order_read_model := [], payment_read_model := [], inventory_read_model := [],
     shipment_read_model := [], projection_applied_events := []\<rparr>"

text \<open>C28: a replay has no side effects.  Whatever happens during \<open>replayAggregate\<close>, no Kafka
  message is sent, nothing is broadcast to the websocket clients, and no table but the read
  models and the projection log is changed: orders, outbox, sagas, event store, idempotency
  and dead letters stay as they were.\<close>

theorem replay_has_no_side_effects:
  "let w' = snd (replayAggregate p agg w) in
     bus w' = bus w \<and> sockets w' = sockets w \<and> write_side (db w') = write_side (db w)"
  using bus_quietD [OF quiet_replay] run_followsD [OF silent_replay]
    db_followsD [OF keep_replay [of write_side p agg], of w]
  by (simp add: Let_def write_side_def)

end
