(* ===== verification/Replay_Props.thy ===== *)
theory Replay_Props
  imports Projection_Props
begin

text \<open>
  The replay services: what a replay of an order rebuilds, what it counts twice, what a
  failed replay leaves behind, and how a dead letter returns to its consumer.
\<close>

section \<open>Replaying an order\<close>

text \<open>A replay that reports success ran \<open>rebuild\<close> to the end.\<close>

lemma replay_success:
  assumes "replayAggregate p agg w = (Inr r, w')" "replay_status r = Success"
  shows "rebuild p agg w = (Inr (events_processed r, reconstructed_state r), w')"
proof -
  obtain q w1 where q: "rebuild p agg w = (q, w1)" by fastforce
  show ?thesis
  proof (cases q)
    case (Inl err)
    then show ?thesis
      using assms by (auto simp: replayAggregate_def run_defs q replay_failed_def Let_def)
  next
    case (Inr ns)
    obtain n st where ns: "ns = (n, st)" by fastforce
    show ?thesis
      using assms by (auto simp: replayAggregate_def run_defs q Inr ns replay_succeeded_def Let_def)
  qed
qed

text \<open>A concrete history: an order, a reservation of two laptops, its completion.\<close>

definition demo_free_order :: envelope where
  "demo_free_order = demo_event OrderCreated ''evt_1''
     [(''user_id'', JStr ''user_1''), (''items'', JArr [JObj [(''sku'', JStr ''LAPTOP-001''), (''quantity'', num 2)]]),
      (''total_amount'', num 0)]"
definition demo_reserved :: envelope where
  "demo_reserved = demo_event InventoryReserved ''evt_4''
     [(''reservation_id'', JStr ''res_1''), (''items'', JArr [JObj [(''sku'', JStr ''LAPTOP-001''), (''quantity'', num 2)]])]"

definition demo_store :: "event_row list" where
  "demo_store = [new_event_row 0 demo_free_order 1, new_event_row 0 demo_reserved 2,
     new_event_row 0 (demo_event OrderCompleted ''evt_9'' []) 3]"

definition replay_world :: world where
  "replay_world = demo_world\<lparr>db := (db demo_world)\<lparr>event_store := demo_store,
     inventory_read_model := [\<lparr>iv_sku = ''LAPTOP-001'', iv_name = ''Laptop'', iv_total_stock = 100,
       iv_reserved_stock = 2, iv_available_stock = 98, iv_updated_at = ''2024-01-01T00:00:00.000Z''\<rparr>]\<rparr>\<rparr>"

lemma free_order_row: "\<exists>r. new_order_read demo_free_order = Inr r \<and> om_order_id r = ''ord_1''"
  by (simp add: new_order_read_def demo_free_order_def Let_def pg_decimal_def num_def numeric_10_2_def decimal_value_def round_cents_def)

lemma replay_world_simps [simp]:
  "db_script replay_world = []" "event_store (db replay_world) = demo_store"
  "projection_applied_events (db replay_world) = []" "order_read_model (db replay_world) = []"
  "payment_read_model (db replay_world) = []" "shipment_read_model (db replay_world) = []"
  "map_option iv_reserved_stock (stock_of ''LAPTOP-001'' (db replay_world)) = Some 2"
  by (simp_all add: replay_world_def demo_world_def createTables_def empty_database_def)

lemma demo_events: "aggregate_events ''ord_1'' d = map envelope_of_row demo_store" if "event_store d = demo_store"
  using that by (simp add: aggregate_events_def stream_def demo_store_def new_event_row_def demo_free_order_def demo_reserved_def demo_event_def)

lemma demo_list: "map envelope_of_row demo_store = [demo_free_order\<lparr>sequence_number := Some 1\<rparr>, demo_reserved\<lparr>sequence_number := Some 2\<rparr>, (demo_event OrderCompleted ''evt_9'' [])\<lparr>sequence_number := Some 3\<rparr>]"
  by (simp add: demo_store_def envelope_of_row_def new_event_row_def demo_free_order_def demo_reserved_def demo_event_def num_def)

lemma reset_done:
  "db_script w = [] \<Longrightarrow> resetReadModelForAggregate Pool agg w = (Inr (), w\<lparr>db := (db w)
     \<lparr>order_read_model := delete_rows (\<lambda>x. om_order_id x = agg) (order_read_model (db w)),
      payment_read_model := delete_rows (\<lambda>x. pm_order_id x = agg) (payment_read_model (db w)),
      shipment_read_model := delete_rows (\<lambda>x. sh_order_id x = agg) (shipment_read_model (db w)),
      projection_applied_events := delete_rows (\<lambda>x. pa_aggregate_id x = agg) (projection_applied_events (db w))\<rparr>\<rparr>)"
  by (simp add: resetReadModelForAggregate_def thenE_def bindE_def writes_def)

lemma apply_ok:
  assumes "db_script w = []" "\<not> projection_applied projection_name (event_id e) (db w)"
    and "project e (begin_tx w) = (Inr (), (begin_tx w)\<lparr>db := d\<rparr>)"
    and "projection_applied_events d = projection_applied_events (db w)"
  shows "\<exists>w1. applyHistoricalEvent Pool e w = (Inr (), w1) \<and> db_script w1 = [] \<and>
    inventory_read_model (db w1) = inventory_read_model d \<and>
    (\<forall>i. projection_applied projection_name i (db w1) \<longleftrightarrow> i = event_id e \<or> projection_applied projection_name i (db w))"
  using apply_done [OF assms(1-3)] assms(1,4) by (auto simp: projection_applied_def [of _ _ d] projection_applied_def [of _ _ "db w"])

lemma stock_items_single:
  assumes "obj_get (payload e) ''items'' = JArr [JObj [(''sku'', JStr s), (''quantity'', q)]]"
    and "db_script v = []" "\<not> tx_aborted v" "update_stock f q (JStr s) (occurred_at e) (db v) = Inr d'"
  shows "stock_items f e v = (Inr (), v\<lparr>db := d'\<rparr>)"
  using assms by (simp add: stock_items_def stock_item_def thenE_def bindE_def liftE_def returnE_def run_sql_done)

lemma apply_stock_ok:
  assumes "db_script w = []" "\<not> projection_applied projection_name (event_id e) (db w)"
    and "event_type e = InventoryReserved \<and> f = reserve_row \<or> event_type e = InventoryReleased \<and> f = release_row"
    and "obj_get (payload e) ''items'' = JArr [JObj [(''sku'', JStr s), (''quantity'', q)]]"
    and "pg_int (js_or q (JNum (Fin 1))) = Inr n"
    and "update_rows_try (\<lambda>r. s = iv_sku r) (f n (occurred_at e)) (inventory_read_model (db w)) = Inr t"
  shows "\<exists>w1. applyHistoricalEvent Pool e w = (Inr (), w1) \<and> db_script w1 = [] \<and>
    inventory_read_model (db w1) = t \<and>
    (\<forall>i. projection_applied projection_name i (db w1) \<longleftrightarrow> i = event_id e \<or> projection_applied projection_name i (db w))"
proof -
  let ?u = "\<lambda>r. set_status ''inventory_reserved'' (occurred_at e)
      (r\<lparr>om_reservation_id := pg_param (obj_get (payload e) ''reservation_id'')\<rparr>)"
  define d where "d = (if event_type e = InventoryReserved
      then (db w)\<lparr>order_read_model := update_rows (\<lambda>r. om_order_id r = aggregate_id e) ?u (order_read_model (db w))\<rparr>
      else db w)"
  have t: "update_stock f q (JStr s) (occurred_at e) d = Inr (d\<lparr>inventory_read_model := t\<rparr>)"
    using assms(5,6) by (simp add: update_stock_def d_def)
  define d' where "d' = d\<lparr>inventory_read_model := t\<rparr>"
  have items: "stock_items f e ((begin_tx w)\<lparr>db := d\<rparr>) = (Inr (), (begin_tx w)\<lparr>db := d'\<rparr>)"
    using stock_items_single [OF assms(4), of "(begin_tx w)\<lparr>db := d\<rparr>" f d'] t assms(1) by (simp add: d'_def)
  have "project e (begin_tx w) = (Inr (), (begin_tx w)\<lparr>db := d'\<rparr>)"
  proof (cases "event_type e = InventoryReserved")
    case True
    then have "project e = thenE (run_sql (update_order_read (aggregate_id e) ?u)) (stock_items f e)"
      using assms(3) by (auto simp: project_def Let_def)
    moreover have "d = (db w)\<lparr>order_read_model := update_rows (\<lambda>r. om_order_id r = aggregate_id e) ?u (order_read_model (db w))\<rparr>"
      by (simp add: d_def True)
    ultimately show ?thesis
      using items by (simp add: thenE_def bindE_def update_order_done [OF assms(1)])
  next
    case False
    then have "project e = stock_items f e" "d = db w" using assms(3) by (auto simp: project_def Let_def d_def)
    moreover have "(begin_tx w)\<lparr>db := db w\<rparr> = begin_tx w" by (simp add: begin_tx_def)
    ultimately show ?thesis using items by metis
  qed
  moreover have "projection_applied_events d' = projection_applied_events (db w)" by (simp add: d'_def d_def)
  moreover have "inventory_read_model d' = t" by (simp add: d'_def)
  ultimately show ?thesis using apply_ok [OF assms(1,2), of d'] by metis
qed

lemma demo_replay_runs: "\<exists>r w'. replayAggregate True ''ord_1'' replay_world = (Inr r, w') \<and> replay_status r = Success"
proof -
  let ?e1 = "demo_free_order\<lparr>sequence_number := Some 1\<rparr>" and ?e2 = "demo_reserved\<lparr>sequence_number := Some 2\<rparr>"
    and ?e3 = "(demo_event OrderCompleted ''evt_9'' [])\<lparr>sequence_number := Some 3\<rparr>"
  obtain w0 where reset: "resetReadModelForAggregate Pool ''ord_1'' replay_world = (Inr (), w0)"
    and w0: "db_script w0 = []" "projection_applied_events (db w0) = []"
    "inventory_read_model (db w0) = inventory_read_model (db replay_world)"
    by (simp add: reset_done)
  obtain r where r: "new_order_read ?e1 = Inr r"
    using free_order_row by (auto simp: new_order_read_def)
  obtain w1 where 1: "applyHistoricalEvent Pool ?e1 w0 = (Inr (), w1)" and w1: "db_script w1 = []"
    "inventory_read_model (db w1) = inventory_read_model (db replay_world)"
    "\<And>i. projection_applied projection_name i (db w1) \<longleftrightarrow> i = ''evt_1''"
    using apply_ok [of w0 ?e1 "(db w0)\<lparr>order_read_model := upsert om_order_id merge_order_read r (order_read_model (db w0))\<rparr>"] w0 r
    by (auto simp: projection_applied_def project_def run_sql_done insert_order_read_def demo_free_order_def Let_def)
  have two: "pg_int (js_or (num 2) (JNum (Fin 1))) = Inr 2"
    by (simp add: num_def js_or_def pg_int_def int4_def)
  obtain t where stock: "update_rows_try (\<lambda>r. ''LAPTOP-001'' = iv_sku r) (reserve_row 2 (occurred_at ?e2))
      (inventory_read_model (db w1)) = Inr t"
    by (simp add: w1(2) replay_world_def reserve_row_def int4_def)
  obtain w2 where 2: "applyHistoricalEvent Pool ?e2 w1 = (Inr (), w2)" and w2: "db_script w2 = []"
    "\<And>i. projection_applied projection_name i (db w2) \<longleftrightarrow> i = ''evt_4'' \<or> i = ''evt_1''"
    using apply_stock_ok [OF w1(1) _ _ _ two, of ?e2 reserve_row "''LAPTOP-001''", OF _ _ _ stock] w1(3)
    by (auto simp: demo_reserved_def)
  obtain w3 where 3: "applyHistoricalEvent Pool ?e3 w2 = (Inr (), w3)" "db_script w3 = []"
    using apply_ok [of w2 ?e3 "(db w2)\<lparr>order_read_model := update_rows (\<lambda>r. om_order_id r = ''ord_1'') (set_status ''completed'' (occurred_at ?e3)) (order_read_model (db w2))\<rparr>"] w2 update_order_done [OF w2(1), of "''ord_1''"]
    by (auto simp: project_def Let_def)
  show ?thesis
    by (simp add: replayAggregate_def rebuild_def run_defs getEventsByAggregateId_def selects_def demo_events demo_list
       reset whenE_def 1 2 3 getOrder_def replay_succeeded_def Let_def split: option.split)
qed

text \<open>C16: a replay rebuilds the row of the order from its history alone.  When it reports
  SUCCESS, it has processed every stored event of the order; the row is the fold of the
  stored events in sequence order starting from no row, whatever the read model held
  before; and the state reported is that row.  This assumes what the schema and the
  projection guarantee: event ids are unique, and the log of applied events names the
  aggregate an event is stored under.\<close>

theorem replay_rebuilds_order:
  assumes "replayAggregate True agg w = (Inr r, w')" "replay_status r = Success"
    and "unique_by es_event_id (event_store (db w))" "log_matches (db w)"
  shows "events_processed r = length (aggregate_events agg (db w)) \<and>
    order_fold (aggregate_events agg (db w)) None = Inr (order_of agg (db w')) \<and>
    (\<forall>row. order_of agg (db w') = Some row \<longrightarrow> reconstructed_state r = Some (view_of_read_row row))"
  using rebuild_orders [OF replay_success [OF assms(1,2)] assms(3,4)] by (auto split: option.splits)

lemma replay_world_ok: "unique_by es_event_id (event_store (db replay_world))" "log_matches (db replay_world)"
  by (simp_all add: unique_by_def demo_store_def new_event_row_def demo_free_order_def demo_reserved_def
      log_matches_def)

theorem replay_rebuilds_order_witness:
  "\<exists>r w'. replayAggregate True ''ord_1'' replay_world = (Inr r, w') \<and> events_processed r = 3 \<and>
     map_option om_status (order_of ''ord_1'' (db w')) = Some ''completed''"
proof -
  obtain r w' where run: "replayAggregate True ''ord_1'' replay_world = (Inr r, w')" "replay_status r = Success"
    using demo_replay_runs by blast
  have es: "aggregate_events ''ord_1'' (db replay_world) = map envelope_of_row demo_store"
    by (rule demo_events) simp
  from replay_rebuilds_order [OF run replay_world_ok]
  have r: "events_processed r = 3"
    and fold: "order_fold (map envelope_of_row demo_store) None = Inr (order_of ''ord_1'' (db w'))"
    by (auto simp: es) (simp add: demo_store_def)
  obtain row where "new_order_read (demo_free_order\<lparr>sequence_number := Some 1\<rparr>) = Inr row"
    using free_order_row by (auto simp: new_order_read_def)
  then have "\<exists>x. order_fold (map envelope_of_row demo_store) None = Inr (Some x) \<and> om_status x = ''completed''"
    unfolding demo_list by (simp add: order_step_def order_change_def set_status_def demo_free_order_def demo_reserved_def)
  then show ?thesis using run(1) r fold by auto
qed

text \<open>C40: a replay counts the stock again.  The inventory read model is not reset, so a
  successful replay applies every reservation and release of the order to the stock as it
  is, on top of the effect that the same events had when they were first processed.\<close>

theorem replay_counts_stock_again:
  assumes "replayAggregate True agg w = (Inr r, w')" "replay_status r = Success"
    and "unique_by es_event_id (event_store (db w))" "log_matches (db w)"
  shows "stock_of sku (db w') =
    map_option (fold (\<lambda>e. stock_change e sku) (aggregate_events agg (db w))) (stock_of sku (db w))"
  using rebuild_stock [OF replay_success [OF assms(1,2)] assms(3,4)] .

theorem replay_counts_stock_again_witness:
  "\<exists>r w'. replayAggregate True ''ord_1'' replay_world = (Inr r, w') \<and>
     map_option iv_reserved_stock (stock_of ''LAPTOP-001'' (db replay_world)) = Some 2 \<and>
     map_option iv_reserved_stock (stock_of ''LAPTOP-001'' (db w')) = Some 4"
proof -
  obtain r w' where run: "replayAggregate True ''ord_1'' replay_world = (Inr r, w')" "replay_status r = Success"
    using demo_replay_runs by blast
  have es: "aggregate_events ''ord_1'' (db replay_world) = map envelope_of_row demo_store"
    by (rule demo_events) simp
  have "stock_of ''LAPTOP-001'' (db w') = map_option (fold (\<lambda>e. stock_change e ''LAPTOP-001'') (map envelope_of_row demo_store))
      (stock_of ''LAPTOP-001'' (db replay_world))"
    using replay_counts_stock_again [OF run replay_world_ok] by (simp add: es)
  then have "map_option iv_reserved_stock (stock_of ''LAPTOP-001'' (db w')) = Some 4"
    unfolding demo_list
    by (simp add: stock_change_def demo_free_order_def demo_reserved_def replay_world_def item_change_def item_sku_def
        item_quantity_def num_def js_or_def pg_int_def int4_def reserve_row_def)
  then show ?thesis using run(1) by auto
qed

end
