(* ===== verification/Dlq_Replay.thy ===== *)
theory Dlq_Replay
  imports Replay_Props
begin

text \<open>
  Dead letters on their way back: what \<open>replayDLQ\<close> does for a letter that carries its
  event, for one that does not, and what a replay of an order leaves behind when the
  database fails in the middle.
\<close>

section \<open>A replay that fails halfway\<close>

text \<open>C39: a failed replay loses the read model.  The reset of \<open>replayAggregate\<close> is four
  statements of their own, outside any transaction with the events that are applied
  afterwards.  When the database answers these and then refuses the next connection, the
  replay reports FAILED and the order, which the read model held before, is gone from it.\<close>

theorem failed_replay_loses_order:
  assumes "db_script w = ds @ (Refused x, n) # rest" "length ds = 5" "list_all (\<lambda>c. fst c = Done) ds"
    and "aggregate_events agg (db w) \<noteq> []"
  shows "\<exists>r w'. replayAggregate True agg w = (Inr r, w') \<and> replay_status r = Failure \<and>
    order_of agg (db w') = None \<and> event_store (db w') = event_store (db w)"
proof -
  obtain d1 d2 d3 d4 d5 where ds: "ds = [d1, d2, d3, d4, d5]"
    using assms(2) by (auto simp: numeral_eq_Suc length_Suc_conv)
  have ok: "fst d1 = Done" "fst d2 = Done" "fst d3 = Done" "fst d4 = Done" "fst d5 = Done"
    using assms(3) by (simp_all add: ds)
  obtain w1 where 1: "getEventsByAggregateId agg w = (Inr (aggregate_events agg (db w)), w1)"
    "db w1 = db w" "db_script w1 = d2 # d3 # d4 # d5 # (Refused x, n) # rest"
    using assms(1) ok by (simp add: ds getEventsByAggregateId_def query_def selects_def)
  have "\<exists>w2. resetReadModelForAggregate Pool agg w1 = (Inr (), w2) \<and> db_script w2 = (Refused x, n) # rest"
    using 1(3) ok by (simp add: resetReadModelForAggregate_def thenE_def bindE_def query_def writes_def)
  then obtain w2 where 2: "resetReadModelForAggregate Pool agg w1 = (Inr (), w2)"
    "db_script w2 = (Refused x, n) # rest" by blast
  obtain e es where es: "aggregate_events agg (db w) = e # es" using assms(4) by (cases "aggregate_events agg (db w)") auto
  obtain err w3 where 3: "applyHistoricalEvent Pool e w2 = (Inl err, w3)" "db w3 = db w2"
    using 2(2) by (simp add: applyHistoricalEvent_def withTransaction_def control_def)
  have "rebuild True agg w = (Inl err, w3)"
    by (simp add: rebuild_def bindE_def thenE_def whenE_def 1(1) 2(1) es 3(1))
  then show ?thesis
    using 3(2) reset_tables(1,3) [OF 2(1)] 1(2)
    by (simp add: replayAggregate_def run_defs Let_def replay_failed_def)
qed

theorem failed_replay_loses_order_witness:
  "\<exists>r w'. replayAggregate True ''ord_1''
       (with_order_row (replay_world\<lparr>db_script := replicate 5 (Done, 1) @ [(Refused ''gone'', 1)]\<rparr>)) = (Inr r, w') \<and>
     replay_status r = Failure \<and> order_of ''ord_1'' (db w') = None"
proof -
  let ?w = "with_order_row (replay_world\<lparr>db_script := replicate 5 (Done, 1) @ [(Refused ''gone'', 1)]\<rparr>)"
  have "event_store (db ?w) = demo_store" by (simp add: with_order_row_def)
  then have es: "aggregate_events ''ord_1'' (db ?w) \<noteq> []" by (simp add: demo_events demo_list)
  have "list_all (\<lambda>c. fst c = Done) (replicate 5 (Done, 1::nat))" by (simp add: list_all_iff)
  from failed_replay_loses_order [of ?w "replicate 5 (Done, 1)" "''gone''" 1 "[]", OF _ _ this es]
  show ?thesis by auto
qed

section \<open>Replaying a dead letter\<close>

lemma parse_result_text: "wire_parse v = wire_parse v' \<Longrightarrow> parse_result v w = parse_result v' w"
  by (simp add: parse_result_def parse_message_def)

lemma dlq_status_lookup:
  "lookup_row dl_id j (dlq_messages (put_dlq_status i st t d)) =
     map_option (\<lambda>r. if dl_id r = i then r\<lparr>dl_status := st,
       dl_resolved_at := (if st = REPLAYED \<or> st = DISCARDED then Some t else dl_resolved_at r)\<rparr> else r)
       (lookup_row dl_id j (dlq_messages d))"
  unfolding put_dlq_status_def by (simp add: lookup_row_update_rows)

lemma lookup_deleted: "lookup_row key k (delete_rows (\<lambda>r. key r = k) t) = None"
  by (induction t) (auto simp: delete_rows_def)

definition forget_processed :: "string \<Rightarrow> string \<Rightarrow> database \<Rightarrow> database" where
  "forget_processed i c d =
     d\<lparr>processed_events := delete_rows (\<lambda>r. pe_event_id r = i \<and> (c = [] \<or> pe_consumer_name r = c)) (processed_events d)\<rparr>"

lemma forget_processed_event: "\<not> event_processed i c (forget_processed i c d)"
  by (auto simp: event_processed_def forget_processed_def list_ex_iff is_processed_def)

lemma dlq_ops_done:
  assumes "db_script w = []"
  shows "setDLQStatus i st w = (Inr (), w\<lparr>db := put_dlq_status i st (now w) (db w)\<rparr>)"
    and "resetProcessedEventForReplay j (Some c) w = (Inr (), w\<lparr>db := forget_processed j c (db w)\<rparr>)"
    and "getDLQMessage i w = (Inr (lookup_row dl_id i (dlq_messages (db w))), w)"
  using assms
  by (simp_all add: setDLQStatus_def resetProcessedEventForReplay_def getDLQMessage_def writes_def selects_def
      forget_processed_def)

text \<open>C24: a dead letter finds its way back.  For an event whose retries were exhausted, the
  dead letter holds the event.  In a world without failures, replaying it succeeds: one
  message goes to the topic the event came from, and every consumer that parses it gets
  back the original envelope; the FAILED mark of the consumer is gone, so that it will
  process the event again; and the letter is REPLAYED.\<close>

theorem dead_letter_returns:
  assumes "db_script w = []" "kafka_script w = []" "valid_envelope e"
    and "lookup_row dl_id k (dlq_messages (db w)) = Some q"
    and "dl_payload q = obj_json (exhausted_payload name k e m err st n ts)"
    and "dl_event_id q = event_id e" "dl_consumer_name q = name" "dl_topic q = em_topic m" "dl_status q \<noteq> DISCARDED"
  shows "\<exists>r w' x. replayDLQ k w = (Inr r, w') \<and> replay_status r = Success \<and> bus w' = bus w @ [x] \<and>
    m_topic x = em_topic m \<and>
    (\<forall>v. parse_result (m_value x) v = (Inr (Inr (e\<lparr>payload := obj_json (payload e)\<rparr>)), v)) \<and>
    \<not> event_processed (event_id e) name (db w') \<and>
    map_option dl_status (lookup_row dl_id k (dlq_messages (db w'))) = Some REPLAYED"
proof -
  have orig: "obj_get (dl_payload q) ''original_event'' = to_json (js_of_envelope e)"
    unfolding assms(5) by (subst obj_get_json) (simp_all add: exhausted_payload_def)
  obtain ob where ob: "to_json (js_of_envelope e) = JObj ob" by (simp add: js_of_envelope_def)
  define x where "x = replay_message k q (JObj ob) (obj_get ob ''aggregate_id'') (toISOString (now w))"
  define d where "d = put_dlq_status k REPLAYED (now w)
      (forget_processed (event_id e) name (put_dlq_status k REPLAYING (now w) (db w)))"
  have "resend k q w = (Inr (), w\<lparr>db := d, bus := bus w @ [x]\<rparr>)"
    using assms(1,2)
    by (simp add: resend_def thenE_def bindE_def dlq_ops_done orig ob liftE_def iso_now_def getsE_def
        assms(6,7) markDLQResolved_def x_def d_def Let_def)
  then have run: "\<exists>r. replayDLQ k w = (Inr r, w\<lparr>db := d, bus := bus w @ [x]\<rparr>) \<and> replay_status r = Success"
    using assms(1,9) by (simp add: replayDLQ_def run_defs dlq_ops_done assms(4) Let_def replay_succeeded_def)
  have parse: "parse_result (m_value x) v = (Inr (Inr (e\<lparr>payload := obj_json (payload e)\<rparr>)), v)" for v
  proof -
    have "wire_parse (m_value x) = wire_parse (wire_of (js_of_envelope e))"
      using ob to_json_idem [of "js_of_envelope e"] by (simp add: x_def replay_message_def wire_of_def)
    then show ?thesis using parse_result_valid [OF assms(3)] parse_result_text by metis
  qed
  have marks: "processed_events d = processed_events (forget_processed (event_id e) name (db w))"
    by (simp add: d_def put_dlq_status_def forget_processed_def)
  then have "\<not> event_processed (event_id e) name d"
    using forget_processed_event by (simp add: event_processed_def)
  moreover have "map_option dl_status (lookup_row dl_id k (dlq_messages d)) = Some REPLAYED"
  proof -
    have id: "dl_id q = k" using lookup_row_Some [OF assms(4)] by simp
    have "dlq_messages (forget_processed i c d) = dlq_messages d" for i c d
      by (simp add: forget_processed_def)
    then show ?thesis by (simp add: d_def dlq_status_lookup assms(4) id)
  qed
  ultimately show ?thesis using run parse assms(8) by (fastforce simp: x_def replay_message_def)
qed

text \<open>A malformed dead letter cannot be replayed.  The letter of a message that did not parse
  holds no \<open>original_event\<close>, so replaying it throws when the key is read: also in a world
  without failures the replay reports FAILED, nothing is sent, and the letter goes back to
  UNRESOLVED.\<close>

theorem malformed_letter_not_replayable:
  assumes "db_script w = []"
    and "lookup_row dl_id k (dlq_messages (db w)) = Some q"
    and "dl_payload q = obj_json (malformed_payload name k m err st ts)" "dl_status q \<noteq> DISCARDED"
  shows "\<exists>r w'. replayDLQ k w = (Inr r, w') \<and> replay_status r = Failure \<and> bus w' = bus w \<and>
    map_option dl_status (lookup_row dl_id k (dlq_messages (db w'))) = Some UNRESOLVED"
proof -
  have none: "obj_get (dl_payload q) ''original_event'' = JUndef"
    unfolding assms(3) by (subst obj_get_json) (simp_all add: malformed_payload_def)
  define d where "d = forget_processed (dl_event_id q) (dl_consumer_name q) (put_dlq_status k REPLAYING (now w) (db w))"
  obtain err' where "resend k q w = (Inl err', w\<lparr>db := d\<rparr>)"
    using assms(1) by (simp add: resend_def thenE_def bindE_def dlq_ops_done none liftE_def d_def Let_def)
  then have "\<exists>r. replayDLQ k w = (Inr r, w\<lparr>db := put_dlq_status k UNRESOLVED (now w) d\<rparr>) \<and> replay_status r = Failure"
    using assms(1,4) by (simp add: replayDLQ_def run_defs dlq_ops_done assms(2) Let_def replay_failed_def)
  moreover have "map_option dl_status (lookup_row dl_id k (dlq_messages (put_dlq_status k UNRESOLVED (now w) d))) = Some UNRESOLVED"
  proof -
    have id: "dl_id q = k" using lookup_row_Some [OF assms(2)] by simp
    have "dlq_messages d = dlq_messages (put_dlq_status k REPLAYING (now w) (db w))"
      by (simp add: d_def forget_processed_def)
    then show ?thesis by (simp add: dlq_status_lookup assms(2) id)
  qed
  ultimately show ?thesis by auto
qed

text \<open>The letters of the witnesses.\<close>

definition letter :: "obj \<Rightarrow> dlq_row" where
  "letter pl = new_dlq_row 0
     \<lparr>dq_id = ''dlq_1'', dq_eventId = ''evt_7'', dq_topic = NotificationsTopic, dq_partition = 0,
      dq_offset = ''4'', dq_consumerName = ''notification-service'', dq_errorMessage = ''down'',
      dq_stackTrace = None, dq_payload = pl, dq_correlationId = None\<rparr>"

definition letter_world :: "obj \<Rightarrow> world" where
  "letter_world pl = demo_world\<lparr>db := (db demo_world)\<lparr>dlq_messages := [letter pl]\<rparr>\<rparr>"

lemma letter_simps [simp]:
  "db_script (letter_world pl) = []" "kafka_script (letter_world pl) = []" "bus (letter_world pl) = []"
  "lookup_row dl_id ''dlq_1'' (dlq_messages (db (letter_world pl))) = Some (letter pl)"
  "dl_payload (letter pl) = obj_json pl" "dl_event_id (letter pl) = ''evt_7''"
  "dl_consumer_name (letter pl) = ''notification-service''" "dl_topic (letter pl) = NotificationsTopic"
  "dl_status (letter pl) = UNRESOLVED"
  by (simp_all add: letter_world_def letter_def new_dlq_row_def)

theorem dead_letter_returns_witness:
  "\<exists>r w' x. replayDLQ ''dlq_1'' (letter_world (exhausted_payload ''notification-service'' ''dlq_1''
         demo_notification demo_notification_message (AppError ''down'') None 3 ''t'')) = (Inr r, w') \<and>
     replay_status r = Success \<and> bus w' = [x] \<and> m_topic x = NotificationsTopic"
proof -
  let ?w = "letter_world (exhausted_payload ''notification-service'' ''dlq_1'' demo_notification
      demo_notification_message (AppError ''down'') None 3 ''t'')"
  have id: "event_id demo_notification = ''evt_7''" "em_topic demo_notification_message = NotificationsTopic"
    by (simp_all add: demo_notification_def demo_notification_message_def)
  show ?thesis
    using dead_letter_returns [where w = ?w and e = demo_notification and k = "''dlq_1''" and name = "''notification-service''"
        and m = demo_notification_message, OF _ _ demo_notification_valid letter_simps(4) letter_simps(5)]
    unfolding id by auto
qed

theorem malformed_letter_not_replayable_witness:
  "\<exists>r w'. replayDLQ ''dlq_1'' (letter_world (malformed_payload ''notification-service'' ''dlq_1''
         garbled_message (SyntaxError ''x'') None ''t'')) = (Inr r, w') \<and>
     replay_status r = Failure \<and> bus w' = []"
  using malformed_letter_not_replayable [of "letter_world (malformed_payload ''notification-service'' ''dlq_1''
      garbled_message (SyntaxError ''x'') None ''t'')" "''dlq_1''" _ "''notification-service''" garbled_message]
  by fastforce

end
