(* ===== verification/Stock_Props.thy ===== *)
theory Stock_Props
  imports Dlq_Replay
begin

text \<open>
  Properties of the inventory read model over the life of the platform: no stock is ever
  lost, but a reservation and its release are not inverse to each other.
\<close>

section \<open>No stock is lost\<close>

interpretation covered: run_preorder "\<lambda>w w'. stock_covered (db w) \<longrightarrow> stock_covered (db w')"
  by unfold_locales auto

lemma inventory_domain [simp]: "inventory_read_model (domain_tables d) = inventory_read_model d"
  by (simp add: domain_tables_def)

lemma handler_covers:
  "run_follows (\<lambda>w w'. stock_covered (db w) \<longrightarrow> stock_covered (db w')) (consumer_handler c e)"
proof -
  have "db_follows (\<lambda>d d'. stock_covered d \<longrightarrow> stock_covered d') (consumer_handler c e)"
  proof (cases c)
    case SagaOrchestrator
    then show ?thesis by (simp add: kept_stock_covered saga_keeps)
  next
    case ProjectionConsumer
    then show ?thesis by (simp add: projection_covers)
  qed (simp_all add: kept_stock_covered handlers_keep)
  then show ?thesis by (simp add: run_follows_def db_follows_def)
qed

lemma delivery_covers: "db_follows (\<lambda>d d'. stock_covered d \<longrightarrow> stock_covered d') (deliver c m)"
proof -
  have house: "stock_covered (db w) \<longrightarrow> stock_covered (db w')" if "housekeeping w w'" for w w'
    using that unfolding housekeeping_def stock_covered_def by (metis inventory_domain)
  have "run_follows (\<lambda>w w'. stock_covered (db w) \<longrightarrow> stock_covered (db w')) (deliver c m)"
    unfolding deliver_def by (rule covered.run_handleMessage) (use house handler_covers in auto)
  then show ?thesis by (simp add: run_follows_def db_follows_def)
qed

text \<open>C25: no stock is lost.  From the seeded database on, through any history of deliveries,
  duplicates, retries, failures and dead letters included, the reserved and the available
  stock of every article add up to at least its total: no event makes pieces vanish.  They can
  add up to more, when an order asks for more than there is: \<open>release_invents_stock\<close>.\<close>

theorem stock_never_lost:
  assumes "inventory_read_model (db w) = inventory_seed t"
  shows "stock_covered (db (deliveries ds w))"
  using delivery_covers
  by (rule deliveries_follow) (simp add: stock_covered_def assms inventory_seed_def seed_item_def)

theorem stock_never_lost_witness:
  "stock_covered (db (deliveries [(ProjectionConsumer, demo_message), (SagaOrchestrator, demo_message)] demo_world))"
  by (rule stock_never_lost [where t = 0])
    (simp add: demo_world_def createTables_def empty_database_def seed_inventory_def inventory_seed_def
      insert_ignore_def seed_item_def)

section \<open>Reservation and release\<close>

text \<open>A release can invent stock.  A reservation takes what is available but not less than
  nothing, a release gives back what was asked for.  After an order for \<open>n\<close> pieces has been
  reserved and released again, the reserved stock is what it was, but the available stock
  is the larger of \<open>n\<close> and what it was: for an order beyond the stock, the article ends
  with more pieces available than it ever had.\<close>

theorem release_invents_stock:
  assumes "applyHistoricalEvent Pool e1 w = (Inr (), w1)" "applyHistoricalEvent Pool e2 w1 = (Inr (), w2)"
    and "event_type e1 = InventoryReserved" "event_type e2 = InventoryReleased"
    and "obj_get (payload e1) ''items'' = JArr [JObj [(''sku'', JStr s), (''quantity'', q)]]"
    and "obj_get (payload e2) ''items'' = JArr [JObj [(''sku'', JStr s), (''quantity'', q)]]"
    and "pg_int (js_or q (JNum (Fin 1))) = Inr n"
    and "\<not> projection_applied projection_name (event_id e1) (db w)"
    and "\<not> projection_applied projection_name (event_id e2) (db w1)"
    and "stock_of s (db w) = Some r" "0 \<le> n" "0 \<le> iv_reserved_stock r" "0 \<le> iv_available_stock r"
    and "iv_reserved_stock r + n < 2 ^ 31" "iv_available_stock r + n < 2 ^ 31"
  shows "\<exists>r2. stock_of s (db w2) = Some r2 \<and> iv_reserved_stock r2 = iv_reserved_stock r \<and>
    iv_available_stock r2 = max n (iv_available_stock r)"
proof -
  let ?i = "JObj [(''sku'', JStr s), (''quantity'', q)]"
  have item: "item_quantity ?i = n" "item_sku ?i = Some s"
    using assms(7) by (simp_all add: item_quantity_def item_sku_def)
  have 1: "stock_of s (db w1) = Some (item_change reserve_row (occurred_at e1) s ?i r)"
    using applied_once_stock [OF apply_once [OF assms(1)], of s] assms(3,5,8,10) by (simp add: stock_change_def)
  have 2: "stock_of s (db w2) = Some (item_change release_row (occurred_at e2) s ?i
      (item_change reserve_row (occurred_at e1) s ?i r))"
    using applied_once_stock [OF apply_once [OF assms(2)], of s] assms(4,6,9) 1 by (simp add: stock_change_def)
  show ?thesis
    unfolding 2 using assms(11-15)
    by (auto simp: item_change_def item reserve_row_def release_row_def int4_def max_def)
qed

definition monitor_event :: "event_type \<Rightarrow> string \<Rightarrow> envelope" where
  "monitor_event ty i = demo_event ty i
     [(''items'', JArr [JObj [(''sku'', JStr ''MONITOR-004''), (''quantity'', num 80)]])]"

definition monitor_world :: world where
  "monitor_world = demo_world\<lparr>db := (db demo_world)\<lparr>inventory_read_model := [seed_item 0 ''MONITOR-004'' ''Monitor'' 50]\<rparr>\<rparr>"

lemma monitor_simps [simp]:
  "event_type (monitor_event ty i) = ty" "event_id (monitor_event ty i) = i"
  "obj_get (payload (monitor_event ty i)) ''items'' = JArr [JObj [(''sku'', JStr ''MONITOR-004''), (''quantity'', num 80)]]"
  "db_script monitor_world = []" "projection_applied_events (db monitor_world) = []"
  "inventory_read_model (db monitor_world) = [seed_item 0 ''MONITOR-004'' ''Monitor'' 50]"
  by (simp_all add: monitor_event_def monitor_world_def)

lemma eighty: "pg_int (js_or (num 80) (JNum (Fin 1))) = Inr 80"
  by (simp add: num_def js_or_def pg_int_def int4_def)

theorem release_invents_stock_witness:
  "\<exists>w1 w2 r2. applyHistoricalEvent Pool (monitor_event InventoryReserved ''evt_1'') monitor_world = (Inr (), w1) \<and>
     applyHistoricalEvent Pool (monitor_event InventoryReleased ''evt_2'') w1 = (Inr (), w2) \<and>
     stock_of ''MONITOR-004'' (db w2) = Some r2 \<and> iv_available_stock r2 = 80"
proof -
  let ?e1 = "monitor_event InventoryReserved ''evt_1''" and ?e2 = "monitor_event InventoryReleased ''evt_2''"
  let ?t = "[(seed_item 0 ''MONITOR-004'' ''Monitor'' 50)
      \<lparr>iv_reserved_stock := 80, iv_available_stock := 0, iv_updated_at := occurred_at ?e1\<rparr>]"
  have res: "update_rows_try (\<lambda>r. ''MONITOR-004'' = iv_sku r) (reserve_row 80 (occurred_at ?e1))
      (inventory_read_model (db monitor_world)) = Inr ?t"
    by (simp add: seed_item_def reserve_row_def int4_def)
  have fresh: "\<not> projection_applied projection_name ''evt_1'' (db monitor_world)" by (simp add: projection_applied_def)
  have "\<exists>w1. applyHistoricalEvent Pool ?e1 monitor_world = (Inr (), w1) \<and> db_script w1 = [] \<and>
      inventory_read_model (db w1) = ?t \<and> (\<forall>i. projection_applied projection_name i (db w1) \<longleftrightarrow>
        i = event_id ?e1 \<or> projection_applied projection_name i (db monitor_world))"
    by (rule apply_stock_ok [OF _ _ _ _ eighty _, where f = reserve_row and s = "''MONITOR-004''"])
      (use res fresh in simp_all)
  then obtain w1 where 1: "applyHistoricalEvent Pool ?e1 monitor_world = (Inr (), w1)" "db_script w1 = []"
    "inventory_read_model (db w1) = ?t" "\<And>i. projection_applied projection_name i (db w1) \<longleftrightarrow> i = ''evt_1''"
    by (auto simp: projection_applied_def [of _ _ "db monitor_world"])
  obtain t where rel: "update_rows_try (\<lambda>r. ''MONITOR-004'' = iv_sku r) (release_row 80 (occurred_at ?e2))
      (inventory_read_model (db w1)) = Inr t"
    by (simp add: 1(3) seed_item_def release_row_def int4_def)
  have "\<exists>w2. applyHistoricalEvent Pool ?e2 w1 = (Inr (), w2) \<and> db_script w2 = [] \<and>
      inventory_read_model (db w2) = t \<and> (\<forall>i. projection_applied projection_name i (db w2) \<longleftrightarrow>
        i = event_id ?e2 \<or> projection_applied projection_name i (db w1))"
    by (rule apply_stock_ok [OF 1(2) _ _ _ eighty, where f = release_row and s = "''MONITOR-004''"])
      (use rel in \<open>simp_all add: 1(4)\<close>)
  then obtain w2 where 2: "applyHistoricalEvent Pool ?e2 w1 = (Inr (), w2)" by blast
  have "\<exists>r2. stock_of ''MONITOR-004'' (db w2) = Some r2 \<and>
      iv_reserved_stock r2 = iv_reserved_stock (seed_item 0 ''MONITOR-004'' ''Monitor'' 50) \<and>
      iv_available_stock r2 = max 80 (iv_available_stock (seed_item 0 ''MONITOR-004'' ''Monitor'' 50))"
    by (rule release_invents_stock [OF 1(1) 2 _ _ _ _ eighty]) (use fresh in \<open>simp_all add: seed_item_def 1(4)\<close>)
  then show ?thesis using 1(1) 2 by (auto simp: seed_item_def)
qed

end
