(* ===== verification/Run_World.thy ===== *)
theory Run_World
  imports Services
begin

text \<open>
  What every delivery does to the world, whatever it delivers and whatever fails.  A
  relation that the calls, an \<open>emit\<close> and a dead letter respect is respected by the delivery
  of any message to any consumer (locale \<open>run_sends\<close>).  The instance \<open>onward\<close> says how the
  world moves on: time and the supply of uuids never go back, the log only grows, and each
  new message is a dead letter or an event whose id was drawn from the supply in between.
\<close>

section \<open>Relations that a delivery respects\<close>

locale run_sends = run_calls S
  for S :: "world \<Rightarrow> world \<Rightarrow> bool" +
  assumes S_consumers: "S w (w\<lparr>consumers := cs\<rparr>)"
    and S_sockets: "S w (w\<lparr>sockets := ss\<rparr>)"
    and S_emit: "e_eventId p = None \<Longrightarrow> run_follows S (emit name p)"
    and S_dlq: "m_topic m = DlqTopic \<Longrightarrow> run_follows S (producer_send [m])"
begin

lemma follows_emit_event: "e_eventId p = None \<Longrightarrow> run_follows S (emit_event name p)"
  unfolding emit_event_def by (intro call_rules S_emit)

lemma follows_reply: "run_follows S (emit_event name (reply e tpc ty agg pl))"
  by (rule follows_emit_event) simp

lemma follows_update_consumer: "run_follows S (update_consumer name f)"
  unfolding update_consumer_def by (rule run_modifyE) (rule S_consumers)

lemma follows_broadcast: "run_follows S (broadcast ev)"
  unfolding broadcast_def by (rule run_modifyE) (rule S_sockets)

lemma follows_parse: "run_follows S (parse_result v)"
proof -
  have "run_follows S (normalize ob)" for ob
    unfolding normalize_def Let_def by (intro call_rules)
  then have "run_follows S (parse_message v)"
    unfolding parse_message_def by (auto intro!: call_rules split: option.split js.split)
  then show ?thesis unfolding parse_result_def by (intro call_rules)
qed

lemma follows_base:
  "run_follows S (wait_to_retry l a)"
  "run_follows S (isEventProcessed i name)"
  "run_follows S (markEventProcessed r i name st err)"
  unfolding wait_to_retry_def isEventProcessed_def markEventProcessed_def
  by (intro call_rules)+

lemma follows_dlq_ops:
  "run_follows S (recordDLQMessage r q)"
  "run_follows S (insertDLQOutboxEvent r x)"
  "run_follows S (markDLQOutboxPublished r k wk)"
  unfolding recordDLQMessage_def insertDLQOutboxEvent_def markDLQOutboxPublished_def
  by (intro call_rules)+

lemma follows_dlq:
  "run_follows S (handleExhaustedRetriesDLQ name e m err n)"
  "run_follows S (handleNonRetryableDLQ name m err)"
  unfolding handleExhaustedRetriesDLQ_def handleNonRetryableDLQ_def exhausted_transaction_def Let_def
  by (intro call_rules follows_dlq_ops follows_base S_dlq; simp)+

lemma follows_domain:
  "run_follows S (payment_processEvent e)" "run_follows S (inventory_processEvent e)"
  "run_follows S (fraud_processEvent e)" "run_follows S (shipping_processEvent e)"
  "run_follows S (notification_processEvent e)"
  unfolding handler_defs by (intro call_rules follows_reply)+

lemma follows_saga: "run_follows S (saga_processEvent e)"
proof -
  have "run_follows S (saga_case e s)" for s
    by (rule saga_case_cases [where P = "run_follows S"];
        (unfold saga_case_defs saveSagaInstance_def getSagaByAggregateIdForUpdate_def)?)
      (intro call_rules follows_emit_event; simp)+
  then show ?thesis
    unfolding saga_processEvent_def getSagaByAggregateId_def by (intro call_rules)
qed

lemma follows_projection: "run_follows S (projection_processEvent e)"
proof -
  have "run_follows S (emitLiveNotifications e)"
    by (rule live_cases)
      (intro gateway_all [where P = "run_follows S"] run_compose follows_broadcast; assumption)+
  then show ?thesis
    unfolding projection_processEvent_def appendToEventStore_def append_execute_def recordEvent_def runner.case
    by (intro call_rules run_apply)
qed

lemma follows_handler: "run_follows S (consumer_handler c e)"
  by (cases c) (simp_all add: follows_domain follows_saga follows_projection)

lemma follows_process_valid: "run_follows S (process_valid (consumer_name c) (consumer_handler c) m e)"
proof -
  have loop: "run_follows S (retry_loop (consumer_name c) (consumer_handler c) e left a le)" for left a le
    by (induction left arbitrary: a le)
      (auto simp: try_process_def intro!: call_rules follows_handler follows_base follows_update_consumer)
  show ?thesis
    unfolding process_valid_def
    by (auto intro!: call_rules loop follows_base follows_update_consumer follows_dlq split: prod.split)
qed

theorem follows_deliver: "run_follows S (deliver c m)"
  unfolding deliver_def handleMessage_def
  by (auto intro!: call_rules follows_update_consumer follows_parse follows_process_valid follows_dlq split: sum.split)

end

section \<open>How the world moves on\<close>

text \<open>An event drawn from the supply: number \<open>n\<close>, sent at time \<open>t\<close>.\<close>

definition drawn :: "world \<Rightarrow> world \<Rightarrow> nat \<Rightarrow> message \<Rightarrow> bool" where
  "drawn w w' n x \<longleftrightarrow> uuid_next w \<le> n \<and> n < uuid_next w' \<and>
     (\<exists>name p t. now w \<le> t \<and> t \<le> now w' \<and> e_eventId p = None \<and>
        x = emit_message name p (emit_envelope name t (uuid_src w n) p))"

definition onward :: "world \<Rightarrow> world \<Rightarrow> bool" where
  "onward w w' \<longleftrightarrow>
     environment w' = environment w \<and>
     (db_script w = [] \<longrightarrow> db_script w' = []) \<and> (kafka_script w = [] \<longrightarrow> kafka_script w' = []) \<and>
     now w \<le> now w' \<and> uuid_next w \<le> uuid_next w' \<and>
     (\<exists>ms ns. bus w' = bus w @ ms \<and> sorted_wrt (<) ns \<and>
        list_all2 (drawn w w') ns (filter (\<lambda>x. m_topic x \<noteq> DlqTopic) ms))"

lemma drawn_mono:
  assumes "drawn v x n m" "now w \<le> now v" "uuid_next w \<le> uuid_next v" "now x \<le> now w'" "uuid_next x \<le> uuid_next w'"
    and "uuid_src v = uuid_src w"
  shows "drawn w w' n m"
proof -
  obtain name p t where t: "now v \<le> t" "t \<le> now x" "e_eventId p = None"
    "m = emit_message name p (emit_envelope name t (uuid_src v n) p)"
    using assms(1) unfolding drawn_def by blast
  have "uuid_next w \<le> n" "n < uuid_next w'" "now w \<le> t" "t \<le> now w'"
    using assms(1-5) t(1,2) by (auto simp: drawn_def)
  moreover have "m = emit_message name p (emit_envelope name t (uuid_src w n) p)"
    using t(4) assms(6) by simp
  ultimately show ?thesis using t(3) unfolding drawn_def by blast
qed

lemma onward_trans:
  assumes "onward u v" "onward v x"
  shows "onward u x"
proof -
  obtain ms1 ns1 where 1: "bus v = bus u @ ms1" "sorted_wrt (<) ns1"
    "list_all2 (drawn u v) ns1 (filter (\<lambda>x. m_topic x \<noteq> DlqTopic) ms1)"
    using assms(1) unfolding onward_def by blast
  obtain ms2 ns2 where 2: "bus x = bus v @ ms2" "sorted_wrt (<) ns2"
    "list_all2 (drawn v x) ns2 (filter (\<lambda>x. m_topic x \<noteq> DlqTopic) ms2)"
    using assms(2) unfolding onward_def by blast
  have src: "uuid_src v = uuid_src u" using assms(1) by (simp add: onward_def environment_def)
  have le: "now u \<le> now v" "now v \<le> now x" "uuid_next u \<le> uuid_next v" "uuid_next v \<le> uuid_next x"
    using assms by (simp_all add: onward_def)
  have a: "list_all2 (drawn u x) ns1 (filter (\<lambda>x. m_topic x \<noteq> DlqTopic) ms1)"
    by (rule list_all2_mono [OF 1(3)]) (rule drawn_mono, assumption, use le src in auto)
  have b: "list_all2 (drawn u x) ns2 (filter (\<lambda>x. m_topic x \<noteq> DlqTopic) ms2)"
    by (rule list_all2_mono [OF 2(3)]) (rule drawn_mono, assumption, use le src in auto)
  have "m < n" if "m \<in> set ns1" "n \<in> set ns2" for m n
  proof -
    have "m < uuid_next v" using 1(3) that(1) by (fastforce simp: list_all2_conv_all_nth in_set_conv_nth drawn_def)
    moreover have "uuid_next v \<le> n" using 2(3) that(2) by (fastforce simp: list_all2_conv_all_nth in_set_conv_nth drawn_def)
    ultimately show ?thesis by simp
  qed
  then have "sorted_wrt (<) (ns1 @ ns2)" using 1(2) 2(2) by (simp add: sorted_wrt_append)
  moreover have "list_all2 (drawn u x) (ns1 @ ns2) (filter (\<lambda>x. m_topic x \<noteq> DlqTopic) (ms1 @ ms2))"
    using a b by (simp add: list_all2_appendI)
  moreover have "bus x = bus u @ (ms1 @ ms2)" using 1(1) 2(1) by simp
  moreover have "environment x = environment u" "db_script u = [] \<longrightarrow> db_script x = []"
    "kafka_script u = [] \<longrightarrow> kafka_script x = []"
    using assms by (simp_all add: onward_def)
  ultimately show ?thesis using le unfolding onward_def by (meson le_trans)
qed

text \<open>A step that sends nothing.\<close>

lemma onwardI:
  "environment w' = environment w \<Longrightarrow> (db_script w = [] \<Longrightarrow> db_script w' = []) \<Longrightarrow>
   (kafka_script w = [] \<Longrightarrow> kafka_script w' = []) \<Longrightarrow> now w \<le> now w' \<Longrightarrow> uuid_next w \<le> uuid_next w' \<Longrightarrow>
   bus w' = bus w \<Longrightarrow> onward w w'"
  unfolding onward_def by (intro conjI exI [of _ "[]"]) simp_all

lemma onward_send:
  assumes "environment w' = environment w" "db_script w = [] \<longrightarrow> db_script w' = []"
    "kafka_script w = [] \<longrightarrow> kafka_script w' = []" "now w \<le> now w'" "uuid_next w \<le> uuid_next w'"
    and "bus w' = bus w \<or> bus w' = bus w @ [m]"
    and "m_topic m = DlqTopic \<or> (\<exists>n. drawn w w' n m)"
  shows "onward w w'"
proof (cases "bus w' = bus w \<or> m_topic m = DlqTopic")
  case True
  then obtain ms where "bus w' = bus w @ ms" "filter (\<lambda>x. m_topic x \<noteq> DlqTopic) ms = []"
    using assms(6) by (cases "bus w' = bus w") auto
  then show ?thesis using assms(1-5) unfolding onward_def by (intro conjI exI [of _ ms] exI [of _ "[]"]) simp_all
next
  case False
  then obtain n where "drawn w w' n m" "bus w' = bus w @ [m]" "m_topic m \<noteq> DlqTopic" using assms(6,7) by auto
  then show ?thesis using assms(1-5) unfolding onward_def by (intro conjI exI [of _ "[m]"] exI [of _ "[n]"]) simp_all
qed

lemma onward_emit:
  assumes "e_eventId p = None"
  shows "run_follows onward (emit name p)"
  unfolding run_follows_def
proof
  fix w :: world
  let ?m = "emit_message name p (emit_envelope name (now w) (uuid_src w (uuid_next w)) p)"
  define w1 where "w1 = w\<lparr>uuid_next := Suc (uuid_next w)\<rparr>"
  obtain r w2 where s: "producer_send [?m] w1 = (r, w2)" by (cases "producer_send [?m] w1") simp
  have run: "snd (emit name p w) = w2"
    using s by (cases r) (simp_all add: emit_def assms run_defs Let_def w1_def)
  have w1: "environment w1 = environment w" "db_script w1 = db_script w" "kafka_script w1 = kafka_script w"
    "now w1 = now w" "uuid_next w1 = Suc (uuid_next w)" "bus w1 = bus w"
    by (simp_all add: w1_def environment_def)
  have w2: "environment w2 = environment w1" "db_script w2 = db_script w1"
    "kafka_script w1 = [] \<longrightarrow> kafka_script w2 = []" "now w1 \<le> now w2" "uuid_next w2 = uuid_next w1"
    "bus w2 = bus w1 \<or> bus w2 = bus w1 @ [?m]"
    using s by (auto simp: producer_send_def Let_def kafka_tick_def environment_def split: outcome.splits)
  have "drawn w w2 (uuid_next w) ?m"
    using w1 w2(4,5) assms unfolding drawn_def by (intro conjI exI [of _ name] exI [of _ p] exI [of _ "now w"]) simp_all
  then show "onward w (snd (emit name p w))"
    using w1 w2 unfolding run by (intro onward_send [where m = ?m]) auto
qed

interpretation onward: run_sends onward
proof
  show "onward w w" for w by (rule onwardI) simp_all
  show "onward u v \<Longrightarrow> onward v x \<Longrightarrow> onward u x" for u v x by (rule onward_trans)
  show "e_eventId p = None \<Longrightarrow> run_follows onward (emit name p)" for p name by (rule onward_emit)
  show "run_follows onward (producer_send [m])" if "m_topic m = DlqTopic" for m
    unfolding run_follows_def
  proof
    fix w show "onward w (snd (producer_send [m] w))"
      using that by (intro onward_send [where m = m])
        (auto simp: producer_send_def Let_def kafka_tick_def environment_def split: outcome.splits)
  qed
qed (rule onwardI; simp add: environment_def)+

text \<open>Each new event of a run has an id of its own, drawn during the run.\<close>

lemma emit_envelope_id: "e_eventId p = None \<Longrightarrow> event_id (emit_envelope name t u p) = ''evt_'' @ u"
  by (simp add: emit_envelope_def createEventEnvelope_def or_string_def)

lemma drawn_emit:
  assumes "drawn w w' n (emit_message name p (emit_envelope name t u p))" "e_eventId p = None"
  shows "u = uuid_src w n \<and> (\<exists>t'. now w \<le> t' \<and> t' \<le> now w' \<and> emit_envelope name t u p = emit_envelope name t' u p)"
proof -
  obtain name' p' t' where d: "now w \<le> t'" "t' \<le> now w'" "e_eventId p' = None"
    "emit_message name p (emit_envelope name t u p) = emit_message name' p' (emit_envelope name' t' (uuid_src w n) p')"
    using assms(1) unfolding drawn_def by blast
  have u: "u = uuid_src w n"
    using d(3,4) assms(2) by (auto simp: emit_message_def emit_envelope_id)
  have "occurred_at (emit_envelope name t u p) = occurred_at (emit_envelope name' t' (uuid_src w n) p')"
    using d(4) unfolding emit_message_def by (metis list.inject message.ext_inject prod.inject)
  then have "toISOString t = toISOString t'"
    by (simp add: emit_envelope_def createEventEnvelope_def or_string_def)
  then have "emit_envelope name t u p = emit_envelope name t' u p"
    by (simp add: emit_envelope_def createEventEnvelope_def)
  then show ?thesis using u d(1,2) by blast
qed

end
