(* ===== verification/Fulfilment.thy ===== *)
theory Fulfilment
  imports Run_World Saga_Props
begin

text \<open>
  The consumers at work together on one order.  The message log of the world is read by the
  saga orchestrator and the four services in any order, with duplicates, each at its own
  pace; the projection and the notification service may read or not.  This theory defines
  schedules of deliveries, the tasks an order still has open on the log, and the invariant
  that connects the open tasks with the saga.
\<close>

section \<open>Schedules\<close>

text \<open>Message number \<open>k\<close> of the log, as the client hands it to a consumer.\<close>

definition received :: "nat \<Rightarrow> message \<Rightarrow> each_message" where
  "received k x =
     \<lparr>em_topic = m_topic x, em_partition = 0, em_offset = nat_string (int k), em_value = m_value x\<rparr>"

definition subscribed :: "platform_consumer \<Rightarrow> message \<Rightarrow> bool" where
  "subscribed c x \<longleftrightarrow> m_topic x \<in> set (consumer_topics c)"

definition deliver_at :: "platform_consumer \<times> nat \<Rightarrow> world \<Rightarrow> world" where
  "deliver_at d w =
     (case d of (c, k) \<Rightarrow>
        if k < length (bus w) \<and> subscribed c (bus w ! k) then snd (deliver c (received k (bus w ! k)) w) else w)"

definition run_schedule :: "(platform_consumer \<times> nat) list \<Rightarrow> world \<Rightarrow> world" where
  "run_schedule ds w = fold deliver_at ds w"

text \<open>The consumers whose progress an order depends on.\<close>

definition core :: "platform_consumer list" where
  "core = [SagaOrchestrator, PaymentConsumer, InventoryConsumer, FraudConsumer, ShippingConsumer]"

text \<open>
  A round reaches every message that was on the log from position \<open>k0\<close> on when it began, for
  every core consumer that subscribes to it, in any order and as often as it likes.  It
  delivers no message from before \<open>k0\<close>, so what other orders have left on the log there stays
  unread during the round.
\<close>

definition round :: "nat \<Rightarrow> (platform_consumer \<times> nat) list \<Rightarrow> world \<Rightarrow> bool" where
  "round k0 ds w \<longleftrightarrow>
     (\<forall>d \<in> set ds. k0 \<le> snd d) \<and>
     (\<forall>c \<in> set core. \<forall>k \<in> {k0..<length (bus w)}. subscribed c (bus w ! k) \<longrightarrow> (c, k) \<in> set ds)"

fun rounds :: "nat \<Rightarrow> (platform_consumer \<times> nat) list list \<Rightarrow> world \<Rightarrow> bool" where
  "rounds k0 [] w = True"
| "rounds k0 (ds # dss) w = (round k0 ds w \<and> rounds k0 dss (run_schedule ds w))"

section \<open>Tasks\<close>

text \<open>The consumer that acts on an event, and how many steps may follow.\<close>

fun addressee :: "event_type \<Rightarrow> platform_consumer option" where
  "addressee PaymentRequested = Some PaymentConsumer"
| "addressee PaymentRefundRequested = Some PaymentConsumer"
| "addressee InventoryReservationRequested = Some InventoryConsumer"
| "addressee FraudCheckRequested = Some FraudConsumer"
| "addressee ShipmentRequested = Some ShippingConsumer"
| "addressee OrderCreated = Some SagaOrchestrator"
| "addressee PaymentAuthorized = Some SagaOrchestrator"
| "addressee PaymentRejected = Some SagaOrchestrator"
| "addressee PaymentRefunded = Some SagaOrchestrator"
| "addressee InventoryReserved = Some SagaOrchestrator"
| "addressee InventoryReservationFailed = Some SagaOrchestrator"
| "addressee InventoryReleased = Some SagaOrchestrator"
| "addressee FraudApproved = Some SagaOrchestrator"
| "addressee FraudRejected = Some SagaOrchestrator"
| "addressee ShipmentCreated = Some SagaOrchestrator"
| "addressee ShipmentFailed = Some SagaOrchestrator"
| "addressee _ = None"

fun steps_left :: "event_type \<Rightarrow> nat" where
  "steps_left OrderCreated = 12"
| "steps_left PaymentRequested = 11"
| "steps_left PaymentAuthorized = 10" | "steps_left PaymentRejected = 10"
| "steps_left InventoryReservationRequested = 9"
| "steps_left InventoryReserved = 8" | "steps_left InventoryReservationFailed = 8"
| "steps_left FraudCheckRequested = 7"
| "steps_left FraudApproved = 6" | "steps_left FraudRejected = 6"
| "steps_left ShipmentRequested = 5"
| "steps_left ShipmentCreated = 4" | "steps_left ShipmentFailed = 4"
| "steps_left PaymentRefundRequested = 2"
| "steps_left _ = 1"

type_synonym task = "platform_consumer \<times> envelope"

definition work_left :: "task list \<Rightarrow> nat" where
  "work_left pend = sum_list (map (\<lambda>t. steps_left (event_type (snd t))) pend)"

definition tasks_of :: "envelope list \<Rightarrow> task list" where
  "tasks_of es = concat (map (\<lambda>e. case addressee (event_type e) of None \<Rightarrow> [] | Some c \<Rightarrow> [(c, e)]) es)"

lemma tasks_of_mem: "(c, e) \<in> set (tasks_of es) \<longleftrightarrow> e \<in> set es \<and> addressee (event_type e) = Some c"
  by (auto simp: tasks_of_def split: option.splits)

lemma tasks_of_simps [simp]:
  "tasks_of [] = []"
  "tasks_of (e # es) = (case addressee (event_type e) of None \<Rightarrow> tasks_of es | Some c \<Rightarrow> (c, e) # tasks_of es)"
  by (simp_all add: tasks_of_def split: option.split)

lemma addressee_core: "addressee ty = Some c \<Longrightarrow> c \<in> set core"
  by (cases ty) (auto simp: core_def)

section \<open>What a message on the log says\<close>

definition reads_as :: "message \<Rightarrow> envelope \<Rightarrow> bool" where
  "reads_as x e \<longleftrightarrow>
     (\<exists>e0. valid_envelope e0 \<and> m_value x = wire_of (js_of_envelope e0) \<and> e = e0\<lparr>payload := obj_json (payload e0)\<rparr>)"

lemma reads_as_unique:
  assumes "reads_as x e" "reads_as x e'"
  shows "e = e'"
proof -
  have "parse_result (m_value x) w = (Inr (Inr f), w)" if "reads_as x f" for f w
    using that unfolding reads_as_def by (elim exE conjE) (simp add: parse_result_valid)
  then have "parse_result (m_value x) w = (Inr (Inr e), w)" "parse_result (m_value x) w = (Inr (Inr e'), w)" for w
    using assms by blast+
  then show ?thesis by (metis Pair_inject sum.inject(2))
qed

lemma reads_as_fields:
  assumes "reads_as x e"
  shows "aggregate_id e \<noteq> []" "correlation_id e \<noteq> []" "event_id e \<noteq> []" "obj_json (payload e) = payload e"
  using assms by (auto simp: reads_as_def valid_envelope_def)

lemma deliver_reads:
  "reads_as x e \<Longrightarrow> deliver c (received k x) w =
     process_valid (consumer_name c) (consumer_handler c) (received k x) e (seen (consumer_name c) w)"
  unfolding reads_as_def by (auto intro!: deliver_valid simp: received_def)

definition handled :: "platform_consumer \<Rightarrow> envelope \<Rightarrow> world \<Rightarrow> bool" where
  "handled c e w \<longleftrightarrow> event_processed (event_id e) (consumer_name c) (db w)"

text \<open>An id that the supply will not give again.\<close>

definition old_id :: "world \<Rightarrow> string \<Rightarrow> bool" where
  "old_id w i \<longleftrightarrow> (\<forall>n \<ge> uuid_next w. i \<noteq> ''evt_'' @ uuid_src w n)"

text \<open>Topics that no core consumer reads.\<close>

definition off_path :: "message \<Rightarrow> bool" where
  "off_path x \<longleftrightarrow> m_topic x = DlqTopic \<or> m_topic x = NotificationsTopic"

lemma core_on_path: "c \<in> set core \<Longrightarrow> subscribed c x \<Longrightarrow> \<not> off_path x"
  by (auto simp: core_def subscribed_def off_path_def saga_topics_def)

section \<open>The log invariant\<close>

text \<open>
  From position \<open>k0\<close> on every message on the path reads as an event with an id of its own,
  whose addressee has handled it unless it is one of the open tasks; every open task is on
  the log for its addressee; no id of the future has been handled.
\<close>

definition on_path :: "nat \<Rightarrow> world \<Rightarrow> message set" where
  "on_path k0 w = {x \<in> set (drop k0 (bus w)). \<not> off_path x}"

definition log_ok :: "nat \<Rightarrow> task list \<Rightarrow> world \<Rightarrow> bool" where
  "log_ok k0 pend w \<longleftrightarrow>
     k0 \<le> length (bus w) \<and>
     (\<forall>x \<in> on_path k0 w. \<exists>e. reads_as x e \<and> old_id w (event_id e) \<and>
        (\<forall>c. addressee (event_type e) = Some c \<longrightarrow> (c, e) \<in> set pend \<or> handled c e w)) \<and>
     (\<forall>x \<in> on_path k0 w. \<forall>y \<in> on_path k0 w. \<forall>e f.
        reads_as x e \<longrightarrow> reads_as y f \<longrightarrow> event_id e = event_id f \<longrightarrow> e = f) \<and>
     (\<forall>(c, e) \<in> set pend. addressee (event_type e) = Some c \<and> \<not> handled c e w \<and>
        (\<exists>x \<in> on_path k0 w. reads_as x e \<and> subscribed c x)) \<and>
     distinct (map (event_id \<circ> snd) pend) \<and>
     (\<forall>n \<ge> uuid_next w. \<forall>c \<in> set core. \<not> event_processed (''evt_'' @ uuid_src w n) (consumer_name c) (db w))"

text \<open>The messages of a handler: one for each command.\<close>

definition sent_by :: "string \<Rightarrow> emit_params list \<Rightarrow> message list \<Rightarrow> bool" where
  "sent_by name ps ms \<longleftrightarrow> list_all2 (\<lambda>p m. \<exists>u t. m = emit_message name p (emit_envelope name t u p)) ps ms"

text \<open>A command that its addressee will read.\<close>

definition command_ok :: "string \<Rightarrow> emit_params \<Rightarrow> bool" where
  "command_ok name p \<longleftrightarrow>
     emit_params_ok name p \<and> e_eventId p = None \<and> e_topic p \<noteq> DlqTopic \<and>
     (\<forall>c. addressee (e_eventType p) = Some c \<longrightarrow> e_topic p \<in> set (consumer_topics c))"

text \<open>The event that a command becomes.\<close>

definition becomes :: "emit_params \<Rightarrow> envelope \<Rightarrow> bool" where
  "becomes p e \<longleftrightarrow> event_type e = e_eventType p \<and> aggregate_id e = e_aggregateId p \<and>
     correlation_id e = e_correlationId p \<and> payload e = obj_json (e_payload p)"

lemma year_bound: "t < 2 ^ 47 \<Longrightarrow> iso_year t < 10000"
proof -
  assume "t < 2 ^ 47"
  then have "t div 86400000 \<le> 2 ^ 47 div 86400000" by (intro div_le_mono less_imp_le)
  then have "(t div 86400000 + 719468) div 146097 \<le> (2 ^ 47 div 86400000 + 719468) div 146097"
    by (rule div_le_mono [OF add_right_mono])
  then have "(t div 86400000 + 719468) div 146097 * 400 + 401 < 10000" by simp
  with iso_year_bound [of t] show ?thesis by linarith
qed

lemma sent_by_topics: "sent_by name ps ms \<Longrightarrow> list_all2 (\<lambda>p m. m_topic m = e_topic p) ps ms"
  unfolding sent_by_def by (erule list_all2_mono) (auto simp: emit_message_def)

lemma emit_envelope_fields:
  "event_type (emit_envelope name t u p) = e_eventType p"
  "aggregate_id (emit_envelope name t u p) = e_aggregateId p"
  "correlation_id (emit_envelope name t u p) = e_correlationId p"
  "payload (emit_envelope name t u p) = e_payload p"
  by (simp_all add: emit_envelope_def createEventEnvelope_def)

text \<open>A message drawn from the supply, as the event that it is read as.\<close>

lemma drawn_reads:
  assumes d: "drawn w w' n (emit_message name p (emit_envelope name s u p))" and p: "command_ok name p"
    and t: "now w' < 2 ^ 47"
  shows "\<exists>e. becomes p e \<and> reads_as (emit_message name p (emit_envelope name s u p)) e \<and> event_id e = ''evt_'' @ uuid_src w n"
proof -
  obtain s' where s': "s' \<le> now w'" "emit_envelope name s u p = emit_envelope name s' u p" "u = uuid_src w n"
    using drawn_emit [OF d] p by (auto simp: command_ok_def)
  let ?e = "emit_envelope name s' u p"
  have "valid_envelope ?e"
    using p year_bound [of s'] s'(1) t by (intro valid_emit_envelope) (simp_all add: command_ok_def)
  then have "reads_as (emit_message name p (emit_envelope name s u p)) (?e\<lparr>payload := obj_json (payload ?e)\<rparr>)"
    unfolding reads_as_def s'(2) by (auto simp: emit_message_def)
  moreover have "event_id ?e = ''evt_'' @ uuid_src w n"
    using p s'(3) by (simp add: emit_envelope_id command_ok_def)
  ultimately show ?thesis
    by (intro exI [of _ "?e\<lparr>payload := obj_json (payload ?e)\<rparr>"]) (simp add: becomes_def emit_envelope_fields)
qed

text \<open>The new messages of a run as events with new ids.\<close>

lemma new_events:
  assumes on: "onward w w'" and bus: "bus w' = bus w @ ms" and sent: "sent_by name ps ms"
    and ok: "\<forall>p \<in> set ps. command_ok name p" and inj: "inj (uuid_src w)" and t: "now w' < 2 ^ 47"
  shows "\<exists>es. list_all2 becomes ps es \<and> list_all2 reads_as ms es \<and> distinct (map event_id es) \<and>
     (\<forall>e \<in> set es. old_id w' (event_id e) \<and> (\<exists>n \<ge> uuid_next w. event_id e = ''evt_'' @ uuid_src w n))"
proof -
  have len: "length ps = length ms" using sent by (auto simp: sent_by_def list_all2_lengthD)
  have "m_topic x \<noteq> DlqTopic" if "x \<in> set ms" for x
  proof -
    obtain i where i: "i < length ms" "x = ms ! i" using \<open>x \<in> set ms\<close> by (auto simp: in_set_conv_nth)
    then have "m_topic x = e_topic (ps ! i)"
      using sent_by_topics [OF sent] by (simp add: list_all2_conv_all_nth)
    moreover have "command_ok name (ps ! i)" using ok i(1) len by simp
    ultimately show ?thesis by (simp add: command_ok_def)
  qed
  then have "filter (\<lambda>x. m_topic x \<noteq> DlqTopic) ms = ms" by (simp add: filter_id_conv)
  then obtain ns where ns: "sorted_wrt (<) ns" "list_all2 (drawn w w') ns ms"
    using on bus unfolding onward_def by auto
  have src: "uuid_src w' = uuid_src w" using on by (simp add: onward_def environment_def)
  have "\<exists>e. becomes (ps ! i) e \<and> reads_as (ms ! i) e \<and> event_id e = ''evt_'' @ uuid_src w (ns ! i)" if i: "i < length ms" for i
  proof -
    let ?p = "ps ! i"
    obtain u s where m: "ms ! i = emit_message name ?p (emit_envelope name s u ?p)"
      using sent i len by (auto simp: sent_by_def list_all2_conv_all_nth)
    have p: "command_ok name ?p" using ok i len by simp
    have "drawn w w' (ns ! i) (ms ! i)" using ns(2) i by (simp add: list_all2_conv_all_nth)
    then show ?thesis using drawn_reads [of w w' "ns ! i" name ?p s u] p t unfolding m by blast
  qed
  then obtain es where es: "length es = length ms" "\<forall>i < length ms. becomes (ps ! i) (es ! i) \<and> reads_as (ms ! i) (es ! i) \<and>
      event_id (es ! i) = ''evt_'' @ uuid_src w (ns ! i)"
    using Skolem_list_nth [of "length ms" "\<lambda>i e. becomes (ps ! i) e \<and> reads_as (ms ! i) e \<and>
      event_id e = ''evt_'' @ uuid_src w (ns ! i)"] by blast
  have nlen: "length ns = length ms" using ns(2) by (rule list_all2_lengthD)
  have bound: "uuid_next w \<le> ns ! i \<and> ns ! i < uuid_next w'" if "i < length ms" for i
    using ns(2) that by (simp add: list_all2_conv_all_nth drawn_def)
  have same: "uuid_src w a = uuid_src w b \<longleftrightarrow> a = b" for a b using inj by (simp add: inj_eq)
  have ids: "map event_id es = map (\<lambda>n. ''evt_'' @ uuid_src w n) ns"
    by (rule nth_equalityI) (use es nlen in auto)
  have "distinct ns" using ns(1) by (simp add: strict_sorted_iff)
  then have "distinct (map event_id es)" unfolding ids by (simp add: distinct_map inj_on_def same)
  moreover have "old_id w' (event_id e) \<and> (\<exists>n \<ge> uuid_next w. event_id e = ''evt_'' @ uuid_src w n)" if e: "e \<in> set es" for e
  proof -
    obtain i where i: "i < length ms" "e = es ! i" using e es(1) by (auto simp: in_set_conv_nth)
    then have "event_id e = ''evt_'' @ uuid_src w (ns ! i)" using es(2) by simp
    then show ?thesis using bound [OF i(1)] by (auto simp: old_id_def src same)
  qed
  ultimately show ?thesis
    using es len by (intro exI [of _ es]) (auto simp: list_all2_conv_all_nth)
qed

lemma onward_ids:
  assumes "onward w w'"
  shows "old_id w i \<Longrightarrow> old_id w' i" "uuid_src w' = uuid_src w" "uuid_next w \<le> uuid_next w'"
  using assms by (auto simp: onward_def old_id_def environment_def)

text \<open>A delivery that moves nothing on the path.\<close>

lemma log_ok_idle:
  assumes log: "log_ok k0 pend w" and on: "onward w w'"
    and bus: "bus w' = bus w @ ms" "\<forall>x \<in> set ms. off_path x"
    and same: "\<forall>c \<in> set core. \<forall>i. event_processed i (consumer_name c) (db w') \<longleftrightarrow> event_processed i (consumer_name c) (db w)"
  shows "log_ok k0 pend w'"
proof -
  have path: "on_path k0 w' = on_path k0 w"
    using bus log by (auto simp: on_path_def log_ok_def)
  have h: "handled c e w' \<longleftrightarrow> handled c e w" if "addressee (event_type e) = Some c" for c e
    using same addressee_core [OF that] by (simp add: handled_def)
  have n: "uuid_next w' \<le> n \<Longrightarrow> uuid_next w \<le> n" for n using onward_ids(3) [OF on] by simp
  have 1: "\<forall>x \<in> on_path k0 w. \<exists>e. reads_as x e \<and> old_id w' (event_id e) \<and>
        (\<forall>c. addressee (event_type e) = Some c \<longrightarrow> (c, e) \<in> set pend \<or> handled c e w')"
    using log onward_ids(1) [OF on] h unfolding log_ok_def by metis
  have 2: "\<forall>(c, e) \<in> set pend. addressee (event_type e) = Some c \<and> \<not> handled c e w' \<and>
        (\<exists>x \<in> on_path k0 w. reads_as x e \<and> subscribed c x)"
    using log h unfolding log_ok_def by fastforce
  have 3: "\<forall>n \<ge> uuid_next w'. \<forall>c \<in> set core. \<not> event_processed (''evt_'' @ uuid_src w' n) (consumer_name c) (db w')"
    using log same n unfolding log_ok_def onward_ids(2) [OF on] by blast
  show ?thesis
    using log 1 2 3 unfolding log_ok_def path bus(1) by simp
qed

lemma list_all2_left: "list_all2 P xs ys \<Longrightarrow> x \<in> set xs \<Longrightarrow> \<exists>y \<in> set ys. P x y"
  by (induction rule: list_all2_induct) auto

lemma distinct_tasks: "distinct (map event_id es) \<Longrightarrow> distinct (map (event_id \<circ> snd) (tasks_of es))"
proof (induction es)
  case (Cons e es)
  have "event_id e \<notin> event_id ` snd ` set (tasks_of es)"
    using Cons.prems by (auto simp: tasks_of_mem)
  then show ?case using Cons by (auto simp: image_image split: option.split)
qed simp

text \<open>
  A core consumer handles an event of the log: the event's task is done, and the tasks of
  the events it sends are open.
\<close>

lemma log_ok_step:
  assumes log: "log_ok k0 pend w" and on: "onward w w'" and core: "c \<in> set core"
    and x: "x \<in> on_path k0 w" "reads_as x e"
    and bus: "bus w' = bus w @ ms" and new: "list_all2 reads_as ms es" "distinct (map event_id es)"
      "\<forall>f \<in> set es. old_id w' (event_id f) \<and> (\<exists>n \<ge> uuid_next w. event_id f = ''evt_'' @ uuid_src w n)"
    and topics: "list_all2 (\<lambda>m f. \<forall>d. addressee (event_type f) = Some d \<longrightarrow> subscribed d m) ms es"
    and proc: "\<forall>d \<in> set core. \<forall>i. event_processed i (consumer_name d) (db w') \<longleftrightarrow>
      event_processed i (consumer_name d) (db w) \<or> (i = event_id e \<and> d = c)"
  shows "log_ok k0 (filter (\<lambda>t. t \<noteq> (c, e)) pend @ tasks_of es) w'"
proof -
  let ?pend = "filter (\<lambda>t. t \<noteq> (c, e)) pend @ tasks_of es"
  have k0: "k0 \<le> length (bus w)" using log by (simp add: log_ok_def)
  then have path: "on_path k0 w' = on_path k0 w \<union> {y \<in> set ms. \<not> off_path y}"
    unfolding on_path_def bus by auto
  have n: "uuid_next w' \<le> n \<Longrightarrow> uuid_next w \<le> n" for n using onward_ids(3) [OF on] by simp
  have h: "handled d f w' \<longleftrightarrow> handled d f w \<or> (event_id f = event_id e \<and> d = c)" if "addressee (event_type f) = Some d" for d f
    using proc addressee_core [OF that] by (simp add: handled_def)
  have old: "\<exists>f. reads_as y f \<and> old_id w (event_id f) \<and>
      (\<forall>d. addressee (event_type f) = Some d \<longrightarrow> (d, f) \<in> set pend \<or> handled d f w)" if "y \<in> on_path k0 w" for y
    using log that unfolding log_ok_def by blast
  have uniq: "f = g" if "y \<in> on_path k0 w" "z \<in> on_path k0 w" "reads_as y f" "reads_as z g" "event_id f = event_id g" for y z f g
    using log that unfolding log_ok_def by blast
  have pend: "addressee (event_type f) = Some d \<and> \<not> handled d f w \<and> (\<exists>y \<in> on_path k0 w. reads_as y f \<and> subscribed d y)"
    if "(d, f) \<in> set pend" for d f
    using log that unfolding log_ok_def by blast
  have future: "\<not> event_processed (''evt_'' @ uuid_src w m) (consumer_name d) (db w)" if "uuid_next w \<le> m" "d \<in> set core" for m d
    using log that unfolding log_ok_def by blast
  have old_e: "old_id w (event_id e)" using old [OF x(1)] reads_as_unique [OF x(2)] by metis
  have fresh: "event_id f \<noteq> event_id g" if "f \<in> set es" "old_id w (event_id g)" for f g
    using new(3) that unfolding old_id_def by metis
  have old_w: "old_id w (event_id f)" if "reads_as y f" "y \<in> on_path k0 w" for y f
    using old [OF that(2)] reads_as_unique [OF that(1)] by metis
  have 1: "\<exists>f. reads_as y f \<and> old_id w' (event_id f) \<and>
      (\<forall>d. addressee (event_type f) = Some d \<longrightarrow> (d, f) \<in> set ?pend \<or> handled d f w')" if "y \<in> on_path k0 w'" for y
  proof (cases "y \<in> on_path k0 w")
    case True
    obtain f where f: "reads_as y f" "old_id w (event_id f)"
      "\<forall>d. addressee (event_type f) = Some d \<longrightarrow> (d, f) \<in> set pend \<or> handled d f w"
      using old [OF True] by blast
    have "(d, f) \<in> set ?pend \<or> handled d f w'" if "addressee (event_type f) = Some d" for d
      using f(3) that h [OF that] by auto
    then show ?thesis using f onward_ids(1) [OF on] by blast
  next
    case False
    then have "y \<in> set ms" using that path by auto
    then obtain f where "f \<in> set es" "reads_as y f" using list_all2_left [OF new(1)] by blast
    then show ?thesis using new(3) by (intro exI [of _ f]) (auto simp: tasks_of_mem)
  qed
  have 2: "f = g" if "y \<in> on_path k0 w'" "z \<in> on_path k0 w'" "reads_as y f" "reads_as z g" "event_id f = event_id g" for y z f g
  proof -
    have "f \<in> set es" if "y \<in> set ms" "reads_as y f" for y f
      using list_all2_left [OF new(1) that(1)] reads_as_unique [OF that(2)] by blast
    then have "f \<in> set es \<or> (y \<in> on_path k0 w \<and> old_id w (event_id f))"
      if "y \<in> on_path k0 w'" "reads_as y f" for y f
      using that path old_w by blast
    then have "f \<in> set es \<or> (y \<in> on_path k0 w \<and> old_id w (event_id f))"
      "g \<in> set es \<or> (z \<in> on_path k0 w \<and> old_id w (event_id g))"
      using that(1-4) by blast+
    moreover have "f = g" if "f \<in> set es" "g \<in> set es"
      using new(2) that \<open>event_id f = event_id g\<close> by (auto simp: distinct_map inj_on_def)
    ultimately show ?thesis using fresh uniq that by metis
  qed
  have 3: "addressee (event_type f) = Some d \<and> \<not> handled d f w' \<and> (\<exists>y \<in> on_path k0 w'. reads_as y f \<and> subscribed d y)"
    if "(d, f) \<in> set ?pend" for d f
  proof (cases "(d, f) \<in> set pend \<and> (d, f) \<noteq> (c, e)")
    case True
    obtain y where y: "y \<in> on_path k0 w" "reads_as y f" "subscribed d y" using pend True by blast
    have "event_id f \<noteq> event_id e \<or> d \<noteq> c"
      using uniq [OF y(1) x(1) y(2) x(2)] True by auto
    then show ?thesis using pend [of d f] True h [of f d] y path by auto
  next
    case False
    then have f: "f \<in> set es" "addressee (event_type f) = Some d" using that by (auto simp: tasks_of_mem)
    obtain i where i: "i < length es" "es ! i = f" using f(1) by (auto simp: in_set_conv_nth)
    then have m: "ms ! i \<in> set ms" "reads_as (ms ! i) f" "subscribed d (ms ! i)"
      using new(1) topics f(2) by (auto simp: list_all2_conv_all_nth)
    then have "ms ! i \<in> on_path k0 w'"
      using core_on_path [OF addressee_core [OF f(2)] m(3)] path by simp
    moreover have "\<not> handled d f w'"
      using new(3) f future [of _ d] addressee_core [OF f(2)] fresh [OF f(1) old_e] h [OF f(2)]
      by (auto simp: handled_def)
    ultimately show ?thesis using m f(2) by blast
  qed
  have disj: "event_id (snd s) \<noteq> event_id (snd t)" if st: "s \<in> set pend" "t \<in> set (tasks_of es)" for s t
  proof -
    obtain d f where s: "s = (d, f)" by (cases s)
    obtain y where "y \<in> on_path k0 w" "reads_as y f" using pend [of d f] st(1) s by blast
    then have "old_id w (event_id f)" by (rule old_w [rotated])
    moreover have "snd t \<in> set es" using st(2) tasks_of_mem [of "fst t" "snd t" es] by simp
    ultimately show ?thesis using fresh [of "snd t" f] s by auto
  qed
  have "distinct (map (event_id \<circ> snd) pend)" using log by (simp add: log_ok_def)
  then have "distinct (map (event_id \<circ> snd) (filter (\<lambda>t. t \<noteq> (c, e)) pend))" by (rule distinct_map_filter)
  then have 4: "distinct (map (event_id \<circ> snd) ?pend)"
    using distinct_tasks [OF new(2)] disj by force
  have 5: "\<not> event_processed (''evt_'' @ uuid_src w' m) (consumer_name d) (db w')" if "uuid_next w' \<le> m" "d \<in> set core" for m d
    using proc that(2) future [OF n [OF that(1)] that(2)] old_e n [OF that(1)]
    unfolding onward_ids(2) [OF on] old_id_def by auto
  show ?thesis
    unfolding log_ok_def
  proof (intro conjI)
    show "k0 \<le> length (bus w')" using k0 bus by simp
    show "\<forall>y \<in> on_path k0 w'. \<exists>f. reads_as y f \<and> old_id w' (event_id f) \<and>
        (\<forall>d. addressee (event_type f) = Some d \<longrightarrow> (d, f) \<in> set ?pend \<or> handled d f w')"
      using 1 by blast
    show "\<forall>x \<in> on_path k0 w'. \<forall>y \<in> on_path k0 w'. \<forall>e f.
        reads_as x e \<longrightarrow> reads_as y f \<longrightarrow> event_id e = event_id f \<longrightarrow> e = f"
      using 2 by blast
    show "\<forall>(d, f) \<in> set ?pend. addressee (event_type f) = Some d \<and> \<not> handled d f w' \<and>
        (\<exists>x \<in> on_path k0 w'. reads_as x f \<and> subscribed d x)"
      using 3 by blast
    show "distinct (map (event_id \<circ> snd) ?pend)" by (rule 4)
    show "\<forall>n \<ge> uuid_next w'. \<forall>d \<in> set core. \<not> event_processed (''evt_'' @ uuid_src w' n) (consumer_name d) (db w')"
      using 5 by blast
  qed
qed

section \<open>What a delivery leaves alone\<close>

lemma event_processed_other:
  assumes "(i, c) \<noteq> (i', c')"
  shows "event_processed i c (put_processed i' c' st err t d) = event_processed i c d"
proof -
  have new: "\<not> is_processed i c (new_processed_row t i' c' st err)"
    using assms by (auto simp: is_processed_def new_processed_row_def)
  have old: "is_processed i c (if pe_key r = (i', c') then merge_processed t r x else r) = is_processed i c r" for r x
    using assms by (auto simp: is_processed_def pe_key_def merge_processed_def)
  have key: "pe_key (new_processed_row t i' c' st err) = (i', c')" by (simp add: pe_key_def new_processed_row_def)
  have "list_ex P (map f tbl) = list_ex P tbl" if "\<And>r. P (f r) = P r" for P f and tbl :: "processed_row list"
    by (induction tbl) (simp_all add: that)
  from this [of "is_processed i c", OF old]
  show ?thesis
    using new by (simp add: event_processed_def put_processed_def upsert_def update_rows_def key)
qed

lemma keep_mark_other:
  "(i, c) \<noteq> (j, n) \<Longrightarrow>
   db_follows (\<lambda>d d'. event_processed i c d' = event_processed i c d) (markEventProcessed r j n st err)"
  unfolding markEventProcessed_def by (intro keep.follows_query keep_writes event_processed_other)

lemma keep_base_other:
  shows "(i, c) \<noteq> (event_id e, name) \<Longrightarrow>
      db_follows (\<lambda>d d'. event_processed i c d' = event_processed i c d) (handleExhaustedRetriesDLQ name e m err n)"
    and "db_follows (\<lambda>d d'. event_processed i c d' = event_processed i c d) (handleNonRetryableDLQ name m err)"
  unfolding handleExhaustedRetriesDLQ_def handleNonRetryableDLQ_def exhausted_transaction_def Let_def
  by (intro keep.follows_rules keep_recordDLQMessage keep_mark_other keep_dlq_outbox_ops;
      simp add: event_processed_def)+

lemma keep_handler_other:
  "db_follows (\<lambda>d d'. event_processed i c d' = event_processed i c d) (consumer_handler b e)"
proof -
  have "db_follows (\<lambda>d d'. base_tables d' = base_tables d) (consumer_handler b e)"
    using consumer_contract [of b] by (rule event_handler.handler_keeps)
  then show ?thesis by (rule db_follows_mono) (simp add: base_tables_def event_processed_def)
qed

lemma keep_process_other:
  assumes "(i, c) \<noteq> (event_id e, consumer_name b)"
  shows "db_follows (\<lambda>d d'. event_processed i c d' = event_processed i c d)
    (process_valid (consumer_name b) (consumer_handler b) m e)"
proof -
  have loop: "db_follows (\<lambda>d d'. event_processed i c d' = event_processed i c d)
      (retry_loop (consumer_name b) (consumer_handler b) e left a le)" for left a le
    by (induction left arbitrary: a le)
      (auto simp: try_process_def intro!: keep.follows_rules keep_handler_other keep_mark_other keep_base keep_wait assms)
  show ?thesis
    unfolding process_valid_def
    by (auto intro!: keep.follows_rules loop keep_base keep_base_other keep_event_ops assms split: prod.split)
qed

text \<open>Any message at all, for another consumer.\<close>

lemma keep_deliver_other:
  assumes "c \<noteq> consumer_name b"
  shows "db_follows (\<lambda>d d'. event_processed i c d' = event_processed i c d) (deliver b m)"
proof -
  have "(i, c) \<noteq> (j, consumer_name b)" for j using assms by simp
  then show ?thesis
    unfolding deliver_def handleMessage_def
    by (intro keep.follows_rules keep_base) (auto intro!: keep_process_other keep_base_other(2) split: sum.split)
qed

section \<open>Deliveries without failures\<close>

text \<open>An event already handled: nothing happens but the bookkeeping of the consumer.\<close>

lemma deliver_handled:
  assumes "reads_as x e" "handled c e w"
  shows "db (snd (deliver c (received k x) w)) = db w \<and> bus (snd (deliver c (received k x) w)) = bus w"
  using consumer.duplicate_skipped [where c = c and e = e and w = "seen (consumer_name c) w" and m = "received k x"]
    assms(2) by (simp add: deliver_reads [OF assms(1)] handled_def)

text \<open>A handler that succeeds: its effect, and the mark.\<close>

lemma deliver_fresh:
  assumes x: "reads_as x e" and new: "\<not> handled c e w" and calm: "db_script w = []"
    and run: "consumer_handler c e (seen (consumer_name c) w) = (Inr (), w1)"
  shows "bus (snd (deliver c (received k x) w)) = bus w1 \<and> now (snd (deliver c (received k x) w)) = now w1 \<and>
    (\<exists>t. db (snd (deliver c (received k x) w)) =
       put_processed (event_id e) (consumer_name c) ''PROCESSED'' None t (db w1))"
proof -
  let ?v = "seen (consumer_name c) w"
  have calm1: "db_script w1 = []"
    using run_followsD [OF onward.follows_handler [of c e], of ?v] run calm by (simp add: onward_def)
  let ?w2 = "w1\<lparr>db := put_processed (event_id e) (consumer_name c) ''PROCESSED'' None (now w1) (db w1)\<rparr>"
  obtain w' where w': "try_process (consumer_name c) (consumer_handler c) e ?v = (Inr (), w')"
    "bus w' = bus w1" "now w' = now w1" "db w' = db ?w2"
    using calm1 by (simp add: try_process_def thenE_def bindE_def run mark_done_run iso_now_def getsE_def)
  have "retry_loop (consumer_name c) (consumer_handler c) e maxRetries 0 None ?v = (Inr None, w')"
    by (simp add: maxRetries_def numeral_3_eq_3 tryE_run thenE_def bindE_def w'(1) returnE_def)
  then have "snd (deliver c (received k x) w) = w'"
    using new calm
    by (simp add: deliver_reads [OF x] process_valid_def bindE_def lookup_done_run handled_def returnE_def)
  then show ?thesis using w' by auto
qed

text \<open>The marks after it.\<close>

lemma marks_after:
  assumes x: "reads_as x e" and w': "w' = snd (deliver c (received k x) w)"
    and mark: "db w' = put_processed (event_id e) (consumer_name c) ''PROCESSED'' None t d"
  shows "\<forall>b \<in> set core. \<forall>i. event_processed i (consumer_name b) (db w') \<longleftrightarrow>
      event_processed i (consumer_name b) (db w) \<or> (i = event_id e \<and> b = c)"
proof (intro ballI allI)
  fix b i
  show "event_processed i (consumer_name b) (db w') \<longleftrightarrow>
      event_processed i (consumer_name b) (db w) \<or> (i = event_id e \<and> b = c)"
  proof (cases "i = event_id e \<and> b = c")
    case False
    then have "(i, consumer_name b) \<noteq> (event_id e, consumer_name c)" using consumer_name_inj by auto
    from db_followsD [OF keep_process_other [OF this], of "received k x" "seen (consumer_name c) w"]
    show ?thesis using False by (auto simp: w' deliver_reads [OF x])
  qed (simp add: mark)
qed

end
