(* ===== verification/Order_Flow.thy ===== *)
theory Order_Flow
  imports Fulfilment
begin

text \<open>
  The life of one order across the services.  \<open>order_outcome\<close> says how an order must end,
  from the chaos configuration and the order itself; \<open>order_inv\<close> connects the saga of the
  order with the open tasks on the log, state by state; every delivery to a consumer keeps
  it, and the delivery of an open task brings the order nearer to its end.
\<close>

section \<open>How an order must end\<close>

definition order_items :: "envelope \<Rightarrow> js" where
  "order_items e0 = js_or (obj_get (payload e0) ''items'') (JArr [])"

definition risk_fields :: "envelope \<Rightarrow> obj" where
  "risk_fields e0 =
     [(''user_id'', js_or (obj_get (payload e0) ''user_id'') (JStr ''unknown'')),
      (''amount'', js_or (obj_get (payload e0) ''total_amount'') (num 0))]"

definition paid :: "chaos_config \<Rightarrow> bool" where
  "paid cfg \<longleftrightarrow> \<not> shouldFail SvPayment cfg"

definition stocked :: "chaos_config \<Rightarrow> envelope \<Rightarrow> bool" where
  "stocked cfg e0 \<longleftrightarrow> \<not> shouldFail SvInventory cfg \<and> has_out_of_stock (order_items e0) = Inr False"

definition trusted :: "chaos_config \<Rightarrow> envelope \<Rightarrow> bool" where
  "trusted cfg e0 \<longleftrightarrow> \<not> is_high_risk (shouldFail SvFraud cfg) (risk_fields e0)"

definition shipped :: "chaos_config \<Rightarrow> bool" where
  "shipped cfg \<longleftrightarrow> \<not> shouldFail SvShipping cfg"

definition order_outcome :: "chaos_config \<Rightarrow> envelope \<Rightarrow> saga_state" where
  "order_outcome cfg e0 =
     (if \<not> paid cfg then FAILED
      else if stocked cfg e0 \<and> trusted cfg e0 \<and> shipped cfg then COMPLETED else CANCELLED)"

section \<open>The phases\<close>

text \<open>What the saga remembers of the order.\<close>

definition remembers :: "envelope \<Rightarrow> saga_row \<Rightarrow> bool" where
  "remembers e0 r \<longleftrightarrow>
     (\<forall>k \<in> {''items'', ''user_id'', ''total_amount''}. obj_get (sg_context r) k = obj_get (payload e0) k)"

definition undoes :: "string \<Rightarrow> event_type \<Rightarrow> bool" where
  "undoes action ty \<longleftrightarrow>
     action = ''INVENTORY_RELEASE'' \<and> ty = InventoryReleased \<or>
     action = ''PAYMENT_REFUND'' \<and> (ty = PaymentRefundRequested \<or> ty = PaymentRefunded)"

definition undo_steps :: "string list \<Rightarrow> bool" where
  "undo_steps p \<longleftrightarrow> p = [''PAYMENT_REFUND''] \<or> p = [''INVENTORY_RELEASE'', ''PAYMENT_REFUND'']"

definition task_types :: "task list \<Rightarrow> event_type list" where
  "task_types pend = map (\<lambda>t. event_type (snd t)) pend"

definition phase :: "chaos_config \<Rightarrow> envelope \<Rightarrow> saga_row option \<Rightarrow> task list \<Rightarrow> bool" where
  "phase cfg e0 saga pend \<longleftrightarrow>
     (case saga of
        None \<Rightarrow> pend = [(SagaOrchestrator, e0)]
      | Some r \<Rightarrow> remembers e0 r \<and>
          (case state r of
             CREATED \<Rightarrow> False
           | PAYMENT_PENDING \<Rightarrow>
               task_types pend = [PaymentRequested] \<or>
               task_types pend = [if paid cfg then PaymentAuthorized else PaymentRejected]
           | INVENTORY_PENDING \<Rightarrow> paid cfg \<and>
               (task_types pend = [InventoryReservationRequested] \<and>
                  (\<forall>t \<in> set pend. requested_items (snd t) = order_items e0) \<or>
                task_types pend = [if stocked cfg e0 then InventoryReserved else InventoryReservationFailed])
           | FRAUD_PENDING \<Rightarrow> paid cfg \<and> stocked cfg e0 \<and>
               (task_types pend = [FraudCheckRequested] \<and>
                  (\<forall>t \<in> set pend. \<forall>b. is_high_risk b (payload (snd t)) = is_high_risk b (risk_fields e0)) \<or>
                task_types pend = [if trusted cfg e0 then FraudApproved else FraudRejected])
           | SHIPPING_PENDING \<Rightarrow> paid cfg \<and> stocked cfg e0 \<and> trusted cfg e0 \<and>
               (task_types pend = [ShipmentRequested] \<or>
                task_types pend = [if shipped cfg then ShipmentCreated else ShipmentFailed])
           | COMPENSATING \<Rightarrow> order_outcome cfg e0 = CANCELLED \<and>
               (\<exists>p d. undo_steps p \<and> barrier_lists r p d \<and>
                  list_all2 undoes (filter (\<lambda>a. a \<notin> set d) p) (task_types pend))
           | st \<Rightarrow> st = order_outcome cfg e0 \<and> pend = []))"

definition order_saga :: "envelope \<Rightarrow> world \<Rightarrow> saga_row option" where
  "order_saga e0 w = latest_saga (aggregate_id e0) (saga_instances (db w))"

definition order_inv :: "nat \<Rightarrow> envelope \<Rightarrow> task list \<Rightarrow> world \<Rightarrow> bool" where
  "order_inv k0 e0 pend w \<longleftrightarrow>
     log_ok k0 pend w \<and> phase (chaos w) e0 (order_saga e0 w) pend \<and>
     (\<forall>t \<in> set pend. aggregate_id (snd t) = aggregate_id e0) \<and>
     saga_table_ok (saga_instances (db w)) \<and> db_script w = [] \<and> kafka_script w = [] \<and> inj (uuid_src w)"

text \<open>The order as it was read from the log: an \<open>OrderCreated\<close> whose items are a list.\<close>

definition fulfillable :: "envelope \<Rightarrow> bool" where
  "fulfillable e0 \<longleftrightarrow> event_type e0 = OrderCreated \<and> aggregate_id e0 \<noteq> [] \<and> obj_json (payload e0) = payload e0 \<and>
     (\<exists>b. has_out_of_stock (order_items e0) = Inr b)"

section \<open>JSON values that are already JSON\<close>

lemma json_fixed:
  assumes "obj_json ob = ob"
  shows "to_json (obj_get ob k) = obj_get ob k"
  using assms
proof (induction ob)
  case (Cons a ob)
  obtain q v where a: "a = (q, v)" by (cases a)
  have "v \<noteq> JUndef"
  proof
    assume "v = JUndef"
    then have "length (obj_json ob) = Suc (length ob)" using Cons.prems a by simp
    moreover have "length (obj_json ob) \<le> length ob" by (simp add: obj_json_def)
    ultimately show False by simp
  qed
  then show ?case using Cons a by (auto simp: obj_get_def)
qed (simp add: obj_get_def)

lemma to_json_or: "to_json a = a \<Longrightarrow> to_json b = b \<Longrightarrow> to_json (js_or a b) = js_or a b"
  by (simp add: js_or_def)

lemma remembers_fields:
  assumes "remembers e0 r" "saga_row_ok r" "fulfillable e0"
    and "\<forall>k \<in> fst ` set kvs. k \<notin> {''items'', ''user_id'', ''total_amount''}" "distinct (map fst ctx)"
    and "k \<in> {''items'', ''user_id'', ''total_amount''}" "ctx = sg_context r"
  shows "obj_get (with_fields ctx kvs) k = obj_get (payload e0) k"
    and "obj_get (obj_json (with_fields ctx kvs)) k = obj_get (payload e0) k"
proof -
  have "obj_get (with_fields ob kvs) k = obj_get ob k" for ob
    using assms(4,6) by (induction kvs arbitrary: ob) auto
  then show 1: "obj_get (with_fields ctx kvs) k = obj_get (payload e0) k"
    using assms(1,6,7) unfolding remembers_def by auto
  show "obj_get (obj_json (with_fields ctx kvs)) k = obj_get (payload e0) k"
    using assms(3) distinct_fst_fields [OF assms(5)]
    by (simp add: obj_get_json 1 json_fixed fulfillable_def)
qed

section \<open>Deliveries that move nothing\<close>

text \<open>The orchestrator ignores what is not addressed to it.\<close>

lemma plan_ignores:
  "addressee (event_type e) \<noteq> Some SagaOrchestrator \<Longrightarrow> saga_plan e ts saga = None"
  by (cases "event_type e") (auto simp: saga_plan_def split: option.split saga_state.split)

lemma service_ignores:
  "c \<in> set core \<Longrightarrow> c \<noteq> SagaOrchestrator \<Longrightarrow> addressee (event_type e) \<noteq> Some c \<Longrightarrow> reply_to c cfg e = Silent"
  by (cases "event_type e") (auto simp: core_def)

lemma core_implements:
  "c \<in> set core \<Longrightarrow> c \<noteq> SagaOrchestrator \<Longrightarrow> kafka_script w = [] \<Longrightarrow> implements c e w"
  using payment_implements inventory_implements fraud_implements shipping_implements
  by (auto simp: core_def)

text \<open>A core consumer that is not addressed: no message, no change of a table.\<close>

lemma run_silent:
  assumes "c \<in> set core" "addressee (event_type e) \<noteq> Some c" "aggregate_id e \<noteq> []"
    and calm: "db_script w = []" "kafka_script w = []"
  shows "\<exists>w1. consumer_handler c e w = (Inr (), w1) \<and> bus w1 = bus w \<and> db w1 = db w"
proof (cases "c = SagaOrchestrator")
  case True
  obtain r w1 where run: "saga_processEvent e w = (r, w1)" by fastforce
  have "r = Inr ()" using saga_run_refines(2) [OF assms(3) run refl calm] .
  moreover have "db w1 = db w \<and> bus w1 = bus w"
    using saga_run_refines(1) [OF assms(3) run refl] plan_ignores assms(2) True by auto
  ultimately show ?thesis using run True by simp
next
  case False
  then have "reply_to c (chaos w) e = Silent" using service_ignores assms(1,2) by blast
  then obtain w1 where w1: "consumer_handler c e w = (Inr (), w1)" "bus w1 = bus w"
    using core_implements [OF assms(1) False calm(2), of e] by (auto simp: implements_def)
  have "db_follows (\<lambda>d d'. d' = d) (consumer_handler c e)"
    using handlers_keep [of "\<lambda>d. d" e] assms(1) False by (auto simp: core_def)
  then have "db w1 = db w" using db_followsD [of "\<lambda>d d'. d' = d" "consumer_handler c e" w] w1(1) by simp
  then show ?thesis using w1 by blast
qed

lemma order_inv_cong:
  assumes inv: "order_inv k0 e0 pend w" and on: "onward w w'" and log: "log_ok k0 pend w'"
    and same: "saga_instances (db w') = saga_instances (db w)"
  shows "order_inv k0 e0 pend w'"
  using inv on log same
  by (simp add: order_inv_def order_saga_def onward_def environment_def)

lemma delivered_onward: "onward w (snd (deliver c m w))"
  using run_followsD [OF onward.follows_deliver] .

lemma core_idle:
  assumes inv: "order_inv k0 e0 pend w" and x: "x \<in> on_path k0 w" "reads_as x e"
    and c: "c \<in> set core" "(c, e) \<notin> set pend" and w': "w' = snd (deliver c (received k x) w)"
  shows "order_inv k0 e0 pend w'"
proof -
  have on: "onward w w'" unfolding w' by (rule delivered_onward)
  have log: "log_ok k0 pend w" and calm: "db_script w = []" "kafka_script w = []"
    using inv by (simp_all add: order_inv_def)
  obtain f where "reads_as x f" "\<forall>d. addressee (event_type f) = Some d \<longrightarrow> (d, f) \<in> set pend \<or> handled d f w"
    using log x(1) unfolding log_ok_def by blast
  then have or: "addressee (event_type e) = Some c \<Longrightarrow> handled c e w"
    using reads_as_unique [OF x(2)] c(2) by metis
  show ?thesis
  proof (cases "handled c e w")
    case True
    have "log_ok k0 pend w'"
      by (rule log_ok_idle [OF log on, where ms = "[]"]) (simp_all add: w' deliver_handled [OF x(2) True])
    then show ?thesis using order_inv_cong [OF inv on] deliver_handled [OF x(2) True] by (simp add: w')
  next
    case False
    let ?v = "seen (consumer_name c) w"
    obtain w1 where run: "consumer_handler c e ?v = (Inr (), w1)" "bus w1 = bus w" "db w1 = db w"
      using run_silent [of c e ?v] c(1) or False reads_as_fields(1) [OF x(2)] calm by auto
    obtain t where d: "bus w' = bus w" "db w' = put_processed (event_id e) (consumer_name c) ''PROCESSED'' None t (db w)"
      using deliver_fresh [OF x(2) False calm(1) run(1)] run(2,3) by (auto simp: w')
    have "log_ok k0 (filter (\<lambda>t. t \<noteq> (c, e)) pend @ tasks_of []) w'"
      by (rule log_ok_step [OF log on c(1) x, where ms = "[]"])
        (use d(1) marks_after [OF x(2) w' d(2)] in simp_all)
    moreover have "filter (\<lambda>t. t \<noteq> (c, e)) pend = pend" using c(2) by (auto simp: filter_id_conv)
    ultimately show ?thesis using order_inv_cong [OF inv on] d(2) by simp
  qed
qed

text \<open>The projection and the notification service, whatever they read.\<close>

lemma vocabulary_off_path: "c \<notin> set core \<Longrightarrow> answers_with c e x \<Longrightarrow> off_path x"
  by (cases c) (auto simp: core_def answers_with_def off_path_def)

lemma other_sends:
  assumes "c \<notin> set core"
  shows "sends off_path (deliver c m)"
proof -
  have dlq: "m_topic x = DlqTopic \<Longrightarrow> off_path x" for x by (simp add: off_path_def)
  have "sends off_path (consumer_handler c e)" for e
    using consumer_sends [of c e] vocabulary_off_path [OF assms] by (rule sends_mono)
  then have "sends off_path (process_valid (consumer_name c) (consumer_handler c) m e)" for e
    using process_valid_sends dlq by blast
  moreover have "sends off_path (handleNonRetryableDLQ (consumer_name c) m err)" for err
    using house_sends [OF housekeeping_dlq(2) dlq] .
  ultimately show ?thesis
    unfolding deliver_def handleMessage_def
    by (auto intro!: sends_rules quiet_sends_basic quiet_sends [OF quiet_base(3)] quiet_sends [OF quiet_base(4)]
        split: sum.split)
qed

lemma other_sagas:
  assumes "c \<noteq> SagaOrchestrator"
  shows "saga_instances (db (snd (deliver c m w))) = saga_instances (db w)"
proof -
  have "db_follows (\<lambda>d d'. saga_instances d' = saga_instances d) (consumer_handler c e)" for e
    using assms handlers_keep [of saga_instances e] projection_keeps [of saga_instances e] by (cases c) simp_all
  then have "run_follows (\<lambda>w w'. saga_instances (db w') = saga_instances (db w)) (consumer_handler c e)" for e
    by (simp add: run_follows_def db_follows_def)
  moreover have "run_preorder (\<lambda>w w'. saga_instances (db w') = saga_instances (db w))"
    by unfold_locales simp_all
  ultimately have "run_follows (\<lambda>w w'. saga_instances (db w') = saga_instances (db w)) (deliver c m)"
    unfolding deliver_def using housekeeping_sagas by (intro run_preorder.run_handleMessage)
  then show ?thesis by (rule run_followsD)
qed

lemma other_idle:
  assumes inv: "order_inv k0 e0 pend w" and c: "c \<notin> set core"
  shows "order_inv k0 e0 pend (snd (deliver c m w))"
proof -
  let ?w' = "snd (deliver c m w)"
  have on: "onward w ?w'" by (rule delivered_onward)
  obtain ms where ms: "bus ?w' = bus w @ ms" "list_all off_path ms" using sendsE [OF other_sends [OF c]] by blast
  have "consumer_name b \<noteq> consumer_name c" if "b \<in> set core" for b using that c consumer_name_inj by blast
  then have same: "event_processed i (consumer_name b) (db ?w') \<longleftrightarrow> event_processed i (consumer_name b) (db w)"
    if "b \<in> set core" for i b
    using db_followsD [OF keep_deliver_other] that by blast
  have "log_ok k0 pend ?w'"
    by (rule log_ok_idle [OF _ on ms(1)]) (use inv ms(2) same in \<open>auto simp: order_inv_def list_all_iff\<close>)
  moreover have "c \<noteq> SagaOrchestrator" using c by (auto simp: core_def)
  ultimately show ?thesis using order_inv_cong [OF inv on] other_sagas by blast
qed

section \<open>The delivery of an open task\<close>

lemma event_name_ok:
  "addressee ty \<noteq> None \<or> ty \<in> {OrderCompleted, OrderCancelled, OrderFailed, NotificationRequested} \<Longrightarrow>
   event_name ty \<noteq> [] \<and> event_of_name (event_name ty) = ty"
proof -
  assume "addressee ty \<noteq> None \<or> ty \<in> {OrderCompleted, OrderCancelled, OrderFailed, NotificationRequested}"
  then have "ty \<in> set EventTypes" by (cases ty) (auto simp: EventTypes_def)
  then show ?thesis by simp
qed

text \<open>What a reply to an event needs to be read by its addressee.\<close>

definition fits :: "topic \<Rightarrow> event_type \<Rightarrow> bool" where
  "fits tpc ty \<longleftrightarrow> tpc \<noteq> DlqTopic \<and> (\<forall>c. addressee ty = Some c \<longrightarrow> tpc \<in> set (consumer_topics c)) \<and>
     (addressee ty \<noteq> None \<or> ty \<in> {OrderCompleted, OrderCancelled, OrderFailed, NotificationRequested})"

lemma command_okI:
  assumes "fits (e_topic p) (e_eventType p)" "e_eventId p = None" "name \<noteq> []"
    and "e_aggregateId p \<noteq> []" "e_aggregateType p \<noteq> []" "e_correlationId p \<noteq> []" "e_causationId p \<noteq> []"
  shows "command_ok name p"
  using assms event_name_ok [of "e_eventType p"] by (simp add: command_ok_def emit_params_ok_def fits_def)

lemma command_ok_reply:
  assumes "reads_as x e" "fits tpc ty" "agg \<noteq> []"
  shows "command_ok saga_name (reply e tpc ty agg pl)"
  using assms reads_as_fields [OF assms(1)] by (intro command_okI) (simp_all add: reply_def)

text \<open>The common part: a handler returned, having sent the commands \<open>ps\<close>.\<close>

lemma task_done:
  assumes inv: "order_inv k0 e0 pend w" and x: "x \<in> on_path k0 w" "reads_as x e"
    and c: "c \<in> set core" "(c, e) \<in> set pend" and w': "w' = snd (deliver c (received k x) w)"
    and run: "consumer_handler c e (seen (consumer_name c) w) = (Inr (), w1)"
    and sent: "bus w1 = bus w @ ms" "sent_by (consumer_name c) ps ms" "\<forall>p \<in> set ps. command_ok (consumer_name c) p"
    and t: "now w' < 2 ^ 47"
  shows "\<exists>es. list_all2 becomes ps es \<and> log_ok k0 (filter (\<lambda>t. t \<noteq> (c, e)) pend @ tasks_of es) w' \<and>
     saga_instances (db w') = saga_instances (db w1)"
proof -
  have on: "onward w w'" unfolding w' by (rule delivered_onward)
  have log: "log_ok k0 pend w" and calm: "db_script w = []" and inj: "inj (uuid_src w)"
    using inv by (simp_all add: order_inv_def)
  have fresh: "\<not> handled c e w" using log c(2) by (auto simp: log_ok_def)
  obtain s where d: "bus w' = bus w @ ms" "db w' = put_processed (event_id e) (consumer_name c) ''PROCESSED'' None s (db w1)"
    using deliver_fresh [OF x(2) fresh calm run] sent(1) by (auto simp: w')
  obtain es where es: "list_all2 becomes ps es" "list_all2 reads_as ms es" "distinct (map event_id es)"
    "\<forall>f \<in> set es. old_id w' (event_id f) \<and> (\<exists>n \<ge> uuid_next w. event_id f = ''evt_'' @ uuid_src w n)"
    using new_events [OF on d(1) sent(2,3) inj t] by blast
  have "list_all2 (\<lambda>m f. \<forall>d. addressee (event_type f) = Some d \<longrightarrow> subscribed d m) ms es"
    using sent_by_topics [OF sent(2)] es(1) sent(3)
    by (auto simp: list_all2_conv_all_nth becomes_def command_ok_def subscribed_def)
  from log_ok_step [OF log on c(1) x d(1) es(2-4) this marks_after [OF x(2) w' d(2)]] es(1) d(2)
  show ?thesis by auto
qed

lemma service_done:
  assumes inv: "order_inv k0 e0 pend w" and x: "x \<in> on_path k0 w" "reads_as x e"
    and c: "c \<in> set core" "(c, e) \<in> set pend" "c \<noteq> SagaOrchestrator"
    and w': "w' = snd (deliver c (received k x) w)" and t: "now w' < 2 ^ 47"
    and reply: "reply_to c (chaos w) e = Answers tpc ty" "fits tpc ty"
  shows "\<exists>f. event_type f = ty \<and> aggregate_id f = aggregate_id e \<and>
     log_ok k0 (filter (\<lambda>t. t \<noteq> (c, e)) pend @ tasks_of [f]) w' \<and> saga_instances (db w') = saga_instances (db w)"
proof -
  let ?v = "seen (consumer_name c) w"
  have k: "kafka_script ?v = []" using inv by (simp add: order_inv_def)
  obtain w1 p u s where run: "consumer_handler c e ?v = (Inr (), w1)"
    and p: "bus w1 = bus w @ [emit_message (consumer_name c) p (emit_envelope (consumer_name c) s u p)]"
      "e_topic p = tpc" "e_eventType p = ty" "e_aggregateId p = aggregate_id e"
      "e_correlationId p = correlation_id e" "e_causationId p = event_id e" "e_eventId p = None" "e_aggregateType p \<noteq> []"
    using core_implements [OF c(1,3) k, of e] reply(1) by (auto simp: implements_def one_answer_def)
  have "consumer_name c \<noteq> []" by (cases c) simp_all
  then have ok: "command_ok (consumer_name c) p"
    using p reply(2) reads_as_fields [OF x(2)] by (intro command_okI) simp_all
  have "sent_by (consumer_name c) [p] [emit_message (consumer_name c) p (emit_envelope (consumer_name c) s u p)]"
    by (auto simp: sent_by_def)
  from task_done [OF inv x c(1,2) w' run p(1) this _ t] ok
  obtain es where "list_all2 becomes [p] es" "log_ok k0 (filter (\<lambda>t. t \<noteq> (c, e)) pend @ tasks_of es) w'"
    by auto
  moreover from this obtain f where "es = [f]" "becomes p f" by (auto simp: list_all2_Cons1)
  ultimately show ?thesis using p other_sagas [OF c(3)] by (auto simp: becomes_def w')
qed

lemma saga_done:
  assumes inv: "order_inv k0 e0 pend w" and x: "x \<in> on_path k0 w" "reads_as x e"
    and c: "(SagaOrchestrator, e) \<in> set pend"
    and w': "w' = snd (deliver SagaOrchestrator (received k x) w)" and t: "now w' < 2 ^ 47"
    and plan: "\<And>ts. saga_plan e ts (order_saga e0 w) = Some (S ts, C ts)"
    and ok: "\<And>ts p. p \<in> set (C ts) \<Longrightarrow> command_ok saga_name p"
  shows "\<exists>ts s es. list_all2 becomes (C ts) es \<and>
     log_ok k0 (filter (\<lambda>t. t \<noteq> (SagaOrchestrator, e)) pend @ tasks_of es) w' \<and>
     saga_instances (db w') = saga_instances (put_saga (S ts) s (db w))"
proof -
  let ?v = "seen saga_name w"
  have calm: "db_script ?v = []" "kafka_script ?v = []" using inv by (simp_all add: order_inv_def)
  have ne: "aggregate_id e \<noteq> []" using reads_as_fields(1) [OF x(2)] .
  have agg: "aggregate_id e = aggregate_id e0" using inv c by (auto simp: order_inv_def)
  obtain r w1 where run: "saga_processEvent e ?v = (r, w1)" by fastforce
  have cur: "latest_saga (aggregate_id e) (saga_instances (db ?v)) = order_saga e0 w" by (simp add: order_saga_def agg)
  have r: "r = Inr ()" using saga_run_refines(2) [OF ne run cur calm] .
  obtain ts s ms where p: "db w1 = put_saga (S ts) s (db w)" "bus w1 = bus w @ ms" "list_all2 is_command (C ts) ms"
    using saga_run_refines(1) [OF ne run cur] r plan by (auto simp: sent_def)
  have "sent_by saga_name (C ts) ms"
    unfolding sent_by_def by (rule list_all2_mono [OF p(3)]) (simp add: is_command_def)
  moreover have "consumer_handler SagaOrchestrator e (seen (consumer_name SagaOrchestrator) w) = (Inr (), w1)"
    using run r by simp
  ultimately obtain es where "list_all2 becomes (C ts) es"
    "log_ok k0 (filter (\<lambda>t. t \<noteq> (SagaOrchestrator, e)) pend @ tasks_of es) w'"
    "saga_instances (db w') = saga_instances (db w1)"
    using task_done [OF inv x _ c w' _ p(2) _ _ t, of "C ts"] ok by (auto simp: core_def)
  then show ?thesis using p(1) by auto
qed

section \<open>Progress\<close>

definition progress :: "nat \<Rightarrow> envelope \<Rightarrow> task list \<Rightarrow> world \<Rightarrow> bool" where
  "progress k0 e0 pend w' \<longleftrightarrow> (\<exists>pend'. order_inv k0 e0 pend' w' \<and> work_left pend' < work_left pend)"

lemma work_left_simps [simp]:
  "work_left [] = 0" "work_left (t # ts) = steps_left (event_type (snd t)) + work_left ts"
  "work_left (ts @ us) = work_left ts + work_left us"
  by (simp_all add: work_left_def)

lemma work_left_filter:
  "distinct pend \<Longrightarrow> t \<in> set pend \<Longrightarrow>
   work_left (filter (\<lambda>s. s \<noteq> t) pend) + steps_left (event_type (snd t)) = work_left pend"
proof (induction pend)
  case (Cons s pend)
  show ?case
  proof (cases "s = t")
    case True
    then have "filter (\<lambda>s. s \<noteq> t) pend = pend" using Cons.prems(1) by (auto simp: filter_id_conv)
    then show ?thesis using True by simp
  qed (use Cons in auto)
qed simp

lemma open_tasks_distinct: "log_ok k0 pend w \<Longrightarrow> distinct pend"
  by (simp add: log_ok_def distinct_map)

lemma progressI:
  assumes inv: "order_inv k0 e0 pend w" and c: "(c, e) \<in> set pend" and on: "onward w w'"
    and log: "log_ok k0 (filter (\<lambda>t. t \<noteq> (c, e)) pend @ tasks_of es) w'"
    and ok: "saga_table_ok (saga_instances (db w'))"
    and phase: "phase (chaos w) e0 (order_saga e0 w') (filter (\<lambda>t. t \<noteq> (c, e)) pend @ tasks_of es)"
    and agg: "\<forall>f \<in> set es. aggregate_id f = aggregate_id e0"
    and less: "work_left (tasks_of es) < steps_left (event_type e)"
  shows "progress k0 e0 pend w'"
proof -
  let ?pend = "filter (\<lambda>t. t \<noteq> (c, e)) pend @ tasks_of es"
  have "order_inv k0 e0 ?pend w'"
    using inv on log ok phase agg
    by (auto simp: order_inv_def onward_def environment_def tasks_of_mem)
  moreover have "work_left ?pend < work_left pend"
    using work_left_filter [OF open_tasks_distinct c, of k0 w] inv less by (simp add: order_inv_def)
  ultimately show ?thesis unfolding progress_def by blast
qed

lemma planned_saga:
  assumes ok: "saga_table_ok (saga_instances d)" and ne: "aggregate_id e \<noteq> []"
    and cur: "latest_saga (aggregate_id e) (saga_instances d) = saga"
    and plan: "saga_plan e ts saga = Some (s, c)"
  shows "latest_saga (aggregate_id e) (saga_instances (put_saga s t d)) =
    Some (case saga of None \<Rightarrow> new_saga_row t s | Some r \<Rightarrow> merge_saga t r (new_saga_row t s))"
proof -
  let ?r = "case saga of None \<Rightarrow> new_saga_row t s | Some r \<Rightarrow> merge_saga t r (new_saga_row t s)"
  have "?r \<in> set (saga_instances (put_saga s t d)) \<and> sg_aggregate_id ?r = aggregate_id e"
  proof (cases saga)
    case None
    then show ?thesis
      using plan_new_ok(3) [of e ts s c t] plan ne unfolding put_planned_row [OF ok ne cur plan] by simp
  next
    case (Some r)
    have "r \<in> set (saga_instances d)" "sg_aggregate_id r = aggregate_id e"
      using latest_saga_mem cur Some by auto
    then show ?thesis
      unfolding put_planned_row [OF ok ne cur plan] Some
      by (auto simp: replace_saga_def set_update_rows saga.merge_key merge_new_saga)
  qed
  then show ?thesis
    using saga_of_aggregate(2) [OF planned_table_ok [OF ok ne cur plan]] by metis
qed

lemma saga_table_delivered:
  assumes "saga_table_ok (saga_instances (db w))"
  shows "saga_table_ok (saga_instances (db (snd (deliver c m w))))"
proof (cases "c = SagaOrchestrator")
  case True
  then show ?thesis using assms saga_after_handleMessage [of w m] by (auto simp: deliver_def saga_after_def)
qed (simp add: other_sagas assms)

text \<open>The orchestrator writes a row that keeps what it remembers.\<close>

lemma forward_done:
  assumes inv: "order_inv k0 e0 pend w" and full: "fulfillable e0" and x: "x \<in> on_path k0 w" "reads_as x e"
    and c: "(SagaOrchestrator, e) \<in> set pend"
    and w': "w' = snd (deliver SagaOrchestrator (received k x) w)" and t: "now w' < 2 ^ 47"
    and saga: "order_saga e0 w = Some r"
    and plan: "\<And>ts. saga_plan e ts (Some r) = Some (advance e r st step (with_fields (sg_context r) (kvs ts)) reason, C ts)"
    and keys: "\<And>ts. \<forall>k \<in> fst ` set (kvs ts). k \<notin> {''items'', ''user_id'', ''total_amount''}"
    and ok: "\<And>ts p. p \<in> set (C ts) \<Longrightarrow> command_ok saga_name p"
  shows "\<exists>ts es r'. list_all2 becomes (C ts) es \<and>
     log_ok k0 (filter (\<lambda>t. t \<noteq> (SagaOrchestrator, e)) pend @ tasks_of es) w' \<and>
     order_saga e0 w' = Some r' \<and> state r' = st \<and> remembers e0 r' \<and>
     sg_context r' = obj_json (with_fields (sg_context r) (kvs ts))"
proof -
  have agg: "aggregate_id e = aggregate_id e0" using inv c by (auto simp: order_inv_def)
  have table: "saga_table_ok (saga_instances (db w))" using inv by (simp add: order_inv_def)
  have ne: "aggregate_id e \<noteq> []" using reads_as_fields(1) [OF x(2)] .
  have cur: "latest_saga (aggregate_id e) (saga_instances (db w)) = Some r" using saga agg by (simp add: order_saga_def)
  obtain ts s es where d: "list_all2 becomes (C ts) es"
     "log_ok k0 (filter (\<lambda>t. t \<noteq> (SagaOrchestrator, e)) pend @ tasks_of es) w'"
     "saga_instances (db w') = saga_instances (put_saga (advance e r st step (with_fields (sg_context r) (kvs ts)) reason) s (db w))"
    using saga_done [OF inv x c w' t, where S = "\<lambda>ts. advance e r st step (with_fields (sg_context r) (kvs ts)) reason" and C = C]
      plan ok saga by auto
  let ?r' = "merge_saga s r (new_saga_row s (advance e r st step (with_fields (sg_context r) (kvs ts)) reason))"
  have r': "order_saga e0 w' = Some ?r'"
    using planned_saga [OF table ne cur plan [of ts], where t = s] d(3) agg by (simp add: order_saga_def)
  have row: "saga_row_ok r" using table latest_saga_mem [OF cur] by (simp add: saga_table_ok_def)
  have rem: "remembers e0 r"
    using inv saga by (auto simp: order_inv_def phase_def)
  have ctx: "sg_context ?r' = obj_json (with_fields (sg_context r) (kvs ts))"
    by (simp add: merge_new_saga advance_def)
  have "remembers e0 ?r'"
    using remembers_fields(2) [OF rem row full keys _ _ refl] row unfolding remembers_def ctx
    by (auto simp: saga_row_ok_def)
  moreover have "state ?r' = st" by (simp add: merge_new_saga advance_def)
  ultimately show ?thesis using d r' ctx by blast
qed

section \<open>The phases one by one\<close>

text \<open>The event of a command has its type.\<close>

lemma becomes_types:
  "list_all2 becomes ps es \<Longrightarrow> map event_type es = map e_eventType ps"
  "list_all2 becomes ps es \<Longrightarrow> \<forall>p \<in> set ps. e_aggregateId p = i \<Longrightarrow> \<forall>f \<in> set es. aggregate_id f = i"
  by (induction rule: list_all2_induct) (auto simp: becomes_def)

lemma one_task:
  assumes "task_types pend = [ty]" "(c, e) \<in> set pend"
  shows "pend = [(c, e)]" "event_type e = ty"
  using assms by (auto simp: task_types_def)

lemma open_addressee: "order_inv k0 e0 pend w \<Longrightarrow> (c, e) \<in> set pend \<Longrightarrow> addressee (event_type e) = Some c"
  by (auto simp: order_inv_def log_ok_def)

lemma open_aggregate: "order_inv k0 e0 pend w \<Longrightarrow> (c, e) \<in> set pend \<Longrightarrow> aggregate_id e = aggregate_id e0"
  by (auto simp: order_inv_def)

text \<open>What every step is given.\<close>

definition step_of :: "nat \<Rightarrow> envelope \<Rightarrow> task list \<Rightarrow> world \<Rightarrow> nat \<Rightarrow> message \<Rightarrow> platform_consumer \<Rightarrow> envelope \<Rightarrow> world \<Rightarrow> bool" where
  "step_of k0 e0 pend w k x c e w' \<longleftrightarrow>
     order_inv k0 e0 pend w \<and> fulfillable e0 \<and> x \<in> on_path k0 w \<and> reads_as x e \<and> (c, e) \<in> set pend \<and>
     w' = snd (deliver c (received k x) w) \<and> now w' < 2 ^ 47"

lemma step_ofD:
  assumes "step_of k0 e0 pend w k x c e w'"
  shows "order_inv k0 e0 pend w" "fulfillable e0" "x \<in> on_path k0 w" "reads_as x e" "(c, e) \<in> set pend"
    "w' = snd (deliver c (received k x) w)" "now w' < 2 ^ 47" "onward w w'"
    "saga_table_ok (saga_instances (db w'))" "addressee (event_type e) = Some c" "aggregate_id e = aggregate_id e0"
    "c \<in> set core"
proof -
  show s: "order_inv k0 e0 pend w" "fulfillable e0" "x \<in> on_path k0 w" "reads_as x e" "(c, e) \<in> set pend"
    "w' = snd (deliver c (received k x) w)" "now w' < 2 ^ 47"
    using assms unfolding step_of_def by blast+
  show "onward w w'" unfolding s(6) by (rule delivered_onward)
  show "saga_table_ok (saga_instances (db w'))"
    using s(1) unfolding s(6) order_inv_def by (blast intro: saga_table_delivered)
  show a: "addressee (event_type e) = Some c" using open_addressee [OF s(1,5)] .
  show "aggregate_id e = aggregate_id e0" using open_aggregate [OF s(1,5)] .
  show "c \<in> set core" using addressee_core [OF a] .
qed

text \<open>A service answers the only open task: the next one is open.\<close>

lemma service_step:
  assumes s: "step_of k0 e0 pend w k x c e w'" and c: "c \<noteq> SagaOrchestrator"
    and reply: "reply_to c (chaos w) e = Answers tpc ty" "fits tpc ty" "steps_left ty < steps_left (event_type e)"
    and phase: "\<And>f. event_type f = ty \<Longrightarrow>
      phase (chaos w) e0 (order_saga e0 w) (filter (\<lambda>t. t \<noteq> (c, e)) pend @ tasks_of [f])"
  shows "progress k0 e0 pend w'"
proof -
  note d = step_ofD [OF s]
  obtain f where f: "event_type f = ty" "aggregate_id f = aggregate_id e"
    "log_ok k0 (filter (\<lambda>t. t \<noteq> (c, e)) pend @ tasks_of [f]) w'" "saga_instances (db w') = saga_instances (db w)"
    using service_done [OF d(1,3,4,12,5) c d(6,7) reply(1,2)] by blast
  have same: "order_saga e0 w' = order_saga e0 w" by (simp add: order_saga_def f(4))
  show ?thesis
  proof (rule progressI [OF d(1,5,8) f(3) d(9)])
    show "phase (chaos w) e0 (order_saga e0 w') (filter (\<lambda>t. t \<noteq> (c, e)) pend @ tasks_of [f])"
      unfolding same by (rule phase [OF f(1)])
    show "\<forall>g \<in> set [f]. aggregate_id g = aggregate_id e0" using f(2) d(11) by simp
    show "work_left (tasks_of [f]) < steps_left (event_type e)"
      using reply(3) f(1) by (cases "addressee ty") simp_all
  qed
qed

text \<open>The orchestrator acts on the only open task.\<close>

lemma forward_step:
  assumes s: "step_of k0 e0 pend w k x SagaOrchestrator e w'" and only: "pend = [(SagaOrchestrator, e)]"
    and saga: "order_saga e0 w = Some r"
    and plan: "\<And>ts. saga_plan e ts (Some r) = Some (advance e r st step (with_fields (sg_context r) (kvs ts)) reason, C ts)"
    and keys: "\<And>ts. \<forall>k \<in> fst ` set (kvs ts). k \<notin> {''items'', ''user_id'', ''total_amount''}"
    and ok: "\<And>ts p. p \<in> set (C ts) \<Longrightarrow> command_ok saga_name p \<and> e_aggregateId p = aggregate_id e0"
    and phase: "\<And>ts es r'. list_all2 becomes (C ts) es \<Longrightarrow> state r' = st \<Longrightarrow> remembers e0 r' \<Longrightarrow>
      sg_context r' = obj_json (with_fields (sg_context r) (kvs ts)) \<Longrightarrow> phase (chaos w) e0 (Some r') (tasks_of es)"
    and less: "\<And>ts es. list_all2 becomes (C ts) es \<Longrightarrow> work_left (tasks_of es) < steps_left (event_type e)"
  shows "progress k0 e0 pend w'"
proof -
  note d = step_ofD [OF s]
  obtain ts es r' where r: "list_all2 becomes (C ts) es"
     "log_ok k0 (filter (\<lambda>t. t \<noteq> (SagaOrchestrator, e)) pend @ tasks_of es) w'"
     "order_saga e0 w' = Some r'" "state r' = st" "remembers e0 r'"
     "sg_context r' = obj_json (with_fields (sg_context r) (kvs ts))"
    using forward_done [OF d(1-5,6,7) saga plan keys] ok by blast
  have rest: "filter (\<lambda>t. t \<noteq> (SagaOrchestrator, e)) pend = []" by (simp add: only)
  show ?thesis
  proof (rule progressI [OF d(1,5,8) r(2) d(9)])
    show "phase (chaos w) e0 (order_saga e0 w') (filter (\<lambda>t. t \<noteq> (SagaOrchestrator, e)) pend @ tasks_of es)"
      using phase [OF r(1,4-6)] unfolding rest r(3) by simp
    show "\<forall>f \<in> set es. aggregate_id f = aggregate_id e0"
      using becomes_types(2) [OF r(1)] ok by blast
  qed (rule less [OF r(1)])
qed

lemma OrderCreated_step:
  assumes s: "step_of k0 e0 pend w k x c e w'" and saga: "order_saga e0 w = None"
  shows "progress k0 e0 pend w'"
proof -
  note d = step_ofD [OF s]
  have only: "pend = [(SagaOrchestrator, e0)]" using d(1) saga by (simp add: order_inv_def phase_def)
  then have e: "c = SagaOrchestrator" "e = e0" using d(5) by simp_all
  have ty: "event_type e0 = OrderCreated" using d(2) by (simp add: fulfillable_def)
  have plan: "saga_plan e0 ts (order_saga e0 w) =
      Some (new_saga e0 None, [reply e0 PaymentsTopic PaymentRequested ''Payment'' (payment_request e0)])" for ts
    by (simp add: saga saga_plan_def plan_order_def ty)
  have ok: "command_ok saga_name (reply e0 PaymentsTopic PaymentRequested ''Payment'' (payment_request e0))"
    using d(4) e by (intro command_ok_reply) (simp_all add: fits_def)
  obtain t es where p: "list_all2 becomes [reply e0 PaymentsTopic PaymentRequested ''Payment'' (payment_request e0)] es"
     "log_ok k0 (filter (\<lambda>t. t \<noteq> (SagaOrchestrator, e0)) pend @ tasks_of es) w'"
     "saga_instances (db w') = saga_instances (put_saga (new_saga e0 None) t (db w))"
    using saga_done [OF d(1,3,4,5,6,7) [unfolded e] plan] ok by auto
  obtain f where f: "es = [f]" "event_type f = PaymentRequested" "aggregate_id f = aggregate_id e0"
    using p(1) by (auto simp: list_all2_Cons1 becomes_def reply_def)
  let ?r = "new_saga_row t (new_saga e0 None)"
  have "saga_table_ok (saga_instances (db w))" using d(1) by (simp add: order_inv_def)
  then have r: "order_saga e0 w' = Some ?r"
    using planned_saga [of "db w" e0 None _ _ _ t] plan [unfolded saga] saga p(3) d(2)
    by (simp add: order_saga_def fulfillable_def)
  have "distinct (map fst (order_context e0))" by (simp add: order_context_def Let_def)
  then have "remembers e0 ?r"
    using json_fixed d(2)
    by (auto simp: remembers_def new_saga_row_def new_saga_def obj_get_json fulfillable_def)
      (auto simp: order_context_def Let_def)
  moreover have "state ?r = PAYMENT_PENDING" by (simp add: new_saga_row_def new_saga_def)
  ultimately have "phase (chaos w) e0 (order_saga e0 w') (filter (\<lambda>t. t \<noteq> (SagaOrchestrator, e0)) pend @ tasks_of es)"
    by (simp add: phase_def r only f task_types_def)
  from progressI [OF d(1,5,8) [unfolded e] p(2) d(9) this] f ty show ?thesis by simp
qed

lemmas phase_simps = phase_def task_types_def

text \<open>The commands of the orchestrator are readable by their addressees.\<close>

lemma saga_reply_ok:
  assumes "step_of k0 e0 pend w k x c e w'" "fits tpc ty" "agg \<noteq> []"
  shows "command_ok saga_name (reply e tpc ty agg pl) \<and> e_aggregateId (reply e tpc ty agg pl) = aggregate_id e0"
  using command_ok_reply [OF step_ofD(4) [OF assms(1)] assms(2,3)] step_ofD(11) [OF assms(1)]
  by (simp add: reply_def)

text \<open>The event of a single reply.\<close>

lemma becomes_one:
  assumes "list_all2 becomes [reply e tpc ty agg pl] es"
  shows "\<exists>f. es = [f] \<and> event_type f = ty \<and> payload f = obj_json pl \<and> aggregate_id f = aggregate_id e"
  using assms by (auto simp: list_all2_Cons1 becomes_def reply_def)

lemma payment_step:
  assumes s: "step_of k0 e0 pend w k x c e w'" and saga: "order_saga e0 w = Some r" and st: "state r = PAYMENT_PENDING"
  shows "progress k0 e0 pend w'"
proof -
  note d = step_ofD [OF s]
  have p: "remembers e0 r" "task_types pend = [PaymentRequested] \<or>
      task_types pend = [if paid (chaos w) then PaymentAuthorized else PaymentRejected]"
    using d(1) by (simp_all add: order_inv_def phase_def saga st)
  from p(2) show ?thesis
  proof
    assume "task_types pend = [PaymentRequested]"
    note o = one_task [OF this d(5)]
    have c: "c = PaymentConsumer" using d(10) o(2) by simp
    let ?ty = "if paid (chaos w) then PaymentAuthorized else PaymentRejected"
    show ?thesis
      by (rule service_step [OF s, where ty = ?ty and tpc = PaymentsTopic])
        (use p(1) in \<open>simp_all add: c o fits_def paid_def saga_topics_def phase_simps saga st\<close>)
  next
    assume "task_types pend = [if paid (chaos w) then PaymentAuthorized else PaymentRejected]"
    note o = one_task [OF this d(5)]
    have c: "c = SagaOrchestrator" using d(10) o(2) by (simp split: if_splits)
    note s' = s [unfolded c] and only = o(1) [unfolded c]
    show ?thesis
    proof (cases "paid (chaos w)")
      case True
      let ?kvs = "[(''payment_id'', obj_get (payload e) ''payment_id''), (''payment_authorized_at'', obj_get (payload e) ''authorized_at'')]"
      let ?ctx = "with_fields (sg_context r) ?kvs"
      let ?cmd = "reply e InventoryTopic InventoryReservationRequested ''Inventory''
          [(''order_id'', JStr (aggregate_id e)), (''items'', js_or (obj_get ?ctx ''items'') (JArr []))]"
      have ty: "event_type e = PaymentAuthorized" using o(2) True by simp
      have items: "obj_get ?ctx ''items'' = obj_get (payload e0) ''items''"
        using p(1) by (simp add: remembers_def)
      show ?thesis
      proof (rule forward_step [OF s' only saga, where st = INVENTORY_PENDING and kvs = "\<lambda>_. ?kvs" and C = "\<lambda>_. [?cmd]"])
        show "saga_plan e ts (Some r) = Some (advance e r INVENTORY_PENDING ''INVENTORY'' ?ctx None, [?cmd])" for ts
          by (simp add: saga_plan_def plan_forward_def st ty)
        show "command_ok saga_name q \<and> e_aggregateId q = aggregate_id e0" if "q \<in> set [?cmd]" for q
          using that saga_reply_ok [OF s', of InventoryTopic InventoryReservationRequested "''Inventory''"] by (simp add: fits_def)
        fix es r' assume es: "list_all2 becomes [?cmd] es" "state r' = INVENTORY_PENDING" "remembers e0 r'"
        obtain f where f: "es = [f]" "event_type f = InventoryReservationRequested" "payload f = obj_json
            [(''order_id'', JStr (aggregate_id e)), (''items'', js_or (obj_get ?ctx ''items'') (JArr []))]"
          using becomes_one [OF es(1)] by blast
        have "to_json (js_or (obj_get (payload e0) ''items'') (JArr [])) = js_or (obj_get (payload e0) ''items'') (JArr [])"
          using json_fixed d(2) by (intro to_json_or) (simp_all add: fulfillable_def)
        then have "requested_items f = order_items e0"
          unfolding requested_items_def f(3) items order_items_def by (auto simp: obj_get_json js_or_def)
        then show "phase (chaos w) e0 (Some r') (tasks_of es)"
          using es f True by (simp add: phase_simps)
      next
        fix es assume "list_all2 becomes [?cmd] es"
        from becomes_one [OF this] show "work_left (tasks_of es) < steps_left (event_type e)" using ty by auto
      qed simp
    next
      case False
      let ?reason = "obj_get (payload e) ''reason''"
      let ?text = "''Payment declined: '' @ js_string ?reason"
      let ?cmd = "\<lambda>ts. reply e OrdersTopic OrderFailed ''Order''
                          [(''order_id'', JStr (aggregate_id e)),
                           (''user_id'', js_or (obj_get (sg_context r) ''user_id'') (JStr ''unknown'')),
                           (''reason'', JStr ?text), (''failed_at'', JStr ts), (''failed_step'', JStr ''PAYMENT''),
                           (''compensation_status'', JStr ''NO_COMPENSATION_NEEDED'')]"
      have ty: "event_type e = PaymentRejected" using o(2) False by simp
      show ?thesis
      proof (rule forward_step [OF s' only saga, where st = FAILED and kvs = "\<lambda>_. [(''payment_rejection_reason'', ?reason)]" and C = "\<lambda>ts. [?cmd ts]"])
        show "saga_plan e ts (Some r) = Some (advance e r FAILED ''TERMINAL''
            (with_fields (sg_context r) [(''payment_rejection_reason'', ?reason)]) (Some ?text), [?cmd ts])" for ts
          by (simp add: saga_plan_def st ty Let_def)
        show "command_ok saga_name q \<and> e_aggregateId q = aggregate_id e0" if "q \<in> set [?cmd ts]" for q ts
          using that saga_reply_ok [OF s', of OrdersTopic OrderFailed "''Order''"] by (simp add: fits_def)
      next
        fix ts es r' assume "list_all2 becomes [?cmd ts] es" "state r' = FAILED" "remembers e0 r'"
        then show "phase (chaos w) e0 (Some r') (tasks_of es)"
          using becomes_one False by (auto simp: phase_simps order_outcome_def dest!: becomes_one)
      next
        fix ts es assume "list_all2 becomes [?cmd ts] es"
        from becomes_one [OF this] show "work_left (tasks_of es) < steps_left (event_type e)" using ty by auto
      qed simp
    qed
  qed
qed

text \<open>A compensation begins.\<close>

lemma compensation_phase:
  assumes "saga_row_ok r" "state r' = COMPENSATING" "remembers e0 r'"
    and "sg_context r' = obj_json (start_compensation key v p (sg_context r))"
    and "key \<noteq> ''compensations_pending''" "key \<noteq> ''compensations_completed''" "undo_steps p"
    and "order_outcome cfg e0 = CANCELLED" "list_all2 undoes p (task_types pend)"
  shows "phase cfg e0 (Some r') pend"
proof -
  have "barrier_lists r' p []"
    using start_compensation_lists(1,2) [of "sg_context r" key v p] assms(1,4-7)
    unfolding barrier_lists_def by (auto simp: saga_row_ok_def undo_steps_def)
  then have "\<exists>p d. undo_steps p \<and> barrier_lists r' p d \<and> list_all2 undoes (filter (\<lambda>a. a \<notin> set d) p) (task_types pend)"
    using assms(7,9) by (intro exI [of _ p] exI [of _ "[]"]) simp
  then show ?thesis using assms(2,3,8) by (simp add: phase_def)
qed

lemma row_ok_of:
  assumes "order_inv k0 e0 pend w" "order_saga e0 w = Some r"
  shows "saga_row_ok r"
  using assms latest_saga_mem [of "aggregate_id e0"] by (auto simp: order_inv_def order_saga_def saga_table_ok_def)

lemma becomes_two:
  assumes "list_all2 becomes [reply e t1 y1 a1 p1, reply e t2 y2 a2 p2] es"
  shows "\<exists>f g. es = [f, g] \<and> event_type f = y1 \<and> event_type g = y2"
  using assms by (auto simp: list_all2_Cons1 becomes_def reply_def)

lemma inventory_step:
  assumes s: "step_of k0 e0 pend w k x c e w'" and saga: "order_saga e0 w = Some r" and st: "state r = INVENTORY_PENDING"
  shows "progress k0 e0 pend w'"
proof -
  note d = step_ofD [OF s]
  let ?cfg = "chaos w"
  have p: "remembers e0 r" "paid ?cfg"
    "task_types pend = [InventoryReservationRequested] \<and> (\<forall>t \<in> set pend. requested_items (snd t) = order_items e0) \<or>
      task_types pend = [if stocked ?cfg e0 then InventoryReserved else InventoryReservationFailed]"
    using d(1) by (simp_all add: order_inv_def phase_def saga st)
  obtain missing where missing: "has_out_of_stock (order_items e0) = Inr missing"
    using d(2) by (auto simp: fulfillable_def)
  from p(3) show ?thesis
  proof (elim disjE conjE)
    assume a: "task_types pend = [InventoryReservationRequested]" "\<forall>t \<in> set pend. requested_items (snd t) = order_items e0"
    note o = one_task [OF a(1) d(5)]
    have c: "c = InventoryConsumer" using d(10) o(2) by simp
    have items: "requested_items e = order_items e0" using a(2) o(1) by simp
    let ?ty = "if stocked ?cfg e0 then InventoryReserved else InventoryReservationFailed"
    have "reply_to c ?cfg e = Answers InventoryTopic ?ty"
      using missing by (simp add: c o(2) items stocked_def)
    then show ?thesis
      by (rule service_step [OF s, rotated])
        (use p in \<open>simp_all add: c o fits_def saga_topics_def phase_simps saga st\<close>)
  next
    assume "task_types pend = [if stocked ?cfg e0 then InventoryReserved else InventoryReservationFailed]"
    note o = one_task [OF this d(5)]
    have c: "c = SagaOrchestrator" using d(10) o(2) by (simp split: if_splits)
    note s' = s [unfolded c] and only = o(1) [unfolded c]
    show ?thesis
    proof (cases "stocked ?cfg e0")
      case True
      let ?kvs = "[(''reservation_id'', obj_get (payload e) ''reservation_id''), (''inventory_reserved_at'', obj_get (payload e) ''reserved_at'')]"
      let ?ctx = "with_fields (sg_context r) ?kvs"
      let ?pl = "[(''order_id'', JStr (aggregate_id e)),
                       (''user_id'', js_or (obj_get ?ctx ''user_id'') (JStr ''unknown'')),
                       (''amount'', js_or (obj_get ?ctx ''total_amount'') (num 0)),
                       (''payment_id'', js_or (obj_get ?ctx ''payment_id'') (JStr ''pay_unknown''))]"
      let ?cmd = "reply e FraudTopic FraudCheckRequested ''Fraud'' ?pl"
      have ty: "event_type e = InventoryReserved" using o(2) True by simp
      have ctx: "obj_get (sg_context r) ''user_id'' = obj_get (payload e0) ''user_id''"
        "obj_get (sg_context r) ''total_amount'' = obj_get (payload e0) ''total_amount''"
        using p(1) by (simp_all add: remembers_def)
      have json: "to_json (js_or (obj_get (payload e0) k) v) = js_or (obj_get (payload e0) k) v" if "to_json v = v" for k v
        using json_fixed d(2) that by (intro to_json_or) (simp_all add: fulfillable_def)
      show ?thesis
      proof (rule forward_step [OF s' only saga, where st = FRAUD_PENDING and kvs = "\<lambda>_. ?kvs" and C = "\<lambda>_. [?cmd]"])
        show "saga_plan e ts (Some r) = Some (advance e r FRAUD_PENDING ''FRAUD_CHECK'' ?ctx None, [?cmd])" for ts
          by (simp add: saga_plan_def plan_forward_def st ty)
        show "command_ok saga_name q \<and> e_aggregateId q = aggregate_id e0" if "q \<in> set [?cmd]" for q
          using that saga_reply_ok [OF s', of FraudTopic FraudCheckRequested "''Fraud''"] by (simp add: fits_def)
        fix es r' assume es: "list_all2 becomes [?cmd] es" "state r' = FRAUD_PENDING" "remembers e0 r'"
        obtain f where f: "es = [f]" "event_type f = FraudCheckRequested" "payload f = obj_json ?pl"
          using becomes_one [OF es(1)] by blast
        have dist: "distinct (map fst ?pl)" by simp
        have "obj_get (payload f) ''user_id'' = obj_get (risk_fields e0) ''user_id''"
          "obj_get (payload f) ''amount'' = obj_get (risk_fields e0) ''amount''"
          unfolding f(3) obj_get_json [OF dist] by (simp_all add: risk_fields_def ctx json num_def)
        then have "is_high_risk b (payload f) = is_high_risk b (risk_fields e0)" for b
          by (simp add: is_high_risk_def)
        then show "phase ?cfg e0 (Some r') (tasks_of es)"
          using es f True p(2) by (simp add: phase_simps)
      next
        fix es assume "list_all2 becomes [?cmd] es"
        from becomes_one [OF this] show "work_left (tasks_of es) < steps_left (event_type e)" using ty by auto
      qed simp
    next
      case False
      let ?reason = "obj_get (payload e) ''reason''"
      let ?kvs = "[(''inventory_failure_reason'', ?reason), (''compensations_pending'', JArr (map JStr [''PAYMENT_REFUND''])),
                 (''compensations_completed'', JArr [])]"
      let ?cmd = "reply e PaymentsTopic PaymentRefundRequested ''Payment''
          (refund_request e (with_fields (sg_context r) ?kvs) (''Inventory reservation failed: '' @ js_string ?reason))"
      have ty: "event_type e = InventoryReservationFailed" using o(2) False by simp
      show ?thesis
      proof (rule forward_step [OF s' only saga, where st = COMPENSATING and kvs = "\<lambda>_. ?kvs" and C = "\<lambda>_. [?cmd]"])
        show "saga_plan e ts (Some r) = Some (advance e r COMPENSATING ''COMPENSATING_PAYMENT''
            (with_fields (sg_context r) ?kvs) (Some (''Inventory out of stock: '' @ js_string ?reason)), [?cmd])" for ts
          by (simp add: saga_plan_def st ty Let_def start_compensation_def)
        show "command_ok saga_name q \<and> e_aggregateId q = aggregate_id e0" if "q \<in> set [?cmd]" for q
          using that saga_reply_ok [OF s', of PaymentsTopic PaymentRefundRequested "''Payment''"] by (simp add: fits_def)
      next
        fix es r' assume es: "list_all2 becomes [?cmd] es" and r': "state r' = COMPENSATING" "remembers e0 r'"
          "sg_context r' = obj_json (with_fields (sg_context r) ?kvs)"
        obtain f where f: "es = [f]" "event_type f = PaymentRefundRequested" using becomes_one [OF es] by blast
        show "phase ?cfg e0 (Some r') (tasks_of es)"
          by (rule compensation_phase [OF row_ok_of [OF d(1) saga] r'(1,2), where key = "''inventory_failure_reason''" and p = "[''PAYMENT_REFUND'']"])
            (use r'(3) f p(2) False in \<open>simp_all add: start_compensation_def undo_steps_def order_outcome_def task_types_def undoes_def\<close>)
      next
        fix es assume "list_all2 becomes [?cmd] es"
        from becomes_one [OF this] show "work_left (tasks_of es) < steps_left (event_type e)" using ty by auto
      qed simp
    qed
  qed
qed

text \<open>Both steps are undone.\<close>

lemma compensate_both:
  assumes s: "step_of k0 e0 pend w k x SagaOrchestrator e w'" and only: "pend = [(SagaOrchestrator, e)]"
    and saga: "order_saga e0 w = Some r"
    and key: "key \<notin> {''items'', ''user_id'', ''total_amount'', ''compensations_pending'', ''compensations_completed''}"
    and plan: "\<And>ts. saga_plan e ts (Some r) = Some (plan_compensation e r ts key step failure why)"
    and out: "order_outcome (chaos w) e0 = CANCELLED" and left: "3 < steps_left (event_type e)"
  shows "progress k0 e0 pend w'"
proof -
  note d = step_ofD [OF s]
  let ?reason = "obj_get (payload e) ''reason''"
  let ?p = "[''INVENTORY_RELEASE'', ''PAYMENT_REFUND'']"
  let ?kvs = "[(key, ?reason), (''compensations_pending'', JArr (map JStr ?p)), (''compensations_completed'', JArr [])]"
  let ?ctx = "with_fields (sg_context r) ?kvs"
  let ?cmds = "\<lambda>ts. [reply e InventoryTopic InventoryReleased ''Inventory'' (release_request e ?ctx ts (why @ js_string ?reason)),
           reply e PaymentsTopic PaymentRefundRequested ''Payment'' (refund_request e ?ctx (why @ js_string ?reason))]"
  have types: "\<exists>f g. es = [f, g] \<and> event_type f = InventoryReleased \<and> event_type g = PaymentRefundRequested"
    if "list_all2 becomes (?cmds ts) es" for ts es
    using becomes_two [OF that] .
  show ?thesis
  proof (rule forward_step [OF s only saga, where st = COMPENSATING and kvs = "\<lambda>_. ?kvs" and C = ?cmds])
    show "saga_plan e ts (Some r) = Some (advance e r COMPENSATING step ?ctx (Some (failure @ js_string ?reason)), ?cmds ts)" for ts
      by (simp add: plan plan_compensation_def Let_def start_compensation_def)
    show "command_ok saga_name q \<and> e_aggregateId q = aggregate_id e0" if "q \<in> set (?cmds ts)" for q ts
      using that saga_reply_ok [OF s, of PaymentsTopic PaymentRefundRequested "''Payment''"]
        saga_reply_ok [OF s, of InventoryTopic InventoryReleased "''Inventory''"]
      by (auto simp: fits_def saga_topics_def)
    show "\<forall>k \<in> fst ` set ?kvs. k \<notin> {''items'', ''user_id'', ''total_amount''}" using key by simp
  next
    fix ts es r' assume es: "list_all2 becomes (?cmds ts) es" and r': "state r' = COMPENSATING" "remembers e0 r'"
      "sg_context r' = obj_json ?ctx"
    obtain f g where f: "es = [f, g]" "event_type f = InventoryReleased" "event_type g = PaymentRefundRequested"
      using types [OF es] by blast
    show "phase (chaos w) e0 (Some r') (tasks_of es)"
      by (rule compensation_phase [OF row_ok_of [OF d(1) saga] r'(1,2), where key = key and p = ?p])
        (use r'(3) f key out in \<open>simp_all add: start_compensation_def undo_steps_def task_types_def undoes_def\<close>)
  next
    fix ts es assume "list_all2 becomes (?cmds ts) es"
    from types [OF this] show "work_left (tasks_of es) < steps_left (event_type e)" using left by auto
  qed
qed

lemma fraud_step:
  assumes s: "step_of k0 e0 pend w k x c e w'" and saga: "order_saga e0 w = Some r" and st: "state r = FRAUD_PENDING"
  shows "progress k0 e0 pend w'"
proof -
  note d = step_ofD [OF s]
  let ?cfg = "chaos w"
  have p: "remembers e0 r" "paid ?cfg" "stocked ?cfg e0"
    "task_types pend = [FraudCheckRequested] \<and>
        (\<forall>t \<in> set pend. \<forall>b. is_high_risk b (payload (snd t)) = is_high_risk b (risk_fields e0)) \<or>
      task_types pend = [if trusted ?cfg e0 then FraudApproved else FraudRejected]"
    using d(1) by (simp_all add: order_inv_def phase_def saga st)
  from p(4) show ?thesis
  proof (elim disjE conjE)
    assume a: "task_types pend = [FraudCheckRequested]"
      "\<forall>t \<in> set pend. \<forall>b. is_high_risk b (payload (snd t)) = is_high_risk b (risk_fields e0)"
    note o = one_task [OF a(1) d(5)]
    have c: "c = FraudConsumer" using d(10) o(2) by simp
    have risk: "is_high_risk b (payload e) = is_high_risk b (risk_fields e0)" for b using a(2) o(1) by simp
    let ?ty = "if trusted ?cfg e0 then FraudApproved else FraudRejected"
    have "reply_to c ?cfg e = Answers FraudTopic ?ty" by (simp add: c o(2) risk trusted_def)
    then show ?thesis
      by (rule service_step [OF s, rotated])
        (use p in \<open>simp_all add: c o fits_def saga_topics_def phase_simps saga st\<close>)
  next
    assume "task_types pend = [if trusted ?cfg e0 then FraudApproved else FraudRejected]"
    note o = one_task [OF this d(5)]
    have c: "c = SagaOrchestrator" using d(10) o(2) by (simp split: if_splits)
    note s' = s [unfolded c] and only = o(1) [unfolded c]
    show ?thesis
    proof (cases "trusted ?cfg e0")
      case True
      let ?kvs = "[(''fraud_check_id'', obj_get (payload e) ''fraud_check_id''), (''risk_score'', obj_get (payload e) ''risk_score'')]"
      let ?ctx = "with_fields (sg_context r) ?kvs"
      let ?cmd = "reply e ShippingTopic ShipmentRequested ''Shipment''
                      [(''order_id'', JStr (aggregate_id e)),
                       (''user_id'', js_or (obj_get ?ctx ''user_id'') (JStr ''unknown'')),
                       (''items'', js_or (obj_get ?ctx ''items'') (JArr [])),
                       (''shipping_address'', js_or (obj_get ?ctx ''shipping_address'') (JObj []))]"
      have ty: "event_type e = FraudApproved" using o(2) True by simp
      show ?thesis
      proof (rule forward_step [OF s' only saga, where st = SHIPPING_PENDING and kvs = "\<lambda>_. ?kvs" and C = "\<lambda>_. [?cmd]"])
        show "saga_plan e ts (Some r) = Some (advance e r SHIPPING_PENDING ''SHIPPING'' ?ctx None, [?cmd])" for ts
          by (simp add: saga_plan_def plan_forward_def st ty)
        show "command_ok saga_name q \<and> e_aggregateId q = aggregate_id e0" if "q \<in> set [?cmd]" for q
          using that saga_reply_ok [OF s', of ShippingTopic ShipmentRequested "''Shipment''"] by (simp add: fits_def)
        fix es r' assume es: "list_all2 becomes [?cmd] es" "state r' = SHIPPING_PENDING" "remembers e0 r'"
        then show "phase ?cfg e0 (Some r') (tasks_of es)"
          using True p(2,3) by (auto simp: phase_simps dest!: becomes_one)
      next
        fix es assume "list_all2 becomes [?cmd] es"
        from becomes_one [OF this] show "work_left (tasks_of es) < steps_left (event_type e)" using ty by auto
      qed simp
    next
      case False
      have ty: "event_type e = FraudRejected" using o(2) False by simp
      show ?thesis
        by (rule compensate_both [OF s' only saga, where key = "''fraud_rejection_reason''" and step = "''COMPENSATING_FRAUD''"
              and failure = "''Fraud risk check rejected: ''" and why = "''Fraud rejection: ''"])
          (use p(2) False in \<open>simp_all add: saga_plan_def st ty order_outcome_def\<close>)
    qed
  qed
qed

lemma shipping_step:
  assumes s: "step_of k0 e0 pend w k x c e w'" and saga: "order_saga e0 w = Some r" and st: "state r = SHIPPING_PENDING"
  shows "progress k0 e0 pend w'"
proof -
  note d = step_ofD [OF s]
  let ?cfg = "chaos w"
  have p: "remembers e0 r" "paid ?cfg" "stocked ?cfg e0" "trusted ?cfg e0"
    "task_types pend = [ShipmentRequested] \<or> task_types pend = [if shipped ?cfg then ShipmentCreated else ShipmentFailed]"
    using d(1) by (simp_all add: order_inv_def phase_def saga st)
  from p(5) show ?thesis
  proof
    assume a: "task_types pend = [ShipmentRequested]"
    note o = one_task [OF a d(5)]
    have c: "c = ShippingConsumer" using d(10) o(2) by simp
    let ?ty = "if shipped ?cfg then ShipmentCreated else ShipmentFailed"
    have "reply_to c ?cfg e = Answers ShippingTopic ?ty" by (simp add: c o(2) shipped_def)
    then show ?thesis
      by (rule service_step [OF s, rotated])
        (use p in \<open>simp_all add: c o fits_def saga_topics_def phase_simps saga st\<close>)
  next
    assume "task_types pend = [if shipped ?cfg then ShipmentCreated else ShipmentFailed]"
    note o = one_task [OF this d(5)]
    have c: "c = SagaOrchestrator" using d(10) o(2) by (simp split: if_splits)
    note s' = s [unfolded c] and only = o(1) [unfolded c]
    show ?thesis
    proof (cases "shipped ?cfg")
      case True
      let ?kvs = "\<lambda>ts. [(''shipment_id'', obj_get (payload e) ''shipment_id''),
          (''tracking_number'', obj_get (payload e) ''tracking_number''), (''completed_at'', JStr ts)]"
      let ?ctx = "\<lambda>ts. with_fields (sg_context r) (?kvs ts)"
      let ?cmds = "\<lambda>ts. [reply e OrdersTopic OrderCompleted ''Order'' (order_completed e (?ctx ts)),
                       reply e NotificationsTopic NotificationRequested ''Notification'' (notification_request e (?ctx ts))]"
      have ty: "event_type e = ShipmentCreated" using o(2) True by simp
      show ?thesis
      proof (rule forward_step [OF s' only saga, where st = COMPLETED and kvs = ?kvs and C = ?cmds])
        show "saga_plan e ts (Some r) = Some (advance e r COMPLETED ''TERMINAL_SUCCESS'' (?ctx ts) None, ?cmds ts)" for ts
          by (simp add: saga_plan_def plan_forward_def st ty Let_def)
        show "command_ok saga_name q \<and> e_aggregateId q = aggregate_id e0" if "q \<in> set (?cmds ts)" for q ts
          using that saga_reply_ok [OF s', of OrdersTopic OrderCompleted "''Order''"]
            saga_reply_ok [OF s', of NotificationsTopic NotificationRequested "''Notification''"] by (auto simp: fits_def)
      next
        fix ts es r' assume es: "list_all2 becomes (?cmds ts) es" "state r' = COMPLETED" "remembers e0 r'"
        then show "phase ?cfg e0 (Some r') (tasks_of es)"
          using True p(2-4) by (auto simp: phase_simps order_outcome_def dest!: becomes_two)
      next
        fix ts es assume "list_all2 becomes (?cmds ts) es"
        from becomes_two [OF this] show "work_left (tasks_of es) < steps_left (event_type e)" using ty by auto
      qed simp
    next
      case False
      have ty: "event_type e = ShipmentFailed" using o(2) False by simp
      show ?thesis
        by (rule compensate_both [OF s' only saga, where key = "''shipment_failure_reason''" and step = "''COMPENSATING_SHIPPING''"
              and failure = "''Shipment dispatch failed: ''" and why = "''Shipment failed: ''"])
          (use p(2) False in \<open>simp_all add: saga_plan_def st ty order_outcome_def\<close>)
    qed
  qed
qed

text \<open>The open compensations and the list of what the barrier waits for.\<close>

lemma undoes_unique: "undoes a ty \<Longrightarrow> undoes b ty \<Longrightarrow> a = b"
  by (auto simp: undoes_def)

lemma undoes_mem: "list_all2 undoes L (task_types pend) \<Longrightarrow> t \<in> set pend \<Longrightarrow> \<exists>a \<in> set L. undoes a (event_type (snd t))"
  by (induction pend arbitrary: L) (auto simp: task_types_def list_all2_Cons2)

lemma undo_remove:
  assumes "list_all2 undoes L (task_types pend)" "distinct L" "t \<in> set pend" "undoes a (event_type (snd t))" "distinct pend"
  shows "list_all2 undoes (filter (\<lambda>b. b \<noteq> a) L) (task_types (filter (\<lambda>s. s \<noteq> t) pend))"
  using assms
proof (induction pend arbitrary: L)
  case (Cons s pend)
  obtain b L' where L: "L = b # L'" "undoes b (event_type (snd s))" "list_all2 undoes L' (task_types pend)"
    using Cons.prems(1) by (auto simp: task_types_def list_all2_Cons2)
  show ?case
  proof (cases "s = t")
    case True
    then have "b = a" using L(2) Cons.prems(4) undoes_unique by blast
    moreover have "filter (\<lambda>c. c \<noteq> a) L' = L'" "filter (\<lambda>s. s \<noteq> t) pend = pend"
      using True \<open>b = a\<close> L(1) Cons.prems(2,5) by (auto simp: filter_id_conv)
    ultimately show ?thesis using L True by simp
  next
    case False
    then have t: "t \<in> set pend" using Cons.prems(3) by simp
    then obtain c where "c \<in> set L'" "undoes c (event_type (snd t))" using undoes_mem [OF L(3)] by blast
    then have "b \<noteq> a" using undoes_unique [OF _ Cons.prems(4)] L(1) Cons.prems(2) by auto
    then show ?thesis
      using Cons.IH [OF L(3) _ t Cons.prems(4)] Cons.prems(2,5) L False by (simp add: task_types_def)
  qed
qed simp

lemma undo_refund:
  assumes "list_all2 undoes (filter P p) (task_types pend)" "undo_steps p" "(c, e) \<in> set pend"
    and "event_type e = PaymentRefundRequested" "event_type f = PaymentRefunded" "distinct pend"
  shows "list_all2 undoes (filter P p) (task_types (filter (\<lambda>t. t \<noteq> (c, e)) pend @ [(b, f)]))"
proof -
  have rest: "list_all2 undoes (filter (\<lambda>a. a \<noteq> ''PAYMENT_REFUND'') (filter P p)) (task_types (filter (\<lambda>s. s \<noteq> (c, e)) pend))"
    using assms by (intro undo_remove) (auto simp: undo_steps_def undoes_def)
  obtain a where "a \<in> set (filter P p)" "undoes a PaymentRefundRequested"
    using undoes_mem [OF assms(1,3)] assms(4) by auto
  then have "P ''PAYMENT_REFUND''" by (auto simp: undoes_def)
  then have split: "filter P p = filter (\<lambda>a. a \<noteq> ''PAYMENT_REFUND'') (filter P p) @ [''PAYMENT_REFUND'']"
    using assms(2) by (auto simp: undo_steps_def)
  have "undoes ''PAYMENT_REFUND'' (event_type f)" using assms(5) by (simp add: undoes_def)
  with rest have "list_all2 undoes (filter (\<lambda>a. a \<noteq> ''PAYMENT_REFUND'') (filter P p) @ [''PAYMENT_REFUND''])
      (task_types (filter (\<lambda>s. s \<noteq> (c, e)) pend) @ [event_type f])"
    by (intro list_all2_appendI) simp_all
  then show ?thesis unfolding split [symmetric] by (simp add: task_types_def)
qed

text \<open>One completed compensation, as the orchestrator records it.\<close>

lemma barrier_step:
  assumes s: "step_of k0 e0 pend w k x SagaOrchestrator e w'" and saga: "order_saga e0 w = Some r"
    and st: "state r = COMPENSATING" and out: "order_outcome (chaos w) e0 = CANCELLED"
    and rem: "remembers e0 r" and p: "undo_steps p" "barrier_lists r p d"
      "list_all2 undoes (filter (\<lambda>a. a \<notin> set d) p) (task_types pend)"
    and act: "event_type e = PaymentRefunded \<and> action = ''PAYMENT_REFUND'' \<or>
      event_type e = InventoryReleased \<and> action = ''INVENTORY_RELEASE''"
  shows "progress k0 e0 pend w'"
proof -
  note h = step_ofD [OF s]
  let ?d = "mark_done d action"
  let ?data = "barrier_data r (aggregate_id e) action (correlation_id e)"
  let ?cmds = "\<lambda>ts. if all_completed (sg_context r) action
      then [reply e OrdersTopic OrderCancelled ''Order'' (order_cancelled (aggregate_id e) ts (cancellation r action))] else []"
  have plan: "saga_plan e ts (order_saga e0 w) = Some (?data, ?cmds ts)" for ts
    using barrier_event_plan [OF st act] by (simp add: saga plan_barrier_def)
  have ok: "command_ok saga_name q" if "q \<in> set (?cmds ts)" for q ts
    using that saga_reply_ok [OF s, of OrdersTopic OrderCancelled "''Order''"] by (auto simp: fits_def split: if_splits)
  obtain ts t es where d: "list_all2 becomes (?cmds ts) es"
    "log_ok k0 (filter (\<lambda>t. t \<noteq> (SagaOrchestrator, e)) pend @ tasks_of es) w'"
    "saga_instances (db w') = saga_instances (put_saga ?data t (db w))"
    using saga_done [OF h(1,3,4,5,6,7), where S = "\<lambda>_. ?data" and C = ?cmds, OF plan] ok by blast
  have es: "tasks_of es = []" "\<forall>f \<in> set es. aggregate_id f = aggregate_id e0"
    using d(1) h(11) by (auto split: if_splits dest!: becomes_one)
  let ?r = "merge_saga t r (new_saga_row t ?data)"
  have "saga_table_ok (saga_instances (db w))" using h(1) by (simp add: order_inv_def)
  from planned_saga [OF this _ _ plan [of ts], of t] saga
  have r': "order_saga e0 w' = Some ?r"
    using d(3) h(11) reads_as_fields(1) [OF h(4)] by (simp add: order_saga_def)
  have row: "saga_row_ok r" using row_ok_of [OF h(1) saga] .
  have ctx: "sg_context ?r = obj_json (with_fields (sg_context r) [(''compensations_completed'', JArr (map JStr ?d))])"
    by (simp add: merge_new_saga barrier_data_def Let_def barrier_lists_step(1) [OF p(2)])
  have "distinct (map fst (sg_context r))" using row by (simp add: saga_row_ok_def)
  from remembers_fields(2) [OF rem row h(2) _ this _ refl, of "[(''compensations_completed'', JArr (map JStr ?d))]"]
  have rem': "remembers e0 ?r" unfolding remembers_def ctx by (intro ballI) simp
  have l': "barrier_lists ?r p ?d"
    using p(2) act row unfolding barrier_lists_def ctx
    by (auto simp: obj_get_json distinct_fst_put saga_row_ok_def mark_done_def)
  have st': "state ?r = (if set p \<subseteq> set ?d then CANCELLED else COMPENSATING)"
    by (simp add: merge_new_saga barrier_data_def Let_def barrier_lists_step(2) [OF p(2)])
  have dist: "distinct pend" using h(1) open_tasks_distinct by (auto simp: order_inv_def)
  have "filter (\<lambda>b. b \<noteq> action) (filter (\<lambda>a. a \<notin> set d) p) = filter (\<lambda>a. a \<notin> set ?d) p"
    unfolding filter_filter by (rule filter_cong) (auto simp: mark_done_def)
  then have left: "list_all2 undoes (filter (\<lambda>a. a \<notin> set ?d) p) (task_types (filter (\<lambda>t. t \<noteq> (SagaOrchestrator, e)) pend))"
    using undo_remove [OF p(3) _ h(5) _ dist, of action] act p(1) by (auto simp: undo_steps_def undoes_def)
  have "phase (chaos w) e0 (Some ?r) (filter (\<lambda>t. t \<noteq> (SagaOrchestrator, e)) pend)"
  proof (cases "set p \<subseteq> set ?d")
    case True
    then have "filter (\<lambda>a. a \<notin> set ?d) p = []" by (auto simp: filter_empty_conv)
    then have "filter (\<lambda>t. t \<noteq> (SagaOrchestrator, e)) pend = []" using left by (simp add: task_types_def)
    then show ?thesis using rem' out st' True by (simp add: phase_def)
  next
    case False
    then show ?thesis using rem' out st' l' left p(1) unfolding phase_def by auto
  qed
  then show ?thesis
    using progressI [OF h(1,5,8) d(2) h(9), unfolded es r'] es act by auto
qed

lemma compensation_step:
  assumes s: "step_of k0 e0 pend w k x c e w'" and saga: "order_saga e0 w = Some r" and st: "state r = COMPENSATING"
  shows "progress k0 e0 pend w'"
proof -
  note h = step_ofD [OF s]
  obtain p d where p: "remembers e0 r" "order_outcome (chaos w) e0 = CANCELLED" "undo_steps p" "barrier_lists r p d"
      "list_all2 undoes (filter (\<lambda>a. a \<notin> set d) p) (task_types pend)"
    using h(1) by (auto simp: order_inv_def phase_def saga st)
  have "\<exists>a. undoes a (event_type e)" using undoes_mem [OF p(5) h(5)] by auto
  then consider "event_type e = PaymentRefundRequested" | "event_type e = PaymentRefunded" | "event_type e = InventoryReleased"
    by (auto simp: undoes_def)
  then show ?thesis
  proof cases
    case 1
    then have c: "c = PaymentConsumer" using h(10) by simp
    have dist: "distinct pend" using h(1) open_tasks_distinct by (auto simp: order_inv_def)
    show ?thesis
    proof (rule service_step [OF s, where ty = PaymentRefunded and tpc = PaymentsTopic])
      fix f :: envelope assume f: "event_type f = PaymentRefunded"
      have "list_all2 undoes (filter (\<lambda>a. a \<notin> set d) p) (task_types (filter (\<lambda>t. t \<noteq> (c, e)) pend @ [(SagaOrchestrator, f)]))"
        by (rule undo_refund [OF p(5,3) h(5) 1 f dist])
      then show "phase (chaos w) e0 (order_saga e0 w) (filter (\<lambda>t. t \<noteq> (c, e)) pend @ tasks_of [f])"
        using p f unfolding phase_def saga st by (auto simp: st)
    qed (simp_all add: c 1 fits_def saga_topics_def)
  next
    case 2
    then have "c = SagaOrchestrator" using h(10) by simp
    then show ?thesis using barrier_step [OF _ saga st p(2,1,3-5)] s 2 by blast
  next
    case 3
    then have "c = SagaOrchestrator" using h(10) by simp
    then show ?thesis using barrier_step [OF _ saga st p(2,1,3-5)] s 3 by blast
  qed
qed

text \<open>Every open task, once delivered, brings the order nearer to its end.\<close>

lemma task_step:
  assumes s: "step_of k0 e0 pend w k x c e w'"
  shows "progress k0 e0 pend w'"
proof (cases "order_saga e0 w")
  case None
  then show ?thesis using OrderCreated_step [OF s] by blast
next
  case (Some r)
  have "pend \<noteq> []" using step_ofD(5) [OF s] by auto
  then have "state r \<in> {PAYMENT_PENDING, INVENTORY_PENDING, FRAUD_PENDING, SHIPPING_PENDING, COMPENSATING}"
    using step_ofD(1) [OF s] Some by (cases "state r") (auto simp: order_inv_def phase_def)
  then show ?thesis
    using payment_step [OF s Some] inventory_step [OF s Some] fraud_step [OF s Some] shipping_step [OF s Some]
      compensation_step [OF s Some] by blast
qed

end
