(* ===== verification/Fulfilment_Props.thy ===== *)
theory Fulfilment_Props
  imports Order_Flow
begin

text \<open>
  The end-to-end property of the platform: when nothing fails, an order on the log reaches
  the outcome that the order and the chaos configuration determine, under every fair
  interleaving of the consumers, with duplicated deliveries, within twelve rounds.
\<close>

section \<open>Schedules and the invariant\<close>

lemma deliver_at_onward: "onward w (deliver_at d w)"
  by (cases d) (simp add: deliver_at_def delivered_onward onward.S_refl)

lemma run_schedule_simps [simp]:
  "run_schedule [] w = w" "run_schedule (d # ds) w = run_schedule ds (deliver_at d w)"
  by (simp_all add: run_schedule_def)

lemma run_schedule_onward: "onward w (run_schedule ds w)"
proof (induction ds arbitrary: w)
  case (Cons d ds)
  from onward.S_trans [OF deliver_at_onward Cons] show ?case by simp
qed (simp add: onward.S_refl)

lemma onward_time: "onward w w' \<Longrightarrow> now w \<le> now w'"
  by (simp add: onward_def)

lemma onward_bus:
  assumes "onward w w'" "k < length (bus w)"
  shows "k < length (bus w')" "bus w' ! k = bus w ! k"
  using assms by (auto simp: onward_def nth_append)

text \<open>One delivery: the order stays where it is, or comes nearer to its end.\<close>

lemma delivery_step:
  assumes inv: "order_inv k0 e0 pend w" and full: "fulfillable e0" and k: "k0 \<le> k"
    and t: "now (deliver_at (c, k) w) < 2 ^ 47"
  shows "order_inv k0 e0 pend (deliver_at (c, k) w) \<or> progress k0 e0 pend (deliver_at (c, k) w)"
    and "k < length (bus w) \<Longrightarrow> subscribed c (bus w ! k) \<Longrightarrow> reads_as (bus w ! k) e \<Longrightarrow> (c, e) \<in> set pend \<Longrightarrow>
      progress k0 e0 pend (deliver_at (c, k) w)"
proof -
  let ?x = "bus w ! k" and ?w' = "deliver_at (c, k) w"
  have path: "?x \<in> on_path k0 w" if "k < length (bus w)" "c \<in> set core" "subscribed c ?x"
  proof -
    have "?x = drop k0 (bus w) ! (k - k0)" "k - k0 < length (drop k0 (bus w))" using that(1) k by simp_all
    then have "?x \<in> set (drop k0 (bus w))" by (metis nth_mem)
    then show ?thesis using core_on_path [OF that(2,3)] by (simp add: on_path_def)
  qed
  have task: "progress k0 e0 pend ?w'"
    if "k < length (bus w)" "subscribed c ?x" "reads_as ?x e" "(c, e) \<in> set pend" for e
  proof -
    have c: "c \<in> set core" using addressee_core [OF open_addressee [OF inv that(4)]] .
    have "step_of k0 e0 pend w k ?x c e ?w'"
      using inv full path [OF that(1) c that(2)] that t by (simp add: step_of_def deliver_at_def)
    then show ?thesis by (rule task_step)
  qed
  then show "k < length (bus w) \<Longrightarrow> subscribed c ?x \<Longrightarrow> reads_as ?x e \<Longrightarrow> (c, e) \<in> set pend \<Longrightarrow> progress k0 e0 pend ?w'"
    by blast
  show "order_inv k0 e0 pend ?w' \<or> progress k0 e0 pend ?w'"
  proof (cases "k < length (bus w) \<and> subscribed c ?x")
    case False
    then have "?w' = w" by (auto simp: deliver_at_def)
    then show ?thesis using inv by simp
  next
    case True
    then have w': "?w' = snd (deliver c (received k ?x) w)" by (simp add: deliver_at_def)
    show ?thesis
    proof (cases "c \<in> set core")
      case False
      then show ?thesis using other_idle [OF inv] by (simp add: w')
    next
      case core: True
      have x: "?x \<in> on_path k0 w" using path True core by blast
      then obtain e where e: "reads_as ?x e" using inv unfolding order_inv_def log_ok_def by blast
      show ?thesis
      proof (cases "(c, e) \<in> set pend")
        case True
        then show ?thesis using task [OF _ _ e] \<open>k < length (bus w) \<and> subscribed c ?x\<close> by blast
      next
        case False
        then show ?thesis using core_idle [OF inv x e core False w'] by blast
      qed
    qed
  qed
qed

lemma run_keeps:
  assumes "order_inv k0 e0 pend w" "fulfillable e0" "\<forall>d \<in> set ds. k0 \<le> snd d" "now (run_schedule ds w) < 2 ^ 47"
  shows "\<exists>pend'. order_inv k0 e0 pend' (run_schedule ds w) \<and> (pend' = pend \<or> work_left pend' < work_left pend)"
  using assms
proof (induction ds arbitrary: w pend)
  case (Cons d ds)
  obtain c k where d: "d = (c, k)" by (cases d)
  have t: "now (deliver_at d w) < 2 ^ 47"
    using onward_time [OF run_schedule_onward [of "deliver_at d w" ds]] Cons.prems(4) by simp
  from delivery_step(1) [OF Cons.prems(1,2), of k c] t Cons.prems(3) d
  obtain pend1 where p: "order_inv k0 e0 pend1 (deliver_at d w)" "pend1 = pend \<or> work_left pend1 < work_left pend"
    by (auto simp: progress_def)
  from Cons.IH [OF p(1) Cons.prems(2)] Cons.prems(3,4) p(2) show ?case by fastforce
qed auto

text \<open>A round that reaches an open task.\<close>

lemma run_works:
  assumes "order_inv k0 e0 pend w" "fulfillable e0" "\<forall>d \<in> set ds. k0 \<le> snd d" "now (run_schedule ds w) < 2 ^ 47"
    and "(c, e) \<in> set pend" "k < length (bus w)" "reads_as (bus w ! k) e" "subscribed c (bus w ! k)" "(c, k) \<in> set ds"
  shows "\<exists>pend'. order_inv k0 e0 pend' (run_schedule ds w) \<and> work_left pend' < work_left pend"
  using assms(1,3-9)
proof (induction ds arbitrary: w)
  case (Cons d ds)
  obtain b j where d: "d = (b, j)" by (cases d)
  let ?w1 = "deliver_at d w"
  have t: "now ?w1 < 2 ^ 47"
    using onward_time [OF run_schedule_onward [of ?w1 ds]] Cons.prems(3) by simp
  have k0: "k0 \<le> j" using Cons.prems(2) d by simp
  note step = delivery_step [OF Cons.prems(1) assms(2) k0 t [unfolded d], folded d]
  show ?case
  proof (cases "progress k0 e0 pend ?w1")
    case True
    then obtain pend1 where p: "order_inv k0 e0 pend1 ?w1" "work_left pend1 < work_left pend"
      by (auto simp: progress_def)
    from run_keeps [OF p(1) assms(2), of ds] Cons.prems(2,3) p(2) show ?thesis by fastforce
  next
    case False
    then have inv: "order_inv k0 e0 pend ?w1" using step(1) by blast
    have "d \<noteq> (c, k)" using False step(2) Cons.prems(4-7) d by blast
    then have ds: "(c, k) \<in> set ds" using Cons.prems(8) by auto
    note b = onward_bus [OF deliver_at_onward Cons.prems(5), of d]
    show ?thesis
      using Cons.IH [OF inv _ _ Cons.prems(4) b(1) _ _ ds] Cons.prems(2,3,6,7) b(2) by simp
  qed
qed simp

lemma round_works:
  assumes inv: "order_inv k0 e0 pend w" and full: "fulfillable e0" and round: "round k0 ds w"
    and t: "now (run_schedule ds w) < 2 ^ 47" and "pend \<noteq> []"
  shows "\<exists>pend'. order_inv k0 e0 pend' (run_schedule ds w) \<and> work_left pend' < work_left pend"
proof -
  obtain c e where p: "(c, e) \<in> set pend" using assms(5) by (metis list.set_sel(1) prod.exhaust)
  have c: "c \<in> set core" using addressee_core [OF open_addressee [OF inv p]] .
  obtain x where x: "x \<in> on_path k0 w" "reads_as x e" "subscribed c x"
    using inv p unfolding order_inv_def log_ok_def by blast
  then obtain i where i: "i < length (drop k0 (bus w))" "x = drop k0 (bus w) ! i"
    by (auto simp: on_path_def in_set_conv_nth)
  then have k: "k0 + i < length (bus w)" "bus w ! (k0 + i) = x" by simp_all
  then have "(c, k0 + i) \<in> set ds" using round c x(3) by (simp add: round_def)
  then show ?thesis
    using run_works [OF inv full _ t p k(1)] round k(2) x(2,3) by (simp add: round_def)
qed

definition run_rounds :: "(platform_consumer \<times> nat) list list \<Rightarrow> world \<Rightarrow> world" where
  "run_rounds dss w = fold run_schedule dss w"

lemma run_rounds_simps [simp]:
  "run_rounds [] w = w" "run_rounds (ds # dss) w = run_rounds dss (run_schedule ds w)"
  by (simp_all add: run_rounds_def)

lemma run_rounds_onward: "onward w (run_rounds dss w)"
proof (induction dss arbitrary: w)
  case (Cons ds dss)
  from onward.S_trans [OF run_schedule_onward Cons] show ?case by simp
qed (simp add: onward.S_refl)

lemma work_left_zero: "work_left l = 0 \<Longrightarrow> l = []"
proof (cases l)
  case (Cons t ts)
  have "steps_left ty > 0" for ty by (cases ty) simp_all
  then show "work_left l = 0 \<Longrightarrow> l = []" using Cons by (simp add: work_left_def neq0_conv [symmetric] del: neq0_conv)
qed simp

lemma rounds_work:
  assumes "order_inv k0 e0 pend w" "fulfillable e0" "rounds k0 dss w" "now (run_rounds dss w) < 2 ^ 47"
  shows "\<exists>pend'. order_inv k0 e0 pend' (run_rounds dss w) \<and> (pend' = [] \<or> work_left pend' + length dss \<le> work_left pend)"
  using assms
proof (induction dss arbitrary: w pend)
  case (Cons ds dss)
  let ?w1 = "run_schedule ds w"
  have r: "round k0 ds w" "rounds k0 dss ?w1" using Cons.prems(3) by simp_all
  have t: "now ?w1 < 2 ^ 47"
    using onward_time [OF run_rounds_onward [of ?w1 dss]] Cons.prems(4) by simp
  have "\<exists>pend1. order_inv k0 e0 pend1 ?w1 \<and> (pend = [] \<and> pend1 = [] \<or> work_left pend1 < work_left pend)"
  proof (cases "pend = []")
    case True
    then show ?thesis
      using run_keeps [OF Cons.prems(1,2) _ t] r(1) by (auto simp: round_def)
  next
    case False
    then show ?thesis using round_works [OF Cons.prems(1,2) r(1) t] by blast
  qed
  then obtain pend1 where p: "order_inv k0 e0 pend1 ?w1" "pend = [] \<and> pend1 = [] \<or> work_left pend1 < work_left pend"
    by blast
  obtain pend2 where q: "order_inv k0 e0 pend2 (run_rounds dss ?w1)" "pend2 = [] \<or> work_left pend2 + length dss \<le> work_left pend1"
    using Cons.IH [OF p(1) Cons.prems(2) r(2)] Cons.prems(4) by auto
  show ?case
    using p(2) q work_left_zero [of pend2] by (intro exI [of _ pend2]) auto
qed auto

text \<open>Nothing open: the saga has reached the outcome.\<close>

lemma barrier_lists_unique:
  assumes "barrier_lists r p d" "barrier_lists r p' d'"
  shows "p = p'" "d = d'"
  using assms by (auto simp: barrier_lists_def inj_map_eq_map inj_def)

lemma nothing_open:
  assumes "order_inv k0 e0 [] w"
  shows "\<exists>r. order_saga e0 w = Some r \<and> state r = order_outcome (chaos w) e0"
proof (cases "order_saga e0 w")
  case None
  then show ?thesis using assms by (simp add: order_inv_def phase_def)
next
  case (Some r)
  have row: "saga_row_ok r" by (rule row_ok_of [OF assms Some])
  have "state r \<noteq> COMPENSATING"
  proof
    assume st: "state r = COMPENSATING"
    obtain p d where "barrier_lists r p d" "filter (\<lambda>a. a \<notin> set d) p = []"
      using assms Some st by (auto simp: order_inv_def phase_def task_types_def)
    moreover obtain p' d' where "barrier_lists r p' d'" "\<not> set p' \<subseteq> set d'"
      using row st by (auto simp: saga_row_ok_def)
    ultimately show False using barrier_lists_unique [of r p d p' d'] by (auto simp: filter_empty_conv)
  qed
  then have "state r = order_outcome (chaos w) e0"
    using assms Some by (cases "state r") (auto simp: order_inv_def phase_def task_types_def)
  then show ?thesis using Some by blast
qed

section \<open>The order is fulfilled\<close>

text \<open>The supply gives ids that are distinct and that nobody has handled.\<close>

definition fresh_events :: "world \<Rightarrow> bool" where
  "fresh_events w \<longleftrightarrow> inj (uuid_src w) \<and>
     (\<forall>n \<ge> uuid_next w. \<forall>c. \<not> event_processed (''evt_'' @ uuid_src w n) (consumer_name c) (db w))"

text \<open>An order that has just been put on the log, as its last message.\<close>

definition order_arrived :: "envelope \<Rightarrow> world \<Rightarrow> bool" where
  "order_arrived e w \<longleftrightarrow>
     bus w \<noteq> [] \<and> m_topic (last (bus w)) = OrdersTopic \<and> reads_as (last (bus w)) e \<and> event_type e = OrderCreated \<and>
     (\<exists>b. has_out_of_stock (order_items e) = Inr b) \<and>
     order_saga e w = None \<and> saga_table_ok (saga_instances (db w)) \<and>
     \<not> handled SagaOrchestrator e w \<and> old_id w (event_id e) \<and> fresh_events w"

lemma arrived_inv:
  assumes a: "order_arrived e w" and calm: "db_script w = []" "kafka_script w = []"
  shows "fulfillable e" "order_inv (length (bus w) - 1) e [(SagaOrchestrator, e)] w"
proof -
  have x: "reads_as (last (bus w)) e" using a by (simp add: order_arrived_def)
  show "fulfillable e"
    using a reads_as_fields [OF x] by (simp add: fulfillable_def order_arrived_def)
  have ty: "addressee (event_type e) = Some SagaOrchestrator" using a by (simp add: order_arrived_def)
  have "drop (length (bus w) - 1) (bus w) = [last (bus w)]"
    using a by (cases "bus w" rule: rev_cases) (simp_all add: order_arrived_def)
  then have path: "on_path (length (bus w) - 1) w = {last (bus w)}"
    using a by (auto simp: on_path_def off_path_def order_arrived_def)
  have only: "f = e" if "reads_as (last (bus w)) f" for f using reads_as_unique [OF that x] .
  have "log_ok (length (bus w) - 1) [(SagaOrchestrator, e)] w"
    unfolding log_ok_def path
  proof (intro conjI)
    show "\<forall>y\<in>{last (bus w)}. \<exists>f. reads_as y f \<and> old_id w (event_id f) \<and>
        (\<forall>c. addressee (event_type f) = Some c \<longrightarrow> (c, f) \<in> set [(SagaOrchestrator, e)] \<or> handled c f w)"
      using x ty a by (auto intro!: exI [of _ e] simp: order_arrived_def)
    show "\<forall>y\<in>{last (bus w)}. \<forall>z\<in>{last (bus w)}. \<forall>f g. reads_as y f \<longrightarrow> reads_as z g \<longrightarrow> event_id f = event_id g \<longrightarrow> f = g"
      using only by blast
    have "subscribed SagaOrchestrator (last (bus w))"
      using a by (simp add: subscribed_def saga_topics_def order_arrived_def)
    then show "\<forall>(c, f)\<in>set [(SagaOrchestrator, e)]. addressee (event_type f) = Some c \<and> \<not> handled c f w \<and>
        (\<exists>y\<in>{last (bus w)}. reads_as y f \<and> subscribed c y)"
      using x ty a by (simp add: order_arrived_def)
    show "\<forall>n\<ge>uuid_next w. \<forall>c\<in>set core. \<not> event_processed (''evt_'' @ uuid_src w n) (consumer_name c) (db w)"
      using a by (simp add: order_arrived_def fresh_events_def)
  qed simp_all
  then show "order_inv (length (bus w) - 1) e [(SagaOrchestrator, e)] w"
    using a calm by (simp add: order_inv_def phase_def order_arrived_def fresh_events_def)
qed

lemma arrived_order_ends:
  assumes "order_arrived e w" "db_script w = []" "kafka_script w = []"
    and "rounds (length (bus w) - 1) dss w" "12 \<le> length dss" "now (run_rounds dss w) < 2 ^ 47"
  shows "\<exists>r. order_saga e (run_rounds dss w) = Some r \<and> state r = order_outcome (chaos w) e"
proof -
  let ?w' = "run_rounds dss w"
  note i = arrived_inv [OF assms(1-3)]
  obtain pend where p: "order_inv (length (bus w) - 1) e pend ?w'"
    "pend = [] \<or> work_left pend + length dss \<le> work_left [(SagaOrchestrator, e)]"
    using rounds_work [OF i(2,1) assms(4,6)] by blast
  have "work_left [(SagaOrchestrator, e)] = 12" using assms(1) by (simp add: order_arrived_def work_left_def)
  then have "pend = []" using p(2) assms(5) work_left_zero [of pend] by auto
  moreover have "chaos ?w' = chaos w" using run_rounds_onward [of w dss] by (simp add: onward_def environment_def)
  ultimately show ?thesis using nothing_open p(1) by metis
qed

section \<open>A run in which time stands still\<close>

text \<open>
  With no failure and no latency configured, a handler takes no time; so a schedule that
  visits every message in turn keeps the clock where it is.
\<close>

definition instant :: "world \<Rightarrow> bool" where
  "instant w \<longleftrightarrow> db_script w = [] \<and> kafka_script w = [] \<and> (\<forall>s. \<not> js_gt (chaos_delay s (chaos w)) (Fin 0))"

definition still :: "world \<Rightarrow> world \<Rightarrow> bool" where
  "still w w' \<longleftrightarrow> (instant w \<longrightarrow> instant w' \<and> now w' = now w)"

interpretation still: run_preorder still
  by unfold_locales (simp_all add: still_def)

lemma instant_update [simp]:
  "instant (w\<lparr>db := d\<rparr>) = instant w" "instant (w\<lparr>uuid_next := n\<rparr>) = instant w" "instant (w\<lparr>rand_next := n\<rparr>) = instant w"
  "instant (w\<lparr>tx_aborted := b\<rparr>) = instant w" "instant (w\<lparr>tx_time := n\<rparr>) = instant w" "instant (w\<lparr>bus := ms\<rparr>) = instant w"
  "instant (w\<lparr>consumers := cs\<rparr>) = instant w" "instant (begin_tx w) = instant w" "instant (after_error r w) = instant w"
  by (simp_all add: instant_def begin_tx_def after_error_def)

lemma instant_calm: "instant w \<Longrightarrow> db_script w = []" "instant w \<Longrightarrow> kafka_script w = []"
  by (simp_all add: instant_def)

lemma after_error_now [simp]: "now (after_error r w) = now w"
  by (simp add: after_error_def)

lemma still_query: "run_follows still (query r s)"
  by (auto simp: run_follows_def still_def query_def instant_calm split: sum.split)

lemma still_withTransaction:
  assumes "run_follows still m"
  shows "run_follows still (withTransaction m)"
  unfolding run_follows_def still_def
proof (intro allI impI)
  fix w assume i: "instant w"
  obtain r w3 where m: "m (begin_tx w) = (r, w3)" by fastforce
  have w3: "instant w3" "now w3 = now w"
    using run_followsD [OF assms, of "begin_tx w"] i by (simp_all add: still_def m)
  have c: "commit d w3 = (Inr (), if tx_aborted w3 then w3\<lparr>db := d\<rparr> else w3)" for d
    using instant_calm(1) [OF w3(1)] by (simp add: commit_def)
  show "instant (snd (withTransaction m w)) \<and> now (snd (withTransaction m w)) = now w"
    using i w3 by (auto simp: withTransaction_def instant_calm m c split: sum.split)
qed

lemma still_parts:
  "run_follows still uuid" "run_follows still (random_below n)" "run_follows still (producer_send ms)"
  by (simp_all add: run_follows_def still_def run_defs instant_calm)

lemma still_latency: "run_follows still (checkLatency s)"
proof -
  have "checkLatency s w = (Inr (), w)" if "instant w" for w
    using that by (simp add: checkLatency_def run_defs instant_def)
  then show ?thesis by (simp add: run_follows_def still_def)
qed

lemma still_uuid8: "run_follows still uuid8"
  unfolding uuid8_def by (intro still.run_compose still_parts)

lemmas still_rules = still.run_compose still_query still_withTransaction still_parts still_uuid8 still_latency

lemma still_emit_event: "run_follows still (emit_event name p)"
  unfolding emit_event_def emit_def Let_def by (intro still_rules; auto intro!: still_rules split: list.split)

lemma still_handler:
  assumes "c \<in> set core"
  shows "run_follows still (consumer_handler c e)"
proof -
  have "run_follows still (saga_case e s)" for s
    by (rule saga_case_cases [where P = "run_follows still"];
        (unfold saga_case_defs saveSagaInstance_def getSagaByAggregateIdForUpdate_def)?)
      (intro still_rules still_emit_event)+
  then have "run_follows still (saga_processEvent e)"
    unfolding saga_processEvent_def getSagaByAggregateId_def by (intro still_rules)
  moreover have "run_follows still (payment_processEvent e)" "run_follows still (inventory_processEvent e)"
    "run_follows still (fraud_processEvent e)" "run_follows still (shipping_processEvent e)"
    unfolding payment_processEvent_def inventory_processEvent_def fraud_processEvent_def
      shipping_processEvent_def should_fail_def Let_def
    by (intro still_rules still_emit_event)+
  ultimately show ?thesis using assms by (auto simp: core_def)
qed

section \<open>Visiting every message in turn\<close>

lemma core_returns:
  assumes inv: "order_inv k0 e0 pend w" and full: "fulfillable e0" and x: "x \<in> on_path k0 w" "reads_as x e"
    and c: "c \<in> set core" and new: "\<not> handled c e w"
  shows "\<exists>w1. consumer_handler c e (seen (consumer_name c) w) = (Inr (), w1)"
proof -
  let ?v = "seen (consumer_name c) w"
  have calm: "db_script ?v = []" "kafka_script ?v = []" using inv by (simp_all add: order_inv_def)
  have ne: "aggregate_id e \<noteq> []" using reads_as_fields(1) [OF x(2)] .
  show ?thesis
  proof (cases "c = SagaOrchestrator")
    case True
    obtain r w1 where run: "saga_processEvent e ?v = (r, w1)" by fastforce
    have "r = Inr ()" using saga_run_refines(2) [OF ne run refl calm] .
    then show ?thesis using run True by simp
  next
    case False
    have imp: "implements c e ?v" by (rule core_implements [OF c False calm(2)])
    have "reply_to c (chaos ?v) e \<noteq> Throws"
    proof
      assume t: "reply_to c (chaos ?v) e = Throws"
      then have ty: "c = InventoryConsumer" "event_type e = InventoryReservationRequested"
        using c by (auto simp: core_def split: if_splits sum.splits)
      obtain f where "reads_as x f" "\<forall>d. addressee (event_type f) = Some d \<longrightarrow> (d, f) \<in> set pend \<or> handled d f w"
        using inv x(1) unfolding order_inv_def log_ok_def by blast
      then have p: "(c, e) \<in> set pend" using reads_as_unique [OF x(2)] ty new by fastforce
      then obtain r where r: "order_saga e0 w = Some r" "InventoryReservationRequested \<in> set (task_types pend)"
        using inv full ty by (cases "order_saga e0 w") (force simp: order_inv_def phase_def fulfillable_def task_types_def)+
      have "\<forall>t \<in> set pend. requested_items (snd t) = order_items e0"
        using inv r by (cases "state r") (auto simp: order_inv_def phase_def list_all2_conv_all_nth in_set_conv_nth undoes_def split: if_splits)
      then have "requested_items e = order_items e0" using p by fastforce
      then show False using t ty full by (auto simp: fulfillable_def)
    qed
    then show ?thesis using imp by (auto simp: implements_def split: service_reply.splits)
  qed
qed

lemma seen_instant [simp]: "instant (seen n w) = instant w"
  by (simp add: seen_def)

lemma delivery_still:
  assumes inv: "order_inv k0 e0 pend w" and full: "fulfillable e0" and i: "instant w"
    and d: "c \<in> set core" "k0 \<le> k"
  shows "instant (deliver_at (c, k) w) \<and> now (deliver_at (c, k) w) = now w"
proof (cases "k < length (bus w) \<and> subscribed c (bus w ! k)")
  case True
  let ?x = "bus w ! k" and ?w' = "snd (deliver c (received k (bus w ! k)) w)"
  have w': "deliver_at (c, k) w = ?w'" using True by (simp add: deliver_at_def)
  have "bus w ! k = drop k0 (bus w) ! (k - k0)" "k - k0 < length (drop k0 (bus w))" using True d(2) by auto
  then have "?x \<in> set (drop k0 (bus w))" by (metis nth_mem)
  then have x: "?x \<in> on_path k0 w" using core_on_path [OF d(1)] True by (simp add: on_path_def)
  then obtain e where e: "reads_as ?x e" using inv unfolding order_inv_def log_ok_def by blast
  have on: "onward w ?w'" by (rule delivered_onward)
  have "now ?w' = now w"
  proof (cases "handled c e w")
    case True
    then show ?thesis
      using i by (simp add: deliver_reads [OF e] process_valid_def bindE_def lookup_done_run handled_def returnE_def instant_def)
  next
    case False
    obtain w1 where run: "consumer_handler c e (seen (consumer_name c) w) = (Inr (), w1)"
      using core_returns [OF inv full x e d(1) False] by blast
    have "now w1 = now w"
      using run_followsD [OF still_handler [OF d(1), of e], of "seen (consumer_name c) w"] i
      by (simp add: run still_def seen_instant)
    then show ?thesis using deliver_fresh [OF e False _ run] i by (simp add: instant_def)
  qed
  moreover have "instant ?w'" using on i by (simp add: instant_def onward_def environment_def)
  ultimately show ?thesis using w' by simp
next
  case False
  then have "deliver_at (c, k) w = w" by (auto simp: deliver_at_def)
  then show ?thesis using i by simp
qed

lemma schedule_still:
  assumes "order_inv k0 e0 pend w" "fulfillable e0" "instant w" "now w < 2 ^ 47"
    and "\<forall>d \<in> set ds. fst d \<in> set core \<and> k0 \<le> snd d"
  shows "instant (run_schedule ds w) \<and> now (run_schedule ds w) = now w \<and>
    (\<exists>pend'. order_inv k0 e0 pend' (run_schedule ds w))"
  using assms
proof (induction ds arbitrary: w pend)
  case (Cons d ds)
  obtain c k where d: "d = (c, k)" by (cases d)
  have ck: "c \<in> set core" "k0 \<le> k" using Cons.prems(5) d by simp_all
  note s = delivery_still [OF Cons.prems(1-3) ck]
  then have t: "now (deliver_at (c, k) w) < 2 ^ 47" using Cons.prems(4) by simp
  obtain pend1 where p: "order_inv k0 e0 pend1 (deliver_at (c, k) w)"
    using delivery_step(1) [OF Cons.prems(1,2) ck(2) t] by (auto simp: progress_def)
  from Cons.IH [OF p Cons.prems(2) _ t] s Cons.prems(5) show ?case by (simp add: d)
qed auto

text \<open>A round in which the core consumers visit the messages one after the other.\<close>

definition visit_all :: "nat \<Rightarrow> world \<Rightarrow> (platform_consumer \<times> nat) list" where
  "visit_all k0 w = concat (map (\<lambda>k. map (\<lambda>c. (c, k)) core) [k0..<length (bus w)])"

fun visit_rounds :: "nat \<Rightarrow> nat \<Rightarrow> world \<Rightarrow> (platform_consumer \<times> nat) list list" where
  "visit_rounds k0 0 w = []"
| "visit_rounds k0 (Suc n) w = visit_all k0 w # visit_rounds k0 n (run_schedule (visit_all k0 w) w)"

lemma visit_round: "round k0 (visit_all k0 w) w"
  by (auto simp: round_def visit_all_def)

lemma visit_rounds: "rounds k0 (visit_rounds k0 n w) w" "length (visit_rounds k0 n w) = n"
  by (induction n arbitrary: w) (simp_all add: visit_round)

lemma visit_still:
  assumes "order_inv k0 e0 pend w" "fulfillable e0" "instant w" "now w < 2 ^ 47"
  shows "now (run_rounds (visit_rounds k0 n w) w) = now w"
  using assms
proof (induction n arbitrary: w pend)
  case (Suc n)
  have "\<forall>d \<in> set (visit_all k0 w). fst d \<in> set core \<and> k0 \<le> snd d" by (auto simp: visit_all_def)
  note s = schedule_still [OF Suc.prems this]
  then obtain pend1 where "order_inv k0 e0 pend1 (run_schedule (visit_all k0 w) w)" by blast
  from Suc.IH [OF this Suc.prems(2)] s Suc.prems(4) show ?case by simp
qed simp

text \<open>C3: an order that has reached the log is settled as it should be.  While nothing fails,
  let the saga orchestrator and the four services read the log from this order on in any order,
  each message as often as it comes and mixed with any deliveries to the projection and the notification
  service, so long as each round reaches the messages that were on the log when it began, and none from
  before the order:
  after twelve rounds the saga of the order is in the state that the order and the chaos
  configuration determine: FAILED when the payment fails; COMPLETED when it is paid, in
  stock, trusted and shipped; and CANCELLED, with every compensation done, otherwise.\<close>

theorem order_reaches_outcome:
  assumes "order_arrived e w" "db_script w = []" "kafka_script w = []"
    and "rounds (length (bus w) - 1) dss w" "12 \<le> length dss" "now (run_rounds dss w) < 2 ^ 47"
  shows "\<exists>r. order_saga e (run_rounds dss w) = Some r \<and> state r = order_outcome (chaos w) e"
  by (rule arrived_order_ends [OF assms])

text \<open>The order of the examples, on the log of an empty platform.\<close>

definition demo_arrival :: world where
  "demo_arrival = demo_world\<lparr>bus := [\<lparr>m_topic = OrdersTopic, m_key = ''ord_1'',
     m_value = wire_of (js_of_envelope demo_order), m_headers = []\<rparr>]\<rparr>"

lemma digit_val_char: "0 \<le> d \<Longrightarrow> d < 10 \<Longrightarrow> digit_val (digit_char d) = d"
proof -
  assume "0 \<le> d" "d < 10"
  then have "d = 0 \<or> d = 1 \<or> d = 2 \<or> d = 3 \<or> d = 4 \<or> d = 5 \<or> d = 6 \<or> d = 7 \<or> d = 8 \<or> d = 9" by presburger
  then show ?thesis by (auto simp: digit_val_def digit_char_def)
qed

lemma digit_val_mod: "digit_val (digit_char d) = d mod 10"
  using digit_val_char [of "d mod 10"] by (simp add: digit_char_def)

lemma digits_val_nat_string: "0 \<le> n \<Longrightarrow> digits_val (nat_string n) = n"
proof (induction n rule: nat_string.induct)
  case (1 n)
  then show ?case
    by (cases "n < 10") (simp_all add: nat_string.simps [of n] digits_val_def digit_val_mod)
qed

lemma nat_string_inj: "0 \<le> m \<Longrightarrow> 0 \<le> n \<Longrightarrow> nat_string m = nat_string n \<longleftrightarrow> m = n"
  using digits_val_nat_string by metis

lemma demo_arrives: "order_arrived demo_order demo_arrival"
proof -
  have json: "demo_order\<lparr>payload := obj_json (payload demo_order)\<rparr> = demo_order"
    by (simp add: demo_order_def demo_event_def demo_items_def num_def)
  have "reads_as (last (bus demo_arrival)) demo_order"
    unfolding reads_as_def by (rule exI [of _ demo_order]) (simp add: demo_order_valid json demo_arrival_def)
  moreover have "has_out_of_stock (order_items demo_order) = Inr False"
    unfolding order_items_def by code_simp
  moreover have "inj (uuid_src demo_arrival)"
    by (simp add: inj_def demo_arrival_def demo_world_def nat_string_inj)
  moreover have "old_id demo_arrival ''evt_1''"
  proof -
    have "''1'' = nat_string 1" by code_simp
    then have "''1'' \<noteq> nat_string (10000000 + int n)" for n by (simp add: nat_string_inj)
    then show ?thesis by (simp add: old_id_def demo_arrival_def demo_world_def)
  qed
  moreover have "order_saga demo_order demo_arrival = None" "saga_table_ok (saga_instances (db demo_arrival))"
    by (simp_all add: order_saga_def demo_arrival_def saga_table_ok_def)
  moreover have "\<not> event_processed i c (db demo_arrival)" for i c
    by (simp add: event_processed_def demo_arrival_def demo_world_def createTables_def empty_database_def)
  moreover have "bus demo_arrival \<noteq> []" "m_topic (last (bus demo_arrival)) = OrdersTopic"
    "event_type demo_order = OrderCreated" "event_id demo_order = ''evt_1''"
    by (simp_all add: demo_arrival_def demo_order_def)
  ultimately show ?thesis
    unfolding order_arrived_def fresh_events_def handled_def by auto
qed

text \<open>Twelve rounds on it take no time.\<close>

lemma demo_time: "now (run_rounds (visit_rounds 0 12 demo_arrival) demo_arrival) = 0"
proof -
  let ?w = "demo_arrival"
  have calm: "db_script ?w = []" "kafka_script ?w = []" and chaos: "chaos ?w = DEFAULT_CHAOS_CONFIG" and t: "now ?w = 0"
    and k0: "length (bus ?w) - 1 = 0"
    by (simp_all add: demo_arrival_def demo_world_def)
  have "instant ?w"
    by (simp add: instant_def calm chaos chaos_delay_def DEFAULT_CHAOS_CONFIG_def split: chaos_service.split)
  then show ?thesis
    using visit_still [OF _ arrived_inv(1) [OF demo_arrives calm], of 0] arrived_inv(2) [OF demo_arrives calm] k0 t by simp
qed

theorem order_reaches_outcome_witness:
  "\<exists>r. order_saga demo_order (run_rounds (visit_rounds 0 12 demo_arrival) demo_arrival) = Some r \<and> state r = COMPLETED"
proof -
  let ?w = "demo_arrival"
  have calm: "db_script ?w = []" "kafka_script ?w = []" and chaos: "chaos ?w = DEFAULT_CHAOS_CONFIG"
    and k0: "length (bus ?w) - 1 = 0"
    by (simp_all add: demo_arrival_def demo_world_def)
  have "order_outcome (chaos ?w) demo_order = COMPLETED"
    unfolding chaos by code_simp
  then show ?thesis
    using order_reaches_outcome [OF demo_arrives calm, of "visit_rounds 0 12 ?w"] visit_rounds [of 0 12 ?w] k0
    by (simp add: demo_time)
qed

end
