(* ===== verification/Order_Service.thy ===== *)
theory Order_Service
  imports Outbox_Relay Read_Model Realtime
begin

text \<open>
  \<open>src/src/services/order-service.ts\<close>: the acceptance of an order, which writes the order and
  its OrderCreated event in one transaction; \<open>src/src/producers\<close>: the older producer of
  order events; and the three stateless helpers of \<open>src/src/services\<close>.
\<close>

section \<open>Accepting an order\<close>

record create_options =
  co_correlationId :: "string option"
  co_causationId :: "string option"
  co_currency :: js

text \<open>\<open>items.reduce((sum, item) => sum + item.price * item.quantity, 0)\<close>.\<close>

fun order_total :: "jnum \<Rightarrow> js list \<Rightarrow> exn + jnum" where
  "order_total acc [] = Inr acc"
| "order_total acc (item # items) =
     bind_sum (member item ''price'') (\<lambda>price.
     bind_sum (member item ''quantity'') (\<lambda>quantity.
     order_total (js_add acc (js_mul (js_number price) (js_number quantity))) items))"

definition order_created_payload :: "string \<Rightarrow> js \<Rightarrow> js list \<Rightarrow> jnum \<Rightarrow> js \<Rightarrow> obj" where
  "order_created_payload i user items total_amount currency =
     [(''order_id'', JStr i), (''user_id'', user), (''items'', JArr items),
      (''total_amount'', JNum total_amount), (''currency'', js_or currency (JStr ''USD'')),
      (''shipping_address'', JObj [(''country'', JStr ''US'')])]"

definition order_event :: "string \<Rightarrow> string \<Rightarrow> create_options \<Rightarrow> obj \<Rightarrow> outbox_event" where
  "order_event eventId i opts pl =
     \<lparr>ev_id = eventId, ev_aggregateId = i, ev_aggregateType = ''Order'', ev_eventType = OrderCreated,
      ev_eventVersion = Some 1, ev_payload = pl,
      ev_correlationId = or_string (co_correlationId opts) (''corr_'' @ i),
      ev_causationId = or_string (co_causationId opts) (''cmd_'' @ i), ev_topic = OrdersTopic\<rparr>"

definition new_order :: "string \<Rightarrow> js \<Rightarrow> js list \<Rightarrow> jnum \<Rightarrow> nat \<Rightarrow> order" where
  "new_order i user items total_amount t =
     \<lparr>order_id = i, order_user_id = user, order_items = JArr items, order_status = ''pending'',
      order_total_amount = total_amount, order_created_at = t, order_updated_at = t\<rparr>"

definition order_transaction :: "order \<Rightarrow> outbox_event \<Rightarrow> unit op" where
  "order_transaction ord ev =
     withTransaction (thenE (insertOrder Client ord) (insertOutboxEvent Client ev))"

definition createOrder :: "js \<Rightarrow> js list \<Rightarrow> create_options \<Rightarrow> order op" where
  "createOrder user items opts =
     bindE uuid8 (\<lambda>u. let i = ''ord_'' @ u in
     bindE (liftE (order_total (Fin 0) items)) (\<lambda>total_amount.
     bindE uuid8 (\<lambda>v.
     bindE clock (\<lambda>t.
       let ord = new_order i user items total_amount t
       in thenE (order_transaction ord
                   (order_event (''evt_'' @ v) i opts
                      (order_created_payload i user items total_amount (co_currency opts))))
                (returnE ord)))))"

text \<open>
  With a relay: its \<open>trigger\<close> is started and not awaited, its error only logged.  Here it
  runs to its end before anything else does; every other schedule of the two is a run of
  \<open>relay_step\<close> beside the order's transaction.
\<close>

definition accept_order :: "js \<Rightarrow> js list \<Rightarrow> create_options \<Rightarrow> order relay_op" where
  "accept_order user items opts r w =
     (case createOrder user items opts w of
        (Inl e, w') \<Rightarrow> (Inl e, r, w')
      | (Inr ord, w') \<Rightarrow> (let (res, r', w'') = trigger r w' in (Inr ord, r', w'')))"

section \<open>The older producer\<close>

definition producer_value :: "string \<Rightarrow> obj \<Rightarrow> obj" where
  "producer_value eventType pl = fold (\<lambda>(k, v) ob. obj_put k v ob) pl [(''type'', JStr eventType)]"

definition producer_message :: "topic \<Rightarrow> string \<Rightarrow> obj \<Rightarrow> string \<Rightarrow> string \<Rightarrow> message" where
  "producer_message tpc eventType pl key ts =
     \<lparr>m_topic = tpc, m_key = js_string (js_or (JStr key) (obj_get pl ''event_id'')),
      m_value = wire_of (JObj (producer_value eventType pl)),
      m_headers =
        [(''correlation-id'', js_string (js_or (obj_get pl ''correlation_id'') (JStr []))),
         (''event-id'', js_string (js_or (obj_get pl ''event_id'') (JStr []))),
         (''source-service'', ''order-service''), (''timestamp'', ts)]\<rparr>"

definition producer_emit :: "topic \<Rightarrow> string \<Rightarrow> obj \<Rightarrow> string \<Rightarrow> unit op" where
  "producer_emit tpc eventType pl key =
     bindE iso_now (\<lambda>ts. producer_send [producer_message tpc eventType pl key ts])"

definition legacy_order_payload :: "string \<Rightarrow> string \<Rightarrow> order \<Rightarrow> obj" where
  "legacy_order_payload eventId ts ord =
     [(''event_id'', JStr eventId), (''order_id'', JStr (order_id ord)), (''user_id'', order_user_id ord),
      (''items'', order_items ord), (''total_amount'', JNum (order_total_amount ord)),
      (''timestamp'', JStr ts), (''correlation_id'', JStr (order_id ord))]"

definition produceOrderCreatedEvent :: "order \<Rightarrow> unit op" where
  "produceOrderCreatedEvent ord =
     bindE uuid (\<lambda>u. bindE iso_now (\<lambda>ts.
       producer_emit (OtherTopic ''orders'') ''order.created''
         (legacy_order_payload (''evt_'' @ u) ts ord) (order_id ord)))"

definition producer_connect :: "unit op" where "producer_connect = kafka_call"
definition producer_disconnect :: "unit op" where "producer_disconnect = kafka_call"

section \<open>The stateless services\<close>

text \<open>\<open>setTimeout(resolve, Math.random() * n + b)\<close>: whole milliseconds.\<close>

definition random_delay :: "nat \<Rightarrow> nat \<Rightarrow> unit op" where
  "random_delay n b = bindE (random_below n) (\<lambda>k. sleep (b + k))"

definition processPayment :: "js \<Rightarrow> obj op" where
  "processPayment data =
     thenE (random_delay 2000 1000)
     (bindE clock (\<lambda>t. let i = ''pay_'' @ nat_string (int t) in
      thenE (liftE (member data ''order_id''))
      (returnE [(''payment_id'', JStr i), (''status'', JStr ''approved'')])))"

definition reserveInventory :: "js \<Rightarrow> obj op" where
  "reserveInventory data =
     thenE (random_delay 1000 500)
     (bindE clock (\<lambda>t. let i = ''res_'' @ nat_string (int t) in
      thenE (liftE (member data ''order_id''))
      (bindE (liftE (member data ''items'')) (\<lambda>items.
       thenE (liftE (member items ''length''))
      (returnE [(''reservation_id'', JStr i), (''status'', JStr ''reserved'')])))))"

definition sendOrderConfirmation :: "js \<Rightarrow> unit op" where
  "sendOrderConfirmation data =
     thenE (sleep 100) (thenE (liftE (member data ''order_id'')) (thenE (liftE (member data ''user_id'')) (returnE ())))"

definition sendPaymentConfirmation :: "js \<Rightarrow> unit op" where
  "sendPaymentConfirmation data =
     thenE (sleep 100) (thenE (liftE (member data ''order_id'')) (thenE (liftE (member data ''payment_id'')) (returnE ())))"

end
