(* ===== verification/Http_Api.thy ===== *)
theory Http_Api
  imports Order_Service Replay Platform
begin

text \<open>
  \<open>src/src/app.ts\<close>: the HTTP API as a function from a request to a response, over the
  services of the other theories.  Express only dispatches: a request is the route it
  matched with its parameters, its query values or its JSON body; a response is a status
  code and the data of the JSON body, without its constant texts.
\<close>

section \<open>Requests and responses\<close>

datatype chaos_switch = ChaosPayment | ChaosInventory | ChaosFraudRejection | ChaosShipping | ChaosNotification

datatype request =
    GetHealth | GetReady
  | PostOrders js
  | GetOrders js
  | GetOrder string | GetOrderEventsOf string | GetTimeline string
  | GetSagas js | GetSaga string
  | GetConsumers | GetMetrics
  | GetDlq js js | GetDlqMessage string | PostDlqReplay string
  | PostReplay js
  | GetChaos | PostChaosSwitch chaos_switch js | PostChaosLatency js | PostChaosReset

datatype overall_status = OverallOk | OverallDegraded | OverallDown

record latency_report =
  p50_ms :: nat
  p95_ms :: nat
  p99_ms :: nat
  lat_samples :: nat

datatype response_body =
    ErrorBody string
  | HealthBody overall_status bool "(string \<times> consumer_state) list"
  | ReadyBody bool bool bool
  | AcceptedBody string jnum nat
  | OrdersBody "order_view list"
  | OrderBody order_view "saga_state option" "timeline_entry list"
  | EventsBody string "envelope list"
  | TimelineBody string "timeline_entry list"
  | SagasBody "saga_row list"
  | SagaBody saga_row
  | ConsumersBody "(string \<times> consumer_state) list"
  | MetricsBody metrics nat latency_report nat nat "(string \<times> consumer_state) list"
  | LettersBody "dlq_row list"
  | LetterBody dlq_row
  | ReplayBody replay_result
  | ChaosBody chaos_config bool

record response =
  res_code :: nat
  res_body :: response_body

definition reply_with :: "nat \<Rightarrow> response_body \<Rightarrow> response op" where
  [run_defs]: "reply_with c b = returnE \<lparr>res_code = c, res_body = b\<rparr>"

text \<open>\<open>try { ... } catch { return res.status(500)... }\<close>.\<close>

definition or_500 :: "string \<Rightarrow> response op \<Rightarrow> response op" where
  "or_500 text m = tryE m (\<lambda>_. reply_with 500 (ErrorBody text))"

text \<open>The handlers of the replays answer with the message of the error.\<close>

definition or_500_message :: "response op \<Rightarrow> response op" where
  "or_500_message m = tryE m (\<lambda>e. reply_with 500 (ErrorBody (err_message e)))"

section \<open>Parameters\<close>

text \<open>
  \<open>Number(req.query.limit) || 50\<close>, bound to LIMIT: PostgreSQL takes the text of a
  non-negative whole number below \<open>2 ^ 63\<close>.
\<close>

definition query_limit :: "js \<Rightarrow> jnum" where
  "query_limit v = (let n = js_number v in if n = NaN \<or> n = Fin 0 then Fin 50 else n)"

definition limit_param :: "jnum \<Rightarrow> exn + nat" where
  "limit_param n =
     (case n of
        Fin x \<Rightarrow>
          if x \<noteq> of_int \<lfloor>x\<rfloor> \<or> 2 ^ 63 \<le> \<bar>x\<bar> then Inl (PgError ''invalid input for type bigint'')
          else if x < 0 then Inl (PgError ''LIMIT must not be negative'')
          else Inr (nat \<lfloor>x\<rfloor>)
      | _ \<Rightarrow> Inl (PgError ''invalid input for type bigint''))"

definition with_limit :: "js \<Rightarrow> (nat \<Rightarrow> 'a op) \<Rightarrow> 'a op" where
  "with_limit v f =
     (case limit_param (query_limit v) of
        Inl e \<Rightarrow> query Pool (\<lambda>t d. Inl e)
      | Inr k \<Rightarrow> f k)"

text \<open>\<open>status = $1\<close> with the text of the query value.\<close>

definition dlq_status_of :: "string \<Rightarrow> dlq_status option" where
  "dlq_status_of s = map_of [(''UNRESOLVED'', UNRESOLVED), (''REPLAYING'', REPLAYING),
     (''REPLAYED'', REPLAYED), (''DISCARDED'', DISCARDED)] s"

definition list_letters :: "js \<Rightarrow> nat \<Rightarrow> dlq_row list op" where
  "list_letters st limit =
     (case pg_param (js_or st (JStr ''UNRESOLVED'')) of
        None \<Rightarrow> query Pool (selects (\<lambda>d. []))
      | Some s \<Rightarrow> (case dlq_status_of s of
            None \<Rightarrow> query Pool (selects (\<lambda>d. []))
          | Some t \<Rightarrow> listDLQMessages limit t))"

section \<open>Health and readiness\<close>

text \<open>\<open>getConsumersStatus\<close> of index.ts.\<close>

definition getConsumersStatus :: "(string \<times> consumer_state) list op" where
  "getConsumersStatus = getsE (\<lambda>w. map (\<lambda>(k, c). (k, consumers w (consumer_name c)))
     [(''payment'', PaymentConsumer), (''inventory'', InventoryConsumer), (''fraud'', FraudConsumer),
      (''shipping'', ShippingConsumer), (''notification'', NotificationConsumer),
      (''saga'', SagaOrchestrator), (''projection'', ProjectionConsumer)])"

definition overall_status :: "bool \<Rightarrow> consumer_health list \<Rightarrow> overall_status" where
  "overall_status dbHealthy sts =
     (if \<not> dbHealthy \<or> Down \<in> set sts then OverallDown
      else if Degraded \<in> set sts then OverallDegraded else OverallOk)"

definition get_health :: "response op" where
  "get_health =
     bindE ping (\<lambda>dbHealthy.
     bindE getConsumersStatus (\<lambda>cs.
       let st = overall_status dbHealthy (map (\<lambda>p. status (snd p)) cs)
       in reply_with (if st = OverallDown then 503 else 200) (HealthBody st dbHealthy cs)))"

text \<open>\<open>isKafkaReady\<close> of index.ts: the \<open>finally\<close> disconnects, and its error is thrown.\<close>

definition isKafkaReady :: "bool op" where
  "isKafkaReady =
     bindE (tryE (thenE kafka_call (thenE kafka_call (returnE True))) (\<lambda>_. returnE False)) (\<lambda>b.
     thenE kafka_call (returnE b))"

definition get_ready :: "response op" where
  "get_ready =
     bindE ping (\<lambda>dbReady.
     bindE (tryE isKafkaReady (\<lambda>_. returnE False)) (\<lambda>kafkaReady.
       let ready = (dbReady \<and> kafkaReady)
       in reply_with (if ready then 200 else 503) (ReadyBody ready dbReady kafkaReady)))"

section \<open>Orders\<close>

fun is_number :: "js \<Rightarrow> bool" where
  "is_number (JNum _) = True"
| "is_number _ = False"

text \<open>The condition on one item, evaluated from left to right; reading a property of null throws.\<close>

definition item_ok :: "js \<Rightarrow> exn + bool" where
  "item_ok item =
     bind_sum (member item ''sku'') (\<lambda>sku. if \<not> truthy sku then Inr False else
     bind_sum (member item ''name'') (\<lambda>name. if \<not> truthy name then Inr False else
     bind_sum (member item ''price'') (\<lambda>price. if \<not> is_number price then Inr False else
     bind_sum (member item ''quantity'') (\<lambda>quantity. Inr (is_number quantity)))))"

fun items_ok :: "js list \<Rightarrow> exn + bool" where
  "items_ok [] = Inr True"
| "items_ok (item # items) = bind_sum (item_ok item) (\<lambda>ok. if ok then items_ok items else Inr False)"

definition bad_request :: "string \<Rightarrow> response" where
  "bad_request text = \<lparr>res_code = 400, res_body = ErrorBody text\<rparr>"

definition post_orders :: "js \<Rightarrow> response relay_op" where
  "post_orders body r w =
     (let fail = (Inr \<lparr>res_code = 500, res_body = ErrorBody ''Failed to create order''\<rparr>)
      in case (member body ''user_id'', member body ''items'', member body ''currency'') of
        (Inr user, Inr (JArr items), Inr currency) \<Rightarrow>
          if \<not> truthy user \<or> items = [] then (Inr (bad_request ''Missing required fields: user_id, items (non-empty array)''), r, w)
          else (case items_ok items of
            Inl e \<Rightarrow> (fail, r, w)
          | Inr False \<Rightarrow> (Inr (bad_request ''Invalid item format. Required: sku, name, price, quantity''), r, w)
          | Inr True \<Rightarrow>
             (case accept_order user items
                 \<lparr>co_correlationId = None, co_causationId = None, co_currency = currency\<rparr> r w of
                (Inl e, r', w') \<Rightarrow> (fail, r', w')
              | (Inr ord, r', w') \<Rightarrow>
                  (Inr \<lparr>res_code = 202, res_body =
                     AcceptedBody (order_id ord) (order_total_amount ord) (order_created_at ord)\<rparr>, r', w')))
      | (Inr user, Inr items, Inr currency) \<Rightarrow> (Inr (bad_request ''Missing required fields: user_id, items (non-empty array)''), r, w)
      | _ \<Rightarrow> (fail, r, w))"

definition get_orders :: "js \<Rightarrow> response op" where
  "get_orders limit = or_500 ''Failed to list orders''
     (bindE (with_limit limit listOrders) (\<lambda>os. reply_with 200 (OrdersBody os)))"

definition get_order :: "string \<Rightarrow> response op" where
  "get_order i = or_500 ''Failed to fetch order''
     (bindE (getOrder i) (\<lambda>found.
        case found of
          None \<Rightarrow> reply_with 404 (ErrorBody ''Order not found'')
        | Some ord \<Rightarrow>
            bindE (getOrderEvents (view_id ord)) (\<lambda>events.
            bindE (getSagaByAggregateId Pool (view_id ord)) (\<lambda>saga.
              reply_with 200 (OrderBody ord (map_option state saga) events)))))"

definition get_order_events :: "string \<Rightarrow> response op" where
  "get_order_events i = or_500 ''Failed to fetch order events''
     (bindE (getEventsByAggregateId i) (\<lambda>events. reply_with 200 (EventsBody i events)))"

definition get_timeline :: "string \<Rightarrow> response op" where
  "get_timeline i = or_500 ''Failed to fetch timeline''
     (bindE (getOrderEvents i) (\<lambda>events. reply_with 200 (TimelineBody i events)))"

section \<open>Sagas, metrics, dead letters and replays\<close>

definition get_sagas :: "js \<Rightarrow> response op" where
  "get_sagas limit = or_500 ''Failed to list sagas''
     (bindE (with_limit limit listSagas) (\<lambda>sagas. reply_with 200 (SagasBody sagas)))"

definition get_saga :: "string \<Rightarrow> response op" where
  "get_saga i = or_500 ''Failed to fetch saga''
     (bindE (getSagaInstance Pool i) (\<lambda>found.
        case found of
          None \<Rightarrow> reply_with 404 (ErrorBody ''Saga not found'')
        | Some s \<Rightarrow> reply_with 200 (SagaBody s)))"

text \<open>The state of the app: a counter and the durations of at most 10000 requests.\<close>

record http =
  httpRequestsTotal :: nat
  httpDurations :: "nat list"

text \<open>\<open>sorted[Math.floor(sorted.length * q)] || 0\<close>, the product in doubles.\<close>

definition percentile_index :: "rat \<Rightarrow> nat \<Rightarrow> nat" where
  "percentile_index q n = (case js_mul (Fin (of_nat n)) (fl q) of Fin x \<Rightarrow> nat \<lfloor>x\<rfloor> | _ \<Rightarrow> 0)"

definition percentile :: "rat \<Rightarrow> nat list \<Rightarrow> nat" where
  "percentile q ds = (let i = percentile_index q (length ds) in if i < length ds then ds ! i else 0)"

definition latency_report :: "nat list \<Rightarrow> latency_report" where
  "latency_report ds = (let s = sort ds in
     \<lparr>p50_ms = percentile (1 / 2) s, p95_ms = percentile (95 / 100) s, p99_ms = percentile (99 / 100) s,
      lat_samples = length s\<rparr>)"

definition active_saga :: "saga_row \<Rightarrow> bool" where
  "active_saga s \<longleftrightarrow> state s \<notin> {COMPLETED, CANCELLED, FAILED}"

definition get_metrics :: "http \<Rightarrow> response op" where
  "get_metrics h = or_500 ''Failed to fetch metrics''
     (bindE getMetrics (\<lambda>m.
      bindE (listSagas 100) (\<lambda>sagas.
      bindE (listDLQMessages 100 UNRESOLVED) (\<lambda>letters.
      bindE getConsumersStatus (\<lambda>cs.
        reply_with 200 (MetricsBody m (httpRequestsTotal h) (latency_report (httpDurations h))
          (length (filter active_saga sagas)) (length letters) cs))))))"

definition get_dlq :: "js \<Rightarrow> js \<Rightarrow> response op" where
  "get_dlq limit st = or_500 ''Failed to fetch DLQ messages''
     (bindE (with_limit limit (list_letters st)) (\<lambda>ls. reply_with 200 (LettersBody ls)))"

definition get_dlq_message :: "string \<Rightarrow> response op" where
  "get_dlq_message i = or_500 ''Failed to fetch DLQ message''
     (bindE (getDLQMessage i) (\<lambda>found.
        case found of
          None \<Rightarrow> reply_with 404 (ErrorBody ''DLQ message not found'')
        | Some q \<Rightarrow> reply_with 200 (LetterBody q)))"

text \<open>The replay service is optional; with it, the projection consumer may be there or not.\<close>

definition post_dlq_replay :: "bool option \<Rightarrow> string \<Rightarrow> response op" where
  "post_dlq_replay replayService i = or_500_message
     (case replayService of
        None \<Rightarrow> reply_with 503 (ErrorBody ''Replay service not available'')
      | Some hasProjection \<Rightarrow> bindE (replayDLQ i) (\<lambda>r. reply_with 200 (ReplayBody r)))"

text \<open>An \<open>aggregate_id\<close> that is not a string reaches the database as its text.\<close>

definition post_replay :: "bool option \<Rightarrow> js \<Rightarrow> response op" where
  "post_replay replayService body = or_500_message
     (case replayService of
        None \<Rightarrow> reply_with 503 (ErrorBody ''Replay service not available'')
      | Some hasProjection \<Rightarrow>
          bindE (liftE (member body ''aggregate_id'')) (\<lambda>agg.
          if \<not> truthy agg then reply_with 400 (ErrorBody ''aggregate_id is required for replay'')
          else bindE (replayAggregate hasProjection (case pg_param agg of Some s \<Rightarrow> s | None \<Rightarrow> []))
                 (\<lambda>r. reply_with 200 (ReplayBody r))))"

section \<open>Chaos controls\<close>

fun switch_fault :: "chaos_switch \<Rightarrow> bool \<Rightarrow> chaos_fault" where
  "switch_fault ChaosPayment b = SetPaymentFailure b"
| "switch_fault ChaosInventory b = SetInventoryFailure b"
| "switch_fault ChaosFraudRejection b = SetFraudRejection b"
| "switch_fault ChaosShipping b = SetShippingFailure b"
| "switch_fault ChaosNotification b = SetNotificationFailure b"

definition update_chaos :: "(chaos_config \<Rightarrow> chaos_config) \<Rightarrow> response op" where
  "update_chaos f =
     thenE (modifyE (\<lambda>w. w\<lparr>chaos := f (chaos w)\<rparr>))
           (bindE (getsE chaos) (\<lambda>c. reply_with 200 (ChaosBody c (isChaosActive c))))"

text \<open>\<open>req.body.enabled !== false\<close>.\<close>

definition post_chaos_switch :: "chaos_switch \<Rightarrow> js \<Rightarrow> response op" where
  "post_chaos_switch s body =
     bindE (liftE (member body ''enabled'')) (\<lambda>v.
       update_chaos (setFault [switch_fault s (v \<noteq> JBool False)]))"

definition post_chaos_latency :: "js \<Rightarrow> response op" where
  "post_chaos_latency body =
     bindE (liftE (member body ''latency_ms'')) (\<lambda>v.
       let n = js_number v; ms = (if n = NaN \<or> n = Fin 0 then Fin 2000 else n)
       in update_chaos (setFault [SetFraudLatency ms]))"

section \<open>The app\<close>

definition no_relay :: "'a op \<Rightarrow> 'a relay_op" where
  "no_relay m r w = (case m w of (x, w') \<Rightarrow> (x, r, w'))"

fun handle_request :: "bool option \<Rightarrow> http \<Rightarrow> request \<Rightarrow> response relay_op" where
  "handle_request rs h GetHealth = no_relay get_health"
| "handle_request rs h GetReady = no_relay get_ready"
| "handle_request rs h (PostOrders body) = post_orders body"
| "handle_request rs h (GetOrders limit) = no_relay (get_orders limit)"
| "handle_request rs h (GetOrder i) = no_relay (get_order i)"
| "handle_request rs h (GetOrderEventsOf i) = no_relay (get_order_events i)"
| "handle_request rs h (GetTimeline i) = no_relay (get_timeline i)"
| "handle_request rs h (GetSagas limit) = no_relay (get_sagas limit)"
| "handle_request rs h (GetSaga i) = no_relay (get_saga i)"
| "handle_request rs h GetConsumers = no_relay (bindE getConsumersStatus (\<lambda>cs. reply_with 200 (ConsumersBody cs)))"
| "handle_request rs h GetMetrics = no_relay (get_metrics h)"
| "handle_request rs h (GetDlq limit st) = no_relay (get_dlq limit st)"
| "handle_request rs h (GetDlqMessage i) = no_relay (get_dlq_message i)"
| "handle_request rs h (PostDlqReplay i) = no_relay (post_dlq_replay rs i)"
| "handle_request rs h (PostReplay body) = no_relay (post_replay rs body)"
| "handle_request rs h GetChaos = no_relay (bindE (getsE chaos) (\<lambda>c. reply_with 200 (ChaosBody c (isChaosActive c))))"
| "handle_request rs h (PostChaosSwitch s body) = no_relay (post_chaos_switch s body)"
| "handle_request rs h (PostChaosLatency body) = no_relay (post_chaos_latency body)"
| "handle_request rs h PostChaosReset = no_relay (update_chaos reset)"

text \<open>
  \<open>res.on('finish', ...)\<close>: the first 10000 durations are kept, then each new one replaces
  one drawn at random.
\<close>

definition finish_request :: "nat \<Rightarrow> http \<Rightarrow> http op" where
  "finish_request started h =
     bindE clock (\<lambda>t. let duration = t - started in
     if length (httpDurations h) < 10000
     then returnE \<lparr>httpRequestsTotal = Suc (httpRequestsTotal h), httpDurations = httpDurations h @ [duration]\<rparr>
     else bindE (random_below (length (httpDurations h))) (\<lambda>k.
            returnE \<lparr>httpRequestsTotal = Suc (httpRequestsTotal h), httpDurations = (httpDurations h)[k := duration]\<rparr>))"

text \<open>A request from its arrival to its response; a handler that throws sends none.\<close>

definition serve :: "bool option \<Rightarrow> request \<Rightarrow> http \<Rightarrow> relay \<Rightarrow> world \<Rightarrow> response option \<times> http \<times> relay \<times> world" where
  "serve rs req h r w =
     (case handle_request rs h req r w of
        (Inl e, r', w') \<Rightarrow> (None, h, r', w')
      | (Inr res, r', w') \<Rightarrow>
          (case finish_request (now w) h w' of
             (Inr h', w'') \<Rightarrow> (Some res, h', r', w'')
           | (Inl e, w'') \<Rightarrow> (Some res, h, r', w'')))"

end
