(* ===== verification/Rounding.thy ===== *)
theory Rounding
  imports Js_Number
begin

text \<open>
  The relative error of a rounded result: what the percentile indices need of doubles
  that are not whole numbers.
\<close>

lemma round_half_even_error: "\<bar>of_int (round_half_even x) - x\<bar> \<le> 1 / 2"
proof -
  define f where "f = \<lfloor>x\<rfloor>"
  have "of_int f \<le> x" "x < of_int f + 1" unfolding f_def using floor_correct [of x] by simp_all
  then show ?thesis
    unfolding round_half_even_def Let_def f_def [symmetric] by (auto simp: abs_if)
qed

lemma pow_int_pos: "0 < pow_int 2 e"
  by (simp add: pow_int_def)

lemma pow_int_shift: "pow_int 2 (e - int k) = pow_int 2 e / 2 ^ k"
proof -
  obtain a b where e: "e = int a - int b" by (metis int_diff_cases)
  have "e - int k = int a - int (b + k)" by (simp add: e)
  then show ?thesis using pow_int_diff [of a b] pow_int_diff [of a "b + k"]
    by (simp only: e) (simp add: power_add)
qed

text \<open>A number that is neither tiny nor huge is rounded within one part in \<open>2 ^ 53\<close>.\<close>

lemma fl_near:
  assumes "1 / 4 \<le> x" "x < 2 ^ 100"
  shows "\<exists>y. fl x = Fin y \<and> \<bar>y - x\<bar> \<le> x / 2 ^ 53"
proof -
  define q where "q = max (ilog2 \<bar>x\<bar> - 52) (- 1074)"
  define y where "y = of_int (round_half_even (x / pow_int 2 q)) * pow_int 2 q"
  have x: "0 < x" using assms(1) by simp
  have "pow_int 2 (ilog2 x - int 52) \<le> x / 2 ^ 52"
    unfolding pow_int_shift using ilog2_lower [OF x] by (rule divide_right_mono) simp
  moreover have "pow_int 2 (- 1074) \<le> x / 2 ^ 52"
  proof -
    have "pow_int 2 (- 1074) \<le> pow_int 2 (- 54)" by (rule pow_int_mono) simp
    also have "\<dots> = 1 / 4 / 2 ^ 52" by (simp add: pow_int_def)
    also have "\<dots> \<le> x / 2 ^ 52" using assms(1) by (rule divide_right_mono) simp
    finally show ?thesis .
  qed
  ultimately have unit: "pow_int 2 q \<le> x / 2 ^ 52" using x by (simp add: q_def max_def)
  have "y - x = (of_int (round_half_even (x / pow_int 2 q)) - x / pow_int 2 q) * pow_int 2 q"
    using pow_int_pos [of q] by (simp add: y_def left_diff_distrib)
  then have "\<bar>y - x\<bar> = \<bar>of_int (round_half_even (x / pow_int 2 q)) - x / pow_int 2 q\<bar> * pow_int 2 q"
    using pow_int_pos [of q] by (simp add: abs_mult)
  also have "\<dots> \<le> 1 / 2 * pow_int 2 q"
    using round_half_even_error pow_int_pos [of q] by (intro mult_right_mono) auto
  also have "\<dots> \<le> 1 / 2 * (x / 2 ^ 52)" using unit by (intro mult_left_mono) auto
  finally have err: "\<bar>y - x\<bar> \<le> x / 2 ^ 53" by simp
  have "x / 2 ^ 53 \<le> x" using x by simp
  then have "\<bar>y\<bar> \<le> 2 * x" using err x by linarith
  also have "\<dots> < 2 ^ 101" using assms(2) by simp
  also have "\<dots> \<le> (2 :: rat) ^ 1024" by (rule power_increasing) simp_all
  finally have "\<not> 2 ^ 1024 \<le> \<bar>y\<bar>" by (simp only: not_le)
  then have "fl x = Fin y"
    using x unfolding fl_def Let_def q_def [symmetric] y_def [symmetric] by simp
  with err show ?thesis by blast
qed

text \<open>The product of a count and a fraction, both rounded.\<close>

lemma js_mul_fraction:
  assumes "1 / 2 \<le> c" "c \<le> 1" "0 < n" "n < 2 ^ 60"
  shows "\<exists>y. js_mul (Fin (of_nat n)) (fl c) = Fin y \<and> \<bar>y - of_nat n * c\<bar> \<le> of_nat n * c / 2 ^ 51"
proof -
  let ?n = "of_nat n :: rat" and ?e = "1 / 2 ^ 53 :: rat"
  have "c < 2 ^ 100" "1 / 4 \<le> c" using assms(1,2) by simp_all
  then obtain d where d: "fl c = Fin d" "\<bar>d - c\<bar> \<le> c / 2 ^ 53" using fl_near by blast
  have n: "1 \<le> ?n" "?n < 2 ^ 60"
    using assms(3,4) by simp_all
  have "\<bar>d - c\<bar> \<le> c / 4" using d(2) assms(1) by simp
  then have bound: "1 / 4 \<le> d" "d \<le> 2 * c" "d \<le> 2" using assms(1,2) by linarith+
  have "1 / 4 \<le> ?n * d" using mult_mono [OF n(1) bound(1)] n bound by simp
  moreover have "?n * d < 2 ^ 100"
  proof -
    have "?n * d \<le> ?n * 2" using bound(3) n(1) by (intro mult_left_mono) simp_all
    also have "\<dots> < 2 ^ 100" using n(2) by simp
    finally show ?thesis .
  qed
  ultimately obtain y where y: "fl (?n * d) = Fin y" "\<bar>y - ?n * d\<bar> \<le> ?n * d / 2 ^ 53" using fl_near by blast
  have "?n * d \<le> 2 * (?n * c)" using mult_left_mono [OF bound(2), of ?n] n(1) by simp
  moreover have "\<bar>?n * d - ?n * c\<bar> \<le> ?n * c / 2 ^ 53"
  proof -
    have "\<bar>?n * d - ?n * c\<bar> = ?n * \<bar>d - c\<bar>" using n(1) by (simp add: right_diff_distrib [symmetric] abs_mult)
    also have "\<dots> \<le> ?n * (c / 2 ^ 53)" using d(2) n(1) by (intro mult_left_mono) simp_all
    finally show ?thesis by simp
  qed
  moreover have "0 \<le> ?n * c" using n(1) assms(1) by simp
  ultimately have "\<bar>y - ?n * c\<bar> \<le> ?n * c / 2 ^ 51"
    using y(2) abs_triangle_ineq [of "y - ?n * d" "?n * d - ?n * c"] by simp
  then show ?thesis using y(1) d(1) by simp
qed

end
