(* ===== verification/Order_Props.thy ===== *)
theory Order_Props
  imports Order_Service Outbox_Props Provenance
begin

text \<open>
  Properties of the acceptance of orders: the order and its event are written together, the
  event of an accepted order reaches the consumers with the identity of the order, the
  total of an order of whole prices is exact, and what the short random identifiers risk.
\<close>

section \<open>The request\<close>

text \<open>What an acceptance draws and computes in the world it starts in.\<close>

definition request_id :: "world \<Rightarrow> string" where
  "request_id w = ''ord_'' @ take 8 (uuid_src w (uuid_next w))"

definition request_event :: "js \<Rightarrow> js list \<Rightarrow> create_options \<Rightarrow> jnum \<Rightarrow> world \<Rightarrow> outbox_event" where
  "request_event user items opts tot w =
     order_event (''evt_'' @ take 8 (uuid_src w (Suc (uuid_next w)))) (request_id w) opts
       (order_created_payload (request_id w) user items tot (co_currency opts))"

definition request_order :: "js \<Rightarrow> js list \<Rightarrow> jnum \<Rightarrow> world \<Rightarrow> order" where
  "request_order user items tot w = new_order (request_id w) user items tot (now w)"

definition after_draws :: "world \<Rightarrow> world" where
  "after_draws w = w\<lparr>uuid_next := Suc (Suc (uuid_next w))\<rparr>"

lemma after_draws_simps [simp]:
  "db (after_draws w) = db w" "bus (after_draws w) = bus w" "now (after_draws w) = now w"
  "db_script (after_draws w) = db_script w" "kafka_script (after_draws w) = kafka_script w"
  by (simp_all add: after_draws_def)

lemma createOrder_run:
  assumes "order_total (Fin 0) items = Inr tot"
  shows "createOrder user items opts w =
    thenE (order_transaction (request_order user items tot w) (request_event user items opts tot w))
          (returnE (request_order user items tot w)) (after_draws w)"
  by (simp add: createOrder_def run_defs uuid8_def uuid_def clock_def Let_def assms request_order_def request_event_def
    request_id_def after_draws_def split: prod.split sum.split)

lemma createOrder_bad_items:
  "order_total (Fin 0) items = Inl err \<Longrightarrow> createOrder user items opts w = (Inl err, w\<lparr>uuid_next := Suc (uuid_next w)\<rparr>)"
  by (simp add: createOrder_def run_defs Let_def)

section \<open>Atomicity\<close>

text \<open>The order and the event are both in the database.\<close>

definition order_stored :: "string \<Rightarrow> outbox_event \<Rightarrow> database \<Rightarrow> bool" where
  "order_stored i ev d \<longleftrightarrow>
     (\<exists>row. lookup_row or_id i (orders d) = Some row \<and> or_status row = ''pending'') \<and>
     (\<exists>t. lookup_row ob_id (ev_id ev) (outbox_events d) = Some (new_outbox_row t ev))"

lemma insertOrder_InrD:
  "insertOrder Client ord w = (Inr v, w') \<Longrightarrow>
   \<exists>usr amount. db w' = (db w)\<lparr>orders := upsert or_id merge_order (new_order_row ord usr amount) (orders (db w))\<rparr>"
  unfolding insertOrder_def by (drule query_InrD) (auto simp: insertOrder_stmt_def bind_sum_Inr dest: sym)

lemma transaction_body:
  assumes "thenE (insertOrder Client ord) (insertOutboxEvent Client ev) w = (Inr u, w')"
    and "order_status ord = ''pending''" "lookup_row ob_id (ev_id ev) (outbox_events (db w)) = None"
  shows "order_stored (order_id ord) ev (db w') \<and> \<not> tx_aborted w'"
proof -
  obtain v w1 where 1: "insertOrder Client ord w = (Inr v, w1)" and 2: "insertOutboxEvent Client ev w1 = (Inr u, w')"
    using thenE_InrD [OF assms(1)] by blast
  obtain usr amount where d1: "db w1 = (db w)\<lparr>orders := upsert or_id merge_order
      (new_order_row ord usr amount) (orders (db w))\<rparr>"
    using insertOrder_InrD [OF 1] by blast
  obtain t where d2: "db w' = (db w1)\<lparr>outbox_events := insert_ignore ob_id (new_outbox_row t ev) (outbox_events (db w1))\<rparr>"
    using query_writes_InrD [OF 2 [unfolded insertOutboxEvent_def]] by auto
  let ?r = "new_order_row ord usr amount"
  have id: "or_id ?r = order_id ord" "or_status ?r = ''pending''" using assms(2) by (simp_all add: new_order_row_def)
  have "\<exists>row. lookup_row or_id (order_id ord) (orders (db w')) = Some row \<and> or_status row = ''pending''"
    using order.lookup_upsert_same [of ?r "orders (db w)"] id
    by (auto simp: d1 d2 merge_order_def split: option.splits)
  moreover have "lookup_row ob_id (ev_id ev) (outbox_events (db w')) = Some (new_outbox_row t ev)"
  proof -
    have "ob_id (new_outbox_row t ev) = ev_id ev" by (simp add: new_outbox_row_def)
    then show ?thesis
      using assms(3) by (simp add: d1 d2 lookup_insert_ignore lookup_row_None)
  qed
  moreover have "\<not> tx_aborted w'" using query_Client_InrD [OF 2 [unfolded insertOutboxEvent_def]] by simp
  ultimately show ?thesis by (auto simp: order_stored_def)
qed

lemma order_event_together:
  assumes "order_total (Fin 0) items = Inr tot"
    and "lookup_row ob_id (ev_id (request_event user items opts tot w)) (outbox_events (db w)) = None"
    and "createOrder user items opts w = (res, w')"
  shows "(db w' = db w \<or> order_stored (request_id w) (request_event user items opts tot w) (db w')) \<and>
    (\<forall>ord. res = Inr ord \<longrightarrow> ord = request_order user items tot w \<and>
       order_stored (request_id w) (request_event user items opts tot w) (db w'))"
proof -
  let ?ord = "request_order user items tot w" and ?ev = "request_event user items opts tot w"
  let ?body = "thenE (insertOrder Client ?ord) (insertOutboxEvent Client ?ev)"
  have ord: "order_id ?ord = request_id w" "order_status ?ord = ''pending''"
    by (simp_all add: request_order_def new_order_def)
  obtain q w1 where q: "order_transaction ?ord ?ev (after_draws w) = (q, w1)" by fastforce
  have w1: "w' = w1" "\<And>r. res = Inr r \<Longrightarrow> r = ?ord \<and> (\<exists>u. q = Inr u)"
    using assms(3) by (auto simp: createOrder_run [OF assms(1)] thenE_def bindE_def q returnE_def split: sum.splits)
  have stored: "order_stored (request_id w) ?ev (db w3) \<and> \<not> tx_aborted w3"
    if "?body w2 = (Inr x, w3)" "db w2 = db (after_draws w)" for w2 x w3
    using transaction_body [OF that(1) ord(2)] that(2) assms(2) ord(1) by simp
  have "db w' = db w \<or> order_stored (request_id w) ?ev (db w')"
    using withTransaction_atomic [of ?body "after_draws w"] stored q w1(1)
    unfolding order_transaction_def by (metis after_draws_simps(1) snd_conv)
  moreover have "ord = ?ord \<and> order_stored (request_id w) ?ev (db w')" if res: "res = Inr ord" for ord
  proof -
    obtain u where u: "ord = ?ord" "withTransaction ?body (after_draws w) = (Inr u, w1)"
      using w1(2) [OF res] q unfolding order_transaction_def by auto
    from withTransaction_InrD [OF u(2)] obtain w2 w3 where w3: "db w2 = db (after_draws w)" "?body w2 = (Inr u, w3)"
      "if tx_aborted w3 then db w1 = db (after_draws w) else db w1 = db w3" by blast
    have "order_stored (request_id w) ?ev (db w3)" "\<not> tx_aborted w3" using stored [OF w3(2,1)] by simp_all
    then show ?thesis using u(1) w1(1) w3(3) by simp
  qed
  ultimately show ?thesis by simp
qed

text \<open>C6: an order and its event are stored together or not at all.  Whatever the database does
  while an order is accepted, afterwards it is as it was, or it holds both the order,
  pending, and the unpublished OrderCreated event of this order; and when \<open>createOrder\<close>
  returns the order, both are there.  The identifier drawn for the event is assumed to be
  new.\<close>

theorem order_and_event_atomic:
  assumes "order_total (Fin 0) items = Inr tot"
    and "lookup_row ob_id (ev_id (request_event user items opts tot w)) (outbox_events (db w)) = None"
    and "createOrder user items opts w = (res, w')"
  shows "(db w' = db w \<or> order_stored (request_id w) (request_event user items opts tot w) (db w')) \<and>
    (\<forall>ord. res = Inr ord \<longrightarrow> ord = request_order user items tot w \<and>
       order_stored (request_id w) (request_event user items opts tot w) (db w'))"
  using assms by (rule order_event_together)

section \<open>The way to the consumers\<close>

lemma begin_tx_more [simp]:
  "db_script (begin_tx w) = db_script w" "kafka_script (begin_tx w) = kafka_script w"
  "now (begin_tx w) = now w" "tx_time (begin_tx w) = now w" "\<not> tx_aborted (begin_tx w)"
  by (simp_all add: begin_tx_def)

text \<open>The world after an order has been stored, with nothing failing.\<close>

definition order_written :: "js \<Rightarrow> js list \<Rightarrow> create_options \<Rightarrow> jnum \<Rightarrow> string \<Rightarrow> jnum \<Rightarrow> world \<Rightarrow> world" where
  "order_written user items opts tot usr amount w = (after_draws w)
     \<lparr>tx_aborted := False, tx_time := now w,
      db := (db w)\<lparr>orders := upsert or_id merge_order
          (new_order_row (request_order user items tot w) usr amount) (orders (db w)),
        outbox_events := insert_ignore ob_id (new_outbox_row (now w) (request_event user items opts tot w))
          (outbox_events (db w))\<rparr>\<rparr>"

lemma createOrder_calm:
  assumes "order_total (Fin 0) items = Inr tot" "text_column 100 user = Inr usr" "pg_decimal (JNum tot) = Inr amount"
    and "db_script w = []"
  shows "createOrder user items opts w = (Inr (request_order user items tot w), order_written user items opts tot usr amount w)"
proof -
  define ord where "ord = request_order user items tot w"
  define ev where "ev = request_event user items opts tot w"
  have tot: "order_total_amount ord = tot" "order_user_id ord = user" by (simp_all add: ord_def request_order_def new_order_def)
  show ?thesis
    unfolding createOrder_run [OF assms(1)] order_written_def ord_def [symmetric] ev_def [symmetric]
    by (simp add: assms order_transaction_def withTransaction_def thenE_def bindE_def insertOrder_def
        insertOrder_stmt_def tot insertOutboxEvent_def writes_def returnE_def begin_tx_def after_draws_def)
qed

text \<open>The envelope in which the consumers receive the event of a request.\<close>

definition published_envelope :: "string \<Rightarrow> nat \<Rightarrow> outbox_event \<Rightarrow> envelope" where
  "published_envelope worker t ev = relay_envelope worker (new_outbox_row t ev)"

lemma or_string_default: "d \<noteq> [] \<Longrightarrow> or_string x d \<noteq> []"
  by (simp add: or_string_def split: option.split)

lemma published_envelope_simps [simp]:
  "event_id (published_envelope v t ev) = ev_id ev" "event_type (published_envelope v t ev) = ev_eventType ev"
  "aggregate_id (published_envelope v t ev) = ev_aggregateId ev"
  "correlation_id (published_envelope v t ev) = ev_correlationId ev"
  "causation_id (published_envelope v t ev) = ev_causationId ev"
  "payload (published_envelope v t ev) = obj_json (ev_payload ev)"
  by (simp_all add: published_envelope_def relay_envelope_def new_outbox_row_def)

lemma published_envelope_valid:
  assumes "iso_year t < 10000"
  shows "valid_envelope (published_envelope v t (request_event user items opts tot w))"
proof -
  have "event_of_name ''OrderCreated'' = OrderCreated" by code_simp
  then show ?thesis
    using iso_prefix_toISOString [OF assms]
    by (simp add: valid_envelope_def published_envelope_def relay_envelope_def new_outbox_row_def
        request_event_def order_event_def request_id_def or_string_default or_int_def)
qed

lemma same_message_relay:
  "same_message q x \<Longrightarrow> relay_message v t x = relay_message v t q"
  by (cases q; cases x) (simp add: same_message_def relay_message_def relay_envelope_def)

text \<open>An accepted order, followed by the sweep that the acceptance triggers.\<close>

lemma accept_order_run:
  assumes "order_total (Fin 0) items = Inr tot" "text_column 100 user = Inr usr" "pg_decimal (JNum tot) = Inr amount"
    and "db_script w = []" "kafka_script w = []"
    and "isRunning r" "\<not> isProcessing r" "workerId r \<noteq> []"
  shows "accept_order user items opts r w =
    (Inr (request_order user items tot w), r, swept r (order_written user items opts tot usr amount w))"
proof -
  have w1: "db_script (order_written user items opts tot usr amount w) = []"
    "kafka_script (order_written user items opts tot usr amount w) = []"
    using assms(4,5) by (simp_all add: order_written_def)
  show ?thesis
    using assms(6,7) processBatch_run [OF w1 assms(7,8)]
    by (simp add: accept_order_def createOrder_calm [OF assms(1-4)] trigger_def)
qed

text \<open>Its outbox row and the messages of the sweep.\<close>

definition request_row :: "js \<Rightarrow> js list \<Rightarrow> create_options \<Rightarrow> jnum \<Rightarrow> world \<Rightarrow> outbox_row" where
  "request_row user items opts tot w = new_outbox_row (now w) (request_event user items opts tot w)"

definition request_message :: "relay \<Rightarrow> js \<Rightarrow> js list \<Rightarrow> create_options \<Rightarrow> jnum \<Rightarrow> world \<Rightarrow> message" where
  "request_message r user items opts tot w =
     relay_message (workerId r) (toISOString (now w)) (request_row user items opts tot w)"

lemma request_swept:
  assumes "db_script w = []" "kafka_script w = []" "\<not> isProcessing r" "workerId r \<noteq> []"
    and ok: "lease_table_ok (outbox_events (db w))"
    and room: "length (filter (eligible (now w)) (outbox_events (db w))) < batchSize r"
    and new: "lookup_row ob_id (ev_id (request_event user items opts tot w)) (outbox_events (db w)) = None"
  shows "\<exists>sent. length sent = Suc (length (filter (eligible (now w)) (outbox_events (db w)))) \<and>
    request_message r user items opts tot w \<in> set sent \<and>
    bus (swept r (order_written user items opts tot usr amount w)) = bus w @ sent \<and>
    (\<exists>y \<in> set (outbox_events (db (swept r (order_written user items opts tot usr amount w)))).
       ob_id y = ev_id (request_event user items opts tot w) \<and> ob_status y = ObPublished)"
proof -
  let ?q = "request_row user items opts tot w" and ?w1 = "order_written user items opts tot usr amount w"
  have fresh: "outbox_events (db ?w1) = outbox_events (db w) @ [?q]"
    using new by (auto simp: order_written_def insert_ignore_def request_row_def new_outbox_row_def lookup_row_None)
  have w1: "db_script ?w1 = []" "kafka_script ?w1 = []" "now ?w1 = now w" "bus ?w1 = bus w"
    using assms(1,2) by (simp_all add: order_written_def)
  have "lease_row_ok ?q" by (simp add: request_row_def lease_row_ok_def new_outbox_row_def)
  then have ok1: "lease_table_ok (outbox_events (db ?w1))"
    using lease_table_ok_insert [OF ok, of ?q] by (simp add: order_written_def request_row_def)
  have q: "eligible (now w) ?q" by (simp add: request_row_def eligible_def new_outbox_row_def)
  have n: "length (filter (eligible (now w)) (outbox_events (db ?w1))) =
      Suc (length (filter (eligible (now w)) (outbox_events (db w))))"
    by (simp add: fresh q)
  from processBatch_sends [OF w1(1,2) assms(3,4) ok1] obtain rows where
    rows: "length rows = min (batchSize r) (length (filter (eligible (now w)) (outbox_events (db ?w1))))"
    and bus: "bus (swept r ?w1) = bus w @ map (relay_message (workerId r) (toISOString (now w))) rows"
    and pub: "\<And>x. x \<in> set rows \<Longrightarrow> \<exists>y \<in> set (outbox_events (db (swept r ?w1))). ob_id y = ob_id x \<and> ob_status y = ObPublished"
    and all: "\<And>y. length (filter (eligible (now w)) (outbox_events (db ?w1))) \<le> batchSize r \<Longrightarrow>
      y \<in> set (outbox_events (db ?w1)) \<Longrightarrow> eligible (now w) y \<Longrightarrow> \<exists>x \<in> set rows. same_message y x"
    unfolding w1 by blast
  obtain x where x: "x \<in> set rows" "same_message ?q x"
    using all [of ?q] room q by (auto simp: n fresh)
  have "request_message r user items opts tot w = relay_message (workerId r) (toISOString (now w)) x"
    by (simp add: request_message_def same_message_relay [OF x(2)])
  then have m: "request_message r user items opts tot w \<in> set (map (relay_message (workerId r) (toISOString (now w))) rows)"
    using x(1) by simp
  have y: "\<exists>y \<in> set (outbox_events (db (swept r ?w1))).
      ob_id y = ev_id (request_event user items opts tot w) \<and> ob_status y = ObPublished"
    using pub [OF x(1)] x(2) by (simp add: same_message_def request_row_def new_outbox_row_def)
  show ?thesis
    using rows room m bus y by (intro exI [of _ "map (relay_message (workerId r) (toISOString (now w))) rows"]) (simp add: n)
qed

lemma request_message_read:
  assumes "iso_year (now w) < 10000"
  shows "m_topic (request_message r user items opts tot w) = OrdersTopic"
    "m_key (request_message r user items opts tot w) = request_id w"
    "m_value (request_message r user items opts tot w) =
       wire_of (js_of_envelope (published_envelope (workerId r) (now w) (request_event user items opts tot w)))"
    "parse_result (m_value (request_message r user items opts tot w)) v =
       (Inr (Inr (published_envelope (workerId r) (now w) (request_event user items opts tot w))), v)"
proof -
  show 1: "m_value (request_message r user items opts tot w) =
       wire_of (js_of_envelope (published_envelope (workerId r) (now w) (request_event user items opts tot w)))"
    by (simp add: request_message_def relay_message_def published_envelope_def request_row_def)
  show "m_topic (request_message r user items opts tot w) = OrdersTopic"
    "m_key (request_message r user items opts tot w) = request_id w"
    by (simp_all add: request_message_def relay_message_def request_row_def new_outbox_row_def request_event_def order_event_def)
  show "parse_result (m_value (request_message r user items opts tot w)) v =
       (Inr (Inr (published_envelope (workerId r) (now w) (request_event user items opts tot w))), v)"
    unfolding 1 using parse_result_valid [OF published_envelope_valid [OF assms]]
    by (simp add: published_envelope_def relay_envelope_def new_outbox_row_def)
qed

text \<open>C17: an accepted order reaches the consumers.  While nothing fails, the relay runs, and
  fewer rows of the outbox are waiting to be claimed than one batch takes (published rows,
  which stay in the table, do not count), \<open>createOrder\<close> followed by the relay's \<open>trigger\<close> puts on the topic of the
  orders, keyed by the order, a message that every consumer reads as the OrderCreated event
  of this order with the identifiers of the request; the outbox row is PUBLISHED.\<close>

theorem accepted_order_is_published:
  assumes "order_total (Fin 0) items = Inr tot" "text_column 100 user = Inr usr" "pg_decimal (JNum tot) = Inr amount"
    and "db_script w = []" "kafka_script w = []" "iso_year (now w) < 10000"
    and "isRunning r" "\<not> isProcessing r" "workerId r \<noteq> []"
    and "lease_table_ok (outbox_events (db w))"
    and "length (filter (eligible (now w)) (outbox_events (db w))) < batchSize r"
    and "lookup_row ob_id (ev_id (request_event user items opts tot w)) (outbox_events (db w)) = None"
  shows "\<exists>w' m. accept_order user items opts r w = (Inr (request_order user items tot w), r, w') \<and>
    m \<in> set (bus w') \<and> m_topic m = OrdersTopic \<and> m_key m = request_id w \<and>
    (\<forall>v. parse_result (m_value m) v =
       (Inr (Inr (published_envelope (workerId r) (now w) (request_event user items opts tot w))), v)) \<and>
    (\<exists>y \<in> set (outbox_events (db w')).
       ob_id y = ev_id (request_event user items opts tot w) \<and> ob_status y = ObPublished)"
proof -
  let ?w' = "swept r (order_written user items opts tot usr amount w)"
  from request_swept [OF assms(4,5,8,9,10,11,12), of usr amount] obtain sent
    where "request_message r user items opts tot w \<in> set sent" "bus ?w' = bus w @ sent"
      "\<exists>y \<in> set (outbox_events (db ?w')). ob_id y = ev_id (request_event user items opts tot w) \<and> ob_status y = ObPublished"
    by blast
  then show ?thesis
    using accept_order_run [OF assms(1-5,7-9), of opts] request_message_read [OF assms(6), of r user items opts tot]
    by (intro exI [of _ ?w'] exI [of _ "request_message r user items opts tot w"]) simp
qed

section \<open>Short identifiers\<close>

text \<open>A colliding event identifier loses the event.  The identifiers of events are the first
  eight hexadecimal digits of a uuid.  When the drawn one is already in the outbox,
  \<open>ON CONFLICT DO NOTHING\<close> drops the new row: the order is stored and returned as accepted,
  while the outbox, and with it all that the relay can ever publish, is unchanged.\<close>

theorem colliding_event_id_drops_event:
  assumes "order_total (Fin 0) items = Inr tot" "text_column 100 user = Inr usr" "pg_decimal (JNum tot) = Inr amount"
    and "db_script w = []" "kafka_script w = []"
    and "lookup_row ob_id (ev_id (request_event user items opts tot w)) (outbox_events (db w)) = Some old"
  shows "\<exists>w'. createOrder user items opts w = (Inr (request_order user items tot w), w') \<and>
    lookup_row or_id (request_id w) (orders (db w')) \<noteq> None \<and>
    outbox_events (db w') = outbox_events (db w)"
proof -
  let ?ev = "request_event user items opts tot w"
  have "insert_ignore ob_id (new_outbox_row (now w) ?ev) (outbox_events (db w)) = outbox_events (db w)"
    using lookup_row_Some [OF assms(6)] by (auto simp: insert_ignore_def new_outbox_row_def image_iff intro: bexI [of _ old])
  moreover have "or_id (new_order_row (request_order user items tot w) usr amount) = request_id w"
    by (simp add: new_order_row_def request_order_def new_order_def)
  then have "lookup_row or_id (request_id w) (upsert or_id merge_order
      (new_order_row (request_order user items tot w) usr amount) (orders (db w))) \<noteq> None"
    using order.lookup_upsert_same [of "new_order_row (request_order user items tot w) usr amount"]
    by (simp split: option.split)
  ultimately show ?thesis using createOrder_calm [OF assms(1-4), of opts] by (auto simp: order_written_def)
qed

text \<open>A colliding order identifier rewrites an order of somebody else.  The row keeps the user
  and the total of the older order, loses its progress to \<open>pending\<close> and gets the items of the
  new one; the new order is returned as accepted.\<close>

theorem colliding_order_id_overwrites:
  assumes "order_total (Fin 0) items = Inr tot" "text_column 100 user = Inr usr" "pg_decimal (JNum tot) = Inr amount"
    and "db_script w = []" "kafka_script w = []"
    and "lookup_row or_id (request_id w) (orders (db w)) = Some old"
  shows "\<exists>w'. createOrder user items opts w = (Inr (request_order user items tot w), w') \<and>
    (\<exists>row. lookup_row or_id (request_id w) (orders (db w')) = Some row \<and>
       or_user_id row = or_user_id old \<and> or_total_amount row = or_total_amount old \<and>
       or_status row = ''pending'' \<and> or_metadata row = obj_json [(''items'', JArr items)])"
proof -
  let ?r = "new_order_row (request_order user items tot w) usr amount"
  have r: "or_id ?r = request_id w" "or_status ?r = ''pending''" "or_metadata ?r = obj_json [(''items'', JArr items)]"
    by (simp_all add: new_order_row_def request_order_def new_order_def)
  have "lookup_row or_id (request_id w) (upsert or_id merge_order ?r (orders (db w))) = Some (merge_order old ?r)"
    using order.lookup_upsert_same [of ?r "orders (db w)"] assms(6) by (simp add: r)
  then show ?thesis
    using createOrder_calm [OF assms(1-4), of opts] by (auto simp: order_written_def merge_order_def r)
qed

section \<open>Totals\<close>

text \<open>An item with a whole price and a whole quantity.\<close>

definition whole_item :: "js \<Rightarrow> int \<times> int \<Rightarrow> bool" where
  "whole_item item pq \<longleftrightarrow> member item ''price'' = Inr (num (of_int (fst pq))) \<and>
     member item ''quantity'' = Inr (num (of_int (snd pq)))"

lemma order_total_exact:
  assumes "list_all2 whole_item items pqs"
    and "\<bar>a\<bar> + (\<Sum>(p, q) \<leftarrow> pqs. \<bar>p * q\<bar>) < 2 ^ 53"
  shows "order_total (Fin (of_int a)) items = Inr (Fin (of_int (a + (\<Sum>(p, q) \<leftarrow> pqs. p * q))))"
  using assms
proof (induction arbitrary: a rule: list_all2_induct)
  case (Cons item items pq pqs)
  obtain p q where pq: "pq = (p, q)" by fastforce
  have nonneg: "0 \<le> (\<Sum>(p, q) \<leftarrow> pqs. \<bar>p * q\<bar>)" by (rule sum_list_nonneg) auto
  have b: "\<bar>a\<bar> + \<bar>p * q\<bar> + (\<Sum>(p, q) \<leftarrow> pqs. \<bar>p * q\<bar>) < 2 ^ 53" using Cons.prems by (simp add: pq)
  have "\<bar>p * q\<bar> < 2 ^ 53" "\<bar>a + p * q\<bar> < 2 ^ 53" using b nonneg abs_triangle_ineq [of a "p * q"] by linarith+
  then have "fl (of_int (p * q)) = Fin (of_int (p * q))" "fl (of_int (a + p * q)) = Fin (of_int (a + p * q))"
    by (simp_all only: fl_exact_int)
  then have step: "js_add (Fin (of_int a)) (js_mul (Fin (of_int p)) (Fin (of_int q))) = Fin (of_int (a + p * q))"
    by simp
  have "\<bar>a + p * q\<bar> + (\<Sum>(p, q) \<leftarrow> pqs. \<bar>p * q\<bar>) < 2 ^ 53"
    using b abs_triangle_ineq [of a "p * q"] by linarith
  from Cons.IH [OF this] show ?case
    using Cons.hyps(1) by (simp add: pq bind_sum_def num_def whole_item_def step add.assoc del: js_add.simps js_mul.simps of_int_add of_int_mult)
qed simp

text \<open>C33: the total of whole prices is exact.  When prices and quantities are whole numbers and the
  sum of the amounts stays below \<open>2 ^ 53\<close>, no product and no partial sum of the reduction is
  rounded: the total is the mathematical one.\<close>

theorem total_exact:
  assumes "list_all2 whole_item items pqs"
    and "(\<Sum>(p, q) \<leftarrow> pqs. \<bar>p * q\<bar>) < 2 ^ 53"
  shows "order_total (Fin 0) items = Inr (Fin (of_int (\<Sum>(p, q) \<leftarrow> pqs. p * q)))"
  using order_total_exact [OF assms(1), of 0] assms(2) by simp

section \<open>The older producer\<close>

text \<open>The older producer and the bridge agree.  What \<open>produceOrderCreatedEvent\<close> sends is one
  message, keyed by the order, on a topic the bridge subscribes to; and whenever the bridge
  handles it, it shows the order, with its user and its total, in the list of orders and then
  enters it in the order's timeline.\<close>

theorem legacy_order_reaches_sockets:
  assumes "produceOrderCreatedEvent ord w = (Inr u, w')" and "order_id ord \<noteq> []"
    and "order_total_amount ord = Fin total_amount" and user: "order_user_id ord = JStr user"
  shows "\<exists>m. bus w' = bus w @ [m] \<and> m_topic m \<in> set SUBSCRIBE_TOPICS \<and> m_key m = order_id ord \<and>
    (\<forall>v. \<exists>entry. handleEvent (m_value m) v = (Inr (), v\<lparr>sockets := sockets v @
       [WsOrderCreated (JObj [(''order_id'', JStr (order_id ord)), (''user_id'', JStr user),
          (''status'', JStr ''pending''), (''total_amount'', num total_amount)]),
        WsOrderEvent (order_id ord) entry]\<rparr>))"
proof -
  define i where "i = ''evt_'' @ uuid_src w (uuid_next w)"
  define m where "m = producer_message (OtherTopic ''orders'') ''order.created''
    (legacy_order_payload i (toISOString (now w)) ord) (order_id ord) (toISOString (now w))"
  have bus: "bus w' = bus w @ [m]"
    using producer_send_InrD [of "[m]" "w\<lparr>uuid_next := Suc (uuid_next w)\<rparr>" u w'] assms(1)
    by (simp add: produceOrderCreatedEvent_def producer_emit_def bindE_def uuid_def iso_now_def getsE_def m_def i_def)
  have key: "m_key m = order_id ord"
    using assms(2) by (cases "order_id ord") (simp_all add: m_def producer_message_def)
  have topic: "m_topic m \<in> set SUBSCRIBE_TOPICS" by (simp add: m_def producer_message_def SUBSCRIBE_TOPICS_def)
  define event where "event = obj_json (producer_value ''order.created'' (legacy_order_payload i (toISOString (now w)) ord))"
  have parsed: "wire_parse (m_value m) = Some (JObj event)"
    by (simp add: m_def producer_message_def wire_of_def event_def)
  define raw where "raw = producer_value ''order.created'' (legacy_order_payload i (toISOString (now w)) ord)"
  have "distinct (map fst raw)"
    by (simp add: raw_def producer_value_def legacy_order_payload_def obj_put_def distinct_update)
  then have get: "obj_get event k = to_json (obj_get raw k)" for k
    by (simp add: event_def raw_def [symmetric] obj_get_json)
  have fields: "obj_get event ''type'' = JStr ''order.created''" "obj_get event ''order_id'' = JStr (order_id ord)"
    "obj_get event ''user_id'' = JStr user" "obj_get event ''timestamp'' = JStr (toISOString (now w))"
    "obj_get event ''total_amount'' = num total_amount"
    by (simp_all add: get raw_def producer_value_def legacy_order_payload_def assms(3) user num_def)
  have table: "literal_get TOPIC_BY_TYPE ''order.created'' = Some (JStr ''orders'')"
    by (simp add: literal_get_def TOPIC_BY_TYPE_def)
  have "handleEvent (m_value m) v = bridge_event event ''order.created'' (order_id ord) (JStr ''orders'') v" for v
    by (simp add: handleEvent_def parsed fields table)
  moreover have "\<exists>entry. bridge_event event ''order.created'' (order_id ord) (JStr ''orders'') v = (Inr (), v\<lparr>sockets := sockets v @
       [WsOrderCreated (JObj [(''order_id'', JStr (order_id ord)), (''user_id'', JStr user),
          (''status'', JStr ''pending''), (''total_amount'', num total_amount)]), WsOrderEvent (order_id ord) entry]\<rparr>)" for v
    by (simp add: bridge_event_def fields bridge_summary_def gateway_defs run_defs number_or_zero_def num_def)
      (rule exI, rule refl)
  ultimately show ?thesis using bus key topic by (intro exI [of _ m]) simp
qed

section \<open>Witnesses\<close>

text \<open>A free sample: two laptops for nothing.\<close>

definition demo_sample :: "js list" where
  "demo_sample = [JObj [(''sku'', JStr ''LAPTOP-001''), (''name'', JStr ''Laptop''),
     (''quantity'', num 2), (''price'', num 0)]]"

definition demo_options :: create_options where
  "demo_options = \<lparr>co_correlationId = None, co_causationId = None, co_currency = JUndef\<rparr>"

lemma demo_user: "text_column 100 (JStr ''user_1'') = Inr ''user_1''"
  by simp

lemma demo_sample_total: "order_total (Fin 0) demo_sample = Inr (Fin 0)"
  by (simp add: demo_sample_def num_def bind_sum_def fl_def)

lemma pg_decimal_zero: "pg_decimal (JNum (Fin 0)) = Inr (Fin 0)"
proof -
  have "\<lfloor>1 / 2 :: rat\<rfloor> = 0" by (simp add: floor_eq_iff)
  then show ?thesis by (simp add: pg_decimal_def decimal_value_def numeric_10_2_def round_cents_def)
qed

abbreviation sample_event :: "world \<Rightarrow> outbox_event" where
  "sample_event w \<equiv> request_event (JStr ''user_1'') demo_sample demo_options (Fin 0) w"

lemma demo_tables [simp]:
  "outbox_events (db demo_world) = []" "orders (db demo_world) = []"
  by (simp_all add: demo_world_def createTables_def empty_database_def)

theorem order_and_event_atomic_witness:
  "\<forall>s. let (res, w') = createOrder (JStr ''user_1'') demo_sample demo_options (demo_world\<lparr>db_script := s\<rparr>)
   in db w' = db demo_world \<or> order_stored (request_id demo_world) (sample_event demo_world) (db w')"
proof
  fix s
  let ?w = "demo_world\<lparr>db_script := s\<rparr>"
  obtain res w' where c: "createOrder (JStr ''user_1'') demo_sample demo_options ?w = (res, w')" by fastforce
  have "request_id ?w = request_id demo_world" "sample_event ?w = sample_event demo_world"
    by (simp_all add: request_id_def request_event_def)
  then show "let (res, w') = createOrder (JStr ''user_1'') demo_sample demo_options ?w
    in db w' = db demo_world \<or> order_stored (request_id demo_world) (sample_event demo_world) (db w')"
    using order_and_event_atomic [OF demo_sample_total _ c] by (simp add: c)
qed

text \<open>An outbox that is longer than a batch, since published rows stay in it.\<close>

definition published_row :: "string \<Rightarrow> outbox_row" where
  "published_row i = demo_row\<lparr>ob_id := i, ob_status := ObPublished, ob_attempts := 1, ob_published_at := Some 0\<rparr>"

theorem accepted_order_is_published_witness:
  "let w = with_outbox [published_row ''old_1'', published_row ''old_2''] demo_world; r = demo_relay\<lparr>batchSize := 1\<rparr>
   in \<exists>w' m. accept_order (JStr ''user_1'') demo_sample demo_options r w =
        (Inr (request_order (JStr ''user_1'') demo_sample (Fin 0) w), r, w') \<and>
      m \<in> set (bus w') \<and> m_topic m = OrdersTopic \<and> m_key m = request_id w"
proof -
  let ?w = "with_outbox [published_row ''old_1'', published_row ''old_2''] demo_world" and ?r = "demo_relay\<lparr>batchSize := 1\<rparr>"
  have row: "ob_id (published_row i) = i" "lease_row_ok (published_row i)" "\<not> eligible t (published_row i)" for i t
    by (simp_all add: published_row_def lease_row_ok_def eligible_def demo_row_def new_outbox_row_def)
  have ok: "lease_table_ok (outbox_events (db ?w))"
    by (simp add: lease_table_ok_def unique_by_def row)
  have room: "length (filter (eligible (now ?w)) (outbox_events (db ?w))) < batchSize ?r"
    by (simp add: row)
  have new: "lookup_row ob_id (ev_id (sample_event ?w)) (outbox_events (db ?w)) = None"
    by (simp add: row request_event_def order_event_def)
  have w: "db_script ?w = []" "kafka_script ?w = []" "now ?w = now demo_world"
    and r: "isRunning ?r" "\<not> isProcessing ?r" "workerId ?r \<noteq> []"
    by (simp_all add: with_outbox_def)
  show ?thesis
    unfolding Let_def
    using accepted_order_is_published [OF demo_sample_total demo_user pg_decimal_zero w(1,2) demo_year(1) [folded w(3)] r ok room new]
    by blast
qed

definition with_orders :: "order_row list \<Rightarrow> world \<Rightarrow> world" where
  "with_orders rows w = w\<lparr>db := (db w)\<lparr>orders := rows\<rparr>\<rparr>"

definition taken_row :: outbox_row where
  "taken_row = new_outbox_row 0 (sample_event demo_world)"

theorem colliding_event_id_drops_event_witness:
  "\<exists>w'. createOrder (JStr ''user_1'') demo_sample demo_options (with_outbox [taken_row] demo_world) =
     (Inr (request_order (JStr ''user_1'') demo_sample (Fin 0) demo_world), w') \<and> outbox_events (db w') = [taken_row]"
proof -
  let ?w = "with_outbox [taken_row] demo_world"
  have same: "request_order (JStr ''user_1'') demo_sample (Fin 0) ?w = request_order (JStr ''user_1'') demo_sample (Fin 0) demo_world"
    "sample_event ?w = sample_event demo_world"
    by (simp_all add: request_order_def request_event_def request_id_def with_outbox_def)
  have "ob_id taken_row = ev_id (sample_event demo_world)" by (simp add: taken_row_def new_outbox_row_def)
  then have "lookup_row ob_id (ev_id (sample_event ?w)) (outbox_events (db ?w)) = Some taken_row" by (simp add: same)
  from colliding_event_id_drops_event [OF demo_sample_total demo_user pg_decimal_zero _ _ this]
  show ?thesis by (simp add: same) blast
qed

definition other_order :: order_row where
  "other_order = new_order_row (\<lparr>order_id = request_id demo_world, order_user_id = JStr ''user_2'', order_items = demo_items,
     order_status = ''COMPLETED'', order_total_amount = Fin 200, order_created_at = 0, order_updated_at = 0\<rparr>) ''user_2'' (Fin 200)"

theorem colliding_order_id_overwrites_witness:
  "\<exists>w' row. createOrder (JStr ''user_1'') demo_sample demo_options (with_orders [other_order] demo_world) =
     (Inr (request_order (JStr ''user_1'') demo_sample (Fin 0) demo_world), w') \<and>
     lookup_row or_id (request_id demo_world) (orders (db w')) = Some row \<and>
     or_user_id row = ''user_2'' \<and> or_total_amount row = Fin 200 \<and> or_status row = ''pending''"
proof -
  let ?w = "with_orders [other_order] demo_world"
  have same: "request_order (JStr ''user_1'') demo_sample (Fin 0) ?w = request_order (JStr ''user_1'') demo_sample (Fin 0) demo_world"
    "request_id ?w = request_id demo_world" "db_script ?w = []" "kafka_script ?w = []"
    by (simp_all add: request_order_def request_id_def with_orders_def)
  have row: "or_id other_order = request_id demo_world" "or_user_id other_order = ''user_2''" "or_total_amount other_order = Fin 200"
    by (simp_all add: other_order_def new_order_row_def)
  have "orders (db ?w) = [other_order]" by (simp add: with_orders_def)
  with row have "lookup_row or_id (request_id ?w) (orders (db ?w)) = Some other_order" by (simp add: same)
  from colliding_order_id_overwrites [OF demo_sample_total demo_user pg_decimal_zero same(3,4) this]
  show ?thesis by (fastforce simp: same row)
qed

theorem total_exact_witness:
  "order_total (Fin 0) [JObj [(''price'', num 100), (''quantity'', num 2)], JObj [(''price'', num 45), (''quantity'', num 3)]] =
     Inr (Fin 335)"
proof -
  have "list_all2 whole_item [JObj [(''price'', num 100), (''quantity'', num 2)],
      JObj [(''price'', num 45), (''quantity'', num 3)]] [(100, 2), (45, 3)]"
    by (simp add: whole_item_def)
  from total_exact [OF this] show ?thesis by simp
qed

theorem legacy_order_reaches_sockets_witness:
  "\<exists>w' m entry. produceOrderCreatedEvent (request_order (JStr ''user_1'') demo_sample (Fin 0) demo_world) demo_world = (Inr (), w') \<and>
     bus w' = [m] \<and>
     sockets (snd (handleEvent (m_value m) demo_world)) =
       [WsOrderCreated (JObj [(''order_id'', JStr (request_id demo_world)), (''user_id'', JStr ''user_1''),
          (''status'', JStr ''pending''), (''total_amount'', num 0)]),
        WsOrderEvent (request_id demo_world) entry]"
proof -
  let ?ord = "request_order (JStr ''user_1'') demo_sample (Fin 0) demo_world"
  have o: "order_id ?ord = request_id demo_world" "request_id demo_world \<noteq> []" "order_total_amount ?ord = Fin 0"
    "order_user_id ?ord = JStr ''user_1''"
    by (simp_all add: request_order_def new_order_def request_id_def)
  obtain w' where run: "produceOrderCreatedEvent ?ord demo_world = (Inr (), w')"
    by (simp add: produceOrderCreatedEvent_def producer_emit_def run_defs)
  have none: "sockets demo_world = []" by (simp add: demo_world_def)
  from legacy_order_reaches_sockets [OF run _ o(3,4)] o(2) obtain m where m: "bus w' = [m]"
    "\<forall>v. \<exists>entry. handleEvent (m_value m) v = (Inr (), v\<lparr>sockets := sockets v @
       [WsOrderCreated (JObj [(''order_id'', JStr (request_id demo_world)), (''user_id'', JStr ''user_1''),
          (''status'', JStr ''pending''), (''total_amount'', num 0)]), WsOrderEvent (request_id demo_world) entry]\<rparr>)"
    by (auto simp: o(1))
  from m(2) obtain entry where "handleEvent (m_value m) demo_world = (Inr (), demo_world\<lparr>sockets := sockets demo_world @
       [WsOrderCreated (JObj [(''order_id'', JStr (request_id demo_world)), (''user_id'', JStr ''user_1''),
          (''status'', JStr ''pending''), (''total_amount'', num 0)]), WsOrderEvent (request_id demo_world) entry]\<rparr>)"
    by blast
  with run m(1) none show ?thesis by (intro exI [of _ w'] exI [of _ m] exI [of _ entry]) simp
qed

end
