(* ===== verification/Http_Props.thy ===== *)
theory Http_Props
  imports Http_Api Rounding Order_Props
begin

text \<open>
  Properties of the HTTP API: every request is answered, the decision on an order request,
  which requests change nothing, the health report, the latency metrics, and the inputs on
  which the API answers something else than it should.
\<close>

section \<open>Every request is answered\<close>

text \<open>\<open>express.json()\<close> never gives a body of null.\<close>

fun body_ok :: "request \<Rightarrow> bool" where
  "body_ok (PostChaosSwitch s body) = (body \<noteq> JNull \<and> body \<noteq> JUndef)"
| "body_ok (PostChaosLatency body) = (body \<noteq> JNull \<and> body \<noteq> JUndef)"
| "body_ok _ = True"

definition answers :: "response op \<Rightarrow> bool" where
  "answers m \<longleftrightarrow> (\<forall>w. \<exists>res w'. m w = (Inr res, w'))"

lemma answers_reply: "answers (reply_with c b)"
  by (simp add: answers_def run_defs)

lemma answers_or_500: "answers (or_500 text m)" "answers (or_500_message m)"
  by (auto simp: answers_def or_500_def or_500_message_def run_defs split: prod.split sum.split)

lemma answers_bindE:
  assumes "\<And>w. \<exists>x w'. m w = (Inr x, w')" and "\<And>x. answers (k x)"
  shows "answers (bindE m k)"
  unfolding answers_def
proof
  fix w
  obtain x w1 where "m w = (Inr x, w1)" using assms(1) by blast
  with assms(2) show "\<exists>res w'. bindE m k w = (Inr res, w')" by (simp add: bindE_def answers_def)
qed

lemma ping_returns: "\<exists>x w'. ping w = (Inr x, w')"
  by (auto simp: ping_def run_defs split: prod.split sum.split)

lemma quiet_gets: "\<exists>x w'. getsE f w = (Inr x, w')" "\<exists>x w'. getConsumersStatus w = (Inr x, w')"
  "\<exists>x w'. modifyE g w = (Inr x, w')"
  by (simp_all add: getConsumersStatus_def run_defs)

lemma try_false_returns: "\<exists>x w'. tryE m (\<lambda>_. returnE False) w = (Inr x, w')"
  by (auto simp: run_defs split: prod.split sum.split)

lemma answers_update: "answers (update_chaos f)"
  by (simp add: answers_def update_chaos_def run_defs)

lemma member_ok: "body \<noteq> JNull \<Longrightarrow> body \<noteq> JUndef \<Longrightarrow> \<exists>v. member body k = Inr v"
  by (cases body) simp_all

lemma no_relay_answers: "answers m \<Longrightarrow> \<exists>res r' w'. no_relay m r w = (Inr res, r', w')"
proof -
  assume "answers m"
  then obtain res w1 where "m w = (Inr res, w1)" unfolding answers_def by blast
  then show ?thesis by (simp add: no_relay_def)
qed

lemma post_orders_answers: "\<exists>res r' w'. post_orders body r w = (Inr res, r', w')"
  unfolding post_orders_def Let_def
  by (auto split: prod.split sum.split js.split bool.split)

lemma handle_request_answers:
  assumes "body_ok req"
  shows "\<exists>res r' w'. handle_request rs h req r w = (Inr res, r', w')"
proof -
  have chaos: "answers (post_chaos_switch s body)" "answers (post_chaos_latency body)"
    if "body \<noteq> JNull" "body \<noteq> JUndef" for s body
    using member_ok [OF that, of "''enabled''"] member_ok [OF that, of "''latency_ms''"]
    by (auto simp: post_chaos_switch_def post_chaos_latency_def Let_def liftE_def intro!: answers_bindE answers_update)
  have health: "answers get_health" "answers get_ready"
    unfolding get_health_def get_ready_def Let_def
    by (intro answers_bindE ping_returns quiet_gets try_false_returns answers_reply)+
  show ?thesis
    using assms
    by (cases req)
      (auto intro!: no_relay_answers post_orders_answers answers_or_500 answers_bindE quiet_gets answers_reply
        answers_update health chaos
        simp: get_orders_def get_order_def get_order_events_def get_timeline_def get_sagas_def get_saga_def
          get_metrics_def get_dlq_def get_dlq_message_def post_dlq_replay_def post_replay_def)
qed

section \<open>The durations of the requests\<close>

lemma finish_request_run:
  assumes "length (httpDurations h) = min 10000 (httpRequestsTotal h)"
  shows "\<exists>h' w'. finish_request t h w = (Inr h', w') \<and> httpRequestsTotal h' = Suc (httpRequestsTotal h) \<and>
    length (httpDurations h') = min 10000 (Suc (httpRequestsTotal h))"
  using assms by (auto simp: finish_request_def run_defs Let_def)

text \<open>Any sequence of requests to the app; the second component are the responses.\<close>

fun serve_all :: "bool option \<Rightarrow> request list \<Rightarrow> http \<Rightarrow> relay \<Rightarrow> world \<Rightarrow> http \<times> response option list" where
  "serve_all rs [] h r w = (h, [])"
| "serve_all rs (req # reqs) h r w =
     (case serve rs req h r w of
        (res, h', r', w') \<Rightarrow> (case serve_all rs reqs h' r' w' of (h'', ress) \<Rightarrow> (h'', res # ress)))"

lemma serve_run:
  assumes "body_ok req" "length (httpDurations h) = min 10000 (httpRequestsTotal h)"
  shows "\<exists>res h' r' w'. serve rs req h r w = (Some res, h', r', w') \<and>
    httpRequestsTotal h' = Suc (httpRequestsTotal h) \<and>
    length (httpDurations h') = min 10000 (httpRequestsTotal h')"
proof -
  obtain res r' w1 where 1: "handle_request rs h req r w = (Inr res, r', w1)"
    using handle_request_answers [OF assms(1)] by blast
  obtain h' w2 where "finish_request (now w) h w1 = (Inr h', w2)" "httpRequestsTotal h' = Suc (httpRequestsTotal h)"
    "length (httpDurations h') = min 10000 (Suc (httpRequestsTotal h))"
    using finish_request_run [OF assms(2)] by blast
  then show ?thesis by (simp add: serve_def 1)
qed

lemma serve_all_run:
  assumes "list_all body_ok reqs" "length (httpDurations h) = min 10000 (httpRequestsTotal h)"
  shows "httpRequestsTotal (fst (serve_all rs reqs h r w)) = httpRequestsTotal h + length reqs \<and>
    length (httpDurations (fst (serve_all rs reqs h r w))) = min 10000 (httpRequestsTotal h + length reqs) \<and>
    length (snd (serve_all rs reqs h r w)) = length reqs \<and> None \<notin> set (snd (serve_all rs reqs h r w))"
  using assms
proof (induction reqs arbitrary: h r w)
  case (Cons req reqs)
  have ok: "body_ok req" using Cons.prems(1) by simp
  from serve_run [OF ok Cons.prems(2), of rs r w] obtain res h' r' w' where
    s: "serve rs req h r w = (Some res, h', r', w')"
    and h': "httpRequestsTotal h' = Suc (httpRequestsTotal h)" "length (httpDurations h') = min 10000 (httpRequestsTotal h')"
    by blast
  obtain h2 ress where r: "serve_all rs reqs h' r' w' = (h2, ress)" by fastforce
  show ?case using Cons.IH [OF _ h'(2), of r' w'] Cons.prems(1) h'(1) by (simp add: s r)
qed simp

text \<open>C29: every request is answered.  Whatever the database and the broker do, each request of any
  sequence gets a response (no handler ends in an unhandled rejection), the counter counts
  them all, and of their durations at most ten thousand are kept.\<close>

theorem every_request_answered:
  assumes "list_all body_ok reqs"
  shows "case serve_all rs reqs \<lparr>httpRequestsTotal = 0, httpDurations = []\<rparr> r w of
    (h, ress) \<Rightarrow> length ress = length reqs \<and> None \<notin> set ress \<and> httpRequestsTotal h = length reqs \<and>
      length (httpDurations h) = min 10000 (length reqs)"
  using serve_all_run [OF assms, of "\<lparr>httpRequestsTotal = 0, httpDurations = []\<rparr>" rs r w]
  by (simp add: case_prod_unfold)

theorem every_request_answered_witness:
  "case serve_all None [GetHealth, PostOrders JNull, GetDlq (JStr ''-1'') JUndef] \<lparr>httpRequestsTotal = 0, httpDurations = []\<rparr>
      demo_relay (demo_world\<lparr>db_script := [(Refused ''down'', 5), (AckLost ''down'', 5)]\<rparr>) of
    (h, ress) \<Rightarrow> length ress = 3 \<and> None \<notin> set ress"
  using every_request_answered [of "[GetHealth, PostOrders JNull, GetDlq (JStr ''-1'') JUndef]" None demo_relay
      "demo_world\<lparr>db_script := [(Refused ''down'', 5), (AckLost ''down'', 5)]\<rparr>"]
  by (simp only: case_prod_unfold list.pred_inject body_ok.simps list.size) simp

section \<open>Percentiles\<close>

lemma percentile_index_near:
  assumes "1 / 2 \<le> c" "c \<le> 1" "0 < n" "n < 2 ^ 60"
  shows "\<exists>y. percentile_index c n = nat \<lfloor>y\<rfloor> \<and> \<bar>y - of_nat n * c\<bar> \<le> of_nat n * c / 2 ^ 51"
  using js_mul_fraction [OF assms] by (auto simp: percentile_index_def)

lemma percentile_indices:
  assumes "0 < n" "n < 2 ^ 60"
  shows "percentile_index (1 / 2) n \<le> percentile_index (95 / 100) n"
    and "percentile_index (95 / 100) n \<le> percentile_index (99 / 100) n"
    and "percentile_index (99 / 100) n < n"
proof -
  let ?n = "of_nat n :: rat"
  have n: "1 \<le> ?n" using assms(1) by simp
  obtain a where a: "percentile_index (1 / 2) n = nat \<lfloor>a\<rfloor>" "\<bar>a - ?n * (1 / 2)\<bar> \<le> ?n * (1 / 2) / 2 ^ 51"
    using percentile_index_near [OF _ _ assms, of "1 / 2"] by auto
  obtain b where b: "percentile_index (95 / 100) n = nat \<lfloor>b\<rfloor>" "\<bar>b - ?n * (95 / 100)\<bar> \<le> ?n * (95 / 100) / 2 ^ 51"
    using percentile_index_near [OF _ _ assms, of "95 / 100"] by auto
  obtain c where c: "percentile_index (99 / 100) n = nat \<lfloor>c\<rfloor>" "\<bar>c - ?n * (99 / 100)\<bar> \<le> ?n * (99 / 100) / 2 ^ 51"
    using percentile_index_near [OF _ _ assms, of "99 / 100"] by auto
  have small: "?n * (1 / 2) / 2 ^ 51 \<le> ?n / 1000" "?n * (95 / 100) / 2 ^ 51 \<le> ?n / 1000" "?n * (99 / 100) / 2 ^ 51 \<le> ?n / 1000"
    using n by simp_all
  have near: "\<bar>a - ?n * (1 / 2)\<bar> \<le> ?n / 1000" "\<bar>b - ?n * (95 / 100)\<bar> \<le> ?n / 1000" "\<bar>c - ?n * (99 / 100)\<bar> \<le> ?n / 1000"
    using order_trans [OF a(2) small(1)] order_trans [OF b(2) small(2)] order_trans [OF c(2) small(3)] .
  have "a \<le> b" "b \<le> c" "c < ?n" "0 \<le> c" using near n by linarith+
  then show "percentile_index (1 / 2) n \<le> percentile_index (95 / 100) n"
    "percentile_index (95 / 100) n \<le> percentile_index (99 / 100) n" "percentile_index (99 / 100) n < n"
    unfolding a(1) b(1) c(1)
    by (auto intro!: nat_mono floor_mono simp: nat_less_iff floor_less_iff)
qed

text \<open>C32: the latency report.  The three reported durations are samples, in order, and none of
  them is above the largest: the floating-point indices never leave the sorted array.\<close>

theorem latency_report_sound:
  assumes "ds \<noteq> []" "length ds < 2 ^ 60"
  shows "p50_ms (latency_report ds) \<in> set ds \<and> p95_ms (latency_report ds) \<in> set ds \<and> p99_ms (latency_report ds) \<in> set ds \<and>
    p50_ms (latency_report ds) \<le> p95_ms (latency_report ds) \<and> p95_ms (latency_report ds) \<le> p99_ms (latency_report ds) \<and>
    lat_samples (latency_report ds) = length ds"
proof -
  let ?s = "sort ds"
  have n: "0 < length ?s" "length ?s < 2 ^ 60" using assms by simp_all
  note i = percentile_indices [OF n]
  have below: "percentile_index (1 / 2) (length ?s) < length ?s" "percentile_index (95 / 100) (length ?s) < length ?s"
    using i by linarith+
  define p50 p95 p99 where "p50 = percentile (1 / 2) ?s" and "p95 = percentile (95 / 100) ?s" and "p99 = percentile (99 / 100) ?s"
  have p: "p50 = ?s ! percentile_index (1 / 2) (length ?s)" "p95 = ?s ! percentile_index (95 / 100) (length ?s)"
    "p99 = ?s ! percentile_index (99 / 100) (length ?s)"
    unfolding p50_def p95_def p99_def percentile_def Let_def using below i(3) by (simp_all only: if_True)
  have "p50 \<le> p95" "p95 \<le> p99"
    unfolding p using i below by (auto intro!: sorted_nth_mono)
  moreover have "?s ! k \<in> set ds" if "k < length ?s" for k using nth_mem [OF that] by simp
  ultimately have "p50 \<le> p95" "p95 \<le> p99" "p50 \<in> set ds" "p95 \<in> set ds" "p99 \<in> set ds" unfolding p using i(3) below by blast+
  then show ?thesis
    unfolding latency_report_def Let_def p50_def [symmetric] p95_def [symmetric] p99_def [symmetric] by simp
qed

theorem latency_report_sound_witness:
  "p50_ms (latency_report [30, 10, 20]) \<in> {10, 20, 30} \<and>
   p50_ms (latency_report [30, 10, 20]) \<le> p95_ms (latency_report [30, 10, 20])"
  using latency_report_sound [of "[30, 10, 20]"] by auto

section \<open>The decision on an order request\<close>

definition acceptable_item :: "js \<Rightarrow> bool" where
  "acceptable_item item =
     (case item of
        JObj ob \<Rightarrow> truthy (obj_get ob ''sku'') \<and> truthy (obj_get ob ''name'') \<and>
          is_number (obj_get ob ''price'') \<and> is_number (obj_get ob ''quantity'')
      | _ \<Rightarrow> False)"

definition order_request_ok :: "obj \<Rightarrow> bool" where
  "order_request_ok b \<longleftrightarrow> truthy (obj_get b ''user_id'') \<and>
     (case obj_get b ''items'' of JArr items \<Rightarrow> items \<noteq> [] \<and> list_all acceptable_item items | _ \<Rightarrow> False)"

lemma item_ok_acceptable: "item \<noteq> JNull \<Longrightarrow> item \<noteq> JUndef \<Longrightarrow> item_ok item = Inr (acceptable_item item)"
  by (cases item) (simp_all add: item_ok_def acceptable_item_def bind_sum_def)

lemma items_ok_acceptable:
  "JNull \<notin> set items \<Longrightarrow> JUndef \<notin> set items \<Longrightarrow> items_ok items = Inr (list_all acceptable_item items)"
  by (induction items) (auto simp: item_ok_acceptable bind_sum_def)

lemma keep_sweep [frame_rules]:
  assumes "\<And>t d. g (d\<lparr>outbox_events := t\<rparr>) = g d"
  shows "db_follows (\<lambda>d d'. g d' = g d) (sweep r)"
  unfolding sweep_def claim_batch_def publishEvent_def send_row_def mark_row_def fail_row_def
  by (intro keep.follows_rules frame_rules assms)

lemma after_sweep: "db_follows (lease_after outbox_events) (sweep r)"
  unfolding sweep_def claim_batch_def publishEvent_def
  by (intro outbox.after.follows_rules outbox_ops_after relay_rows_after)

lemma trigger_db:
  assumes "trigger r w = (x, r', w')"
  shows "orders (db w') = orders (db w) \<and> lease_after outbox_events (db w) (db w')"
proof -
  have "w' = w \<or> w' = snd (sweep r w)"
    using assms by (auto simp: trigger_def processBatch_def split: if_splits prod.splits sum.splits)
  moreover have "orders (db (snd (sweep r w))) = orders (db w)"
    by (rule db_followsD [OF keep_sweep]) simp
  ultimately show ?thesis
    using db_followsD [OF after_sweep [of r], of w] outbox.after.R_refl by auto
qed

lemma createOrder_after: "db_follows (lease_after outbox_events) (createOrder user items opts)"
proof -
  have "db_follows (\<lambda>d d'. outbox_events d' = outbox_events d) (insertOrder Client ord)" for ord
    unfolding insertOrder_def
    by (intro keep.follows_query) (auto simp: stmt_follows_def bind_sum_def insertOrder_stmt_def split: sum.splits)
  note insert = outbox.after_untouched [OF this]
  show ?thesis
    unfolding createOrder_def order_transaction_def Let_def
    by (intro outbox.after.follows_rules insert outbox_ops_after)
qed

text \<open>An order with its event, whatever the relay has done with the event since.\<close>

definition order_kept :: "string \<Rightarrow> outbox_event \<Rightarrow> database \<Rightarrow> bool" where
  "order_kept i ev d \<longleftrightarrow>
     (\<exists>row. lookup_row or_id i (orders d) = Some row \<and> or_status row = ''pending'') \<and>
     (\<exists>t q. lookup_row ob_id (ev_id ev) (outbox_events d) = Some q \<and> same_message (new_outbox_row t ev) q)"

lemma accept_order_kept:
  assumes "accept_order user items opts r w = (Inr ord, r', w')" "lease_table_ok (outbox_events (db w))"
    and "\<And>tot. lookup_row ob_id (ev_id (request_event user items opts tot w)) (outbox_events (db w)) = None"
  shows "\<exists>tot. order_total (Fin 0) items = Inr tot \<and> ord = request_order user items tot w \<and>
    order_kept (request_id w) (request_event user items opts tot w) (db w')"
proof (cases "order_total (Fin 0) items")
  case (Inl e)
  then show ?thesis using assms(1) createOrder_bad_items [OF Inl] by (simp add: accept_order_def)
next
  case (Inr tot)
  obtain res w1 where c: "createOrder user items opts w = (res, w1)" by fastforce
  then have res: "res = Inr ord" using assms(1) by (auto simp: accept_order_def split: sum.splits prod.splits)
  obtain x where t: "trigger r w1 = (x, r', w')"
    using assms(1) by (auto simp: accept_order_def c res split: prod.splits)
  show ?thesis
  proof -
    have "ord = request_order user items tot w" and stored: "order_stored (request_id w) (request_event user items opts tot w) (db w1)"
      using order_event_together [OF Inr assms(3) c] res by blast+
    moreover have "lease_table_ok (outbox_events (db w1))"
      using db_followsD [OF createOrder_after [of user items opts], of w] assms(2) by (simp add: c lease_after_def)
    ultimately show ?thesis
      using trigger_db [OF t] Inr
      by (fastforce simp: order_kept_def order_stored_def lease_after_def table_after_def row_after_def)
  qed
qed

text \<open>The options that the handler passes on.\<close>

definition http_options :: "obj \<Rightarrow> create_options" where
  "http_options b =
     \<lparr>co_correlationId = None, co_causationId = None, co_currency = obj_get b ''currency''\<rparr>"

lemma post_orders_bad:
  assumes "\<And>items. obj_get b ''items'' = JArr items \<Longrightarrow> JNull \<notin> set items \<and> JUndef \<notin> set items"
    and "\<not> order_request_ok b"
  shows "\<exists>text. post_orders (JObj b) r w = (Inr (bad_request text), r, w)"
proof (cases "obj_get b ''items''")
  case (JArr items)
  then have "items_ok items = Inr (list_all acceptable_item items)" using assms(1) items_ok_acceptable by blast
  then show ?thesis using assms(2) JArr by (auto simp: post_orders_def order_request_ok_def Let_def)
qed (auto simp: post_orders_def Let_def)

lemma post_orders_good:
  assumes "order_request_ok b" "obj_get b ''items'' = JArr items"
  shows "post_orders (JObj b) r w =
    (case accept_order (obj_get b ''user_id'') items (http_options b) r w of
       (Inl e, r', w') \<Rightarrow> (Inr \<lparr>res_code = 500, res_body = ErrorBody ''Failed to create order''\<rparr>, r', w')
     | (Inr ord, r', w') \<Rightarrow>
         (Inr \<lparr>res_code = 202, res_body =
            AcceptedBody (order_id ord) (order_total_amount ord) (order_created_at ord)\<rparr>, r', w'))"
proof -
  have "JNull \<notin> set items" "JUndef \<notin> set items"
    using assms by (auto simp: order_request_ok_def list_all_iff acceptable_item_def)
  then have "items_ok items = Inr True"
    using assms by (simp add: items_ok_acceptable order_request_ok_def)
  then show ?thesis using assms by (simp add: post_orders_def order_request_ok_def http_options_def Let_def)
qed

text \<open>C27: the decision on an order request.  For a body whose items contain no null, the answer is
  400 exactly when the user, the items or a field of an item is missing, and then nothing
  has happened.  Otherwise it is 202 or 500; with 202 the order is in the database, pending,
  under the identifier and with the total of the answer, and its OrderCreated event is in
  the outbox, however far the relay has come with it.\<close>

theorem order_request_decision:
  assumes "\<And>items. obj_get b ''items'' = JArr items \<Longrightarrow> JNull \<notin> set items \<and> JUndef \<notin> set items"
    and "lease_table_ok (outbox_events (db w))"
    and "\<And>items tot. lookup_row ob_id (ev_id (request_event (obj_get b ''user_id'') items (http_options b) tot w))
           (outbox_events (db w)) = None"
    and "post_orders (JObj b) r w = (Inr res, r', w')"
  shows "(res_code res = 400 \<longleftrightarrow> \<not> order_request_ok b) \<and> (res_code res = 400 \<longrightarrow> r' = r \<and> w' = w) \<and>
    res_code res \<in> {202, 400, 500} \<and>
    (res_code res = 202 \<longrightarrow> (\<exists>items tot. obj_get b ''items'' = JArr items \<and> order_total (Fin 0) items = Inr tot \<and>
       res_body res = AcceptedBody (request_id w) tot (now w) \<and>
       order_kept (request_id w) (request_event (obj_get b ''user_id'') items (http_options b) tot w) (db w')))"
proof (cases "order_request_ok b")
  case False
  from post_orders_bad [OF assms(1) False, of r w] show ?thesis using False assms(4) by (auto simp: bad_request_def)
next
  case True
  then obtain items where items: "obj_get b ''items'' = JArr items"
    by (auto simp: order_request_ok_def split: js.splits)
  obtain x r2 w2 where a: "accept_order (obj_get b ''user_id'') items (http_options b) r w = (x, r2, w2)"
    by (cases "accept_order (obj_get b ''user_id'') items (http_options b) r w") auto
  show ?thesis
  proof (cases x)
    case (Inl e)
    then show ?thesis using assms(4) True by (auto simp: post_orders_good [OF True items] a)
  next
    case (Inr ord)
    have "w' = w2" "res = \<lparr>res_code = 202, res_body = AcceptedBody (order_id ord) (order_total_amount ord) (order_created_at ord)\<rparr>"
      using assms(4) by (simp_all add: post_orders_good [OF True items] a Inr)
    then show ?thesis
      using accept_order_kept [OF a [unfolded Inr] assms(2,3)] True items
      by (auto simp: request_order_def new_order_def)
  qed
qed

section \<open>Requests that should have been refused\<close>

text \<open>Negative amounts are accepted.  The validation asks for numbers only.  An item of a
  quantity below zero passes it: the order is accepted with a negative total.\<close>

theorem negative_quantity_accepted:
  assumes "p * q < 0" "\<bar>p * q\<bar> < 2 ^ 53" "pg_decimal (JNum (Fin (of_int (p * q)))) = Inr amount"
    and "db_script w = []" "kafka_script w = []" "\<not> isRunning r"
    and "b = [(''user_id'', JStr ''user_1''), (''items'', JArr [JObj [(''sku'', JStr ''LAPTOP-001''), (''name'', JStr ''Laptop''),
           (''price'', num (of_int p)), (''quantity'', num (of_int q))]])]"
  shows "\<exists>i t w' total_amount. post_orders (JObj b) r w =
      (Inr \<lparr>res_code = 202, res_body = AcceptedBody i (Fin total_amount) t\<rparr>, r, w') \<and> total_amount < 0 \<and>
    lookup_row or_id i (orders (db w')) \<noteq> None"
proof -
  define items where "items = [JObj [(''sku'', JStr ''LAPTOP-001''), (''name'', JStr ''Laptop''),
           (''price'', num (of_int p)), (''quantity'', num (of_int q))]]"
  have b: "obj_get b ''items'' = JArr items" "obj_get b ''user_id'' = JStr ''user_1''"
    by (simp_all add: assms(7) items_def obj_get_def)
  have ok: "order_request_ok b"
    by (simp add: order_request_ok_def b) (simp add: items_def acceptable_item_def obj_get_def num_def)
  have "list_all2 whole_item items [(p, q)]" by (simp add: items_def whole_item_def obj_get_def)
  from order_total_exact [OF this, of 0] have tot: "order_total (Fin 0) items = Inr (Fin (of_int (p * q)))"
    using assms(2) by simp
  obtain w1 where c: "createOrder (JStr ''user_1'') items (http_options b) w = (Inr (request_order (JStr ''user_1'') items (Fin (of_int (p * q))) w), w1)"
    and d: "orders (db w1) = upsert or_id merge_order
        (new_order_row (request_order (JStr ''user_1'') items (Fin (of_int (p * q))) w) ''user_1'' amount) (orders (db w))"
    using createOrder_calm [OF tot demo_user assms(3,4), of "http_options b"] by (auto simp: order_written_def)
  have "lookup_row or_id (request_id w) (orders (db w1)) \<noteq> None"
    using order.lookup_upsert_same [of "new_order_row (request_order (JStr ''user_1'') items (Fin (of_int (p * q))) w) ''user_1'' amount" "orders (db w)"]
    by (simp add: d new_order_row_def request_order_def new_order_def split: option.splits)
  then show ?thesis
    using assms(1,6)
    by (intro exI [of _ "request_id w"] exI [of _ "now w"] exI [of _ w1] exI [of _ "of_int (p * q)"])
      (simp add: post_orders_good [OF ok b(1)] b(2) accept_order_def c trigger_def request_order_def new_order_def
        del: of_int_mult)
qed

text \<open>A null item is a server error.  Reading \<open>sku\<close> of a null item throws inside the
  validation, and the request is answered with 500 instead of 400; nothing has happened.\<close>

theorem null_item_server_error:
  assumes "truthy (obj_get b ''user_id'')" "obj_get b ''items'' = JArr (JNull # items)"
  shows "post_orders (JObj b) r w =
    (Inr \<lparr>res_code = 500, res_body = ErrorBody ''Failed to create order''\<rparr>, r, w)"
  using assms by (simp add: post_orders_def item_ok_def bind_sum_def Let_def)

lemma minus_five: "pg_decimal (JNum (Fin (- 5))) = Inr (Fin (- 5))"
proof -
  have q: "quotient_of 5 = (5, 1)" using quotient_of_int [of 5] by simp
  have fl: "fl 5 = Fin 5" "fl 6 = Fin 6" using fl_exact_int [of 5] fl_exact_int [of 6] by simp_all
  have e: "dec_exponent 5 = 1"
    by (simp add: dec_exponent_def q nat_string.simps [of 5] nat_string.simps [of 1] pow_int_def)
  have c: "decimal_candidates 5 1 = [5]"
    by (simp add: decimal_candidates_def e pow_int_def Let_def fl)
  have "List.find (\<lambda>k. decimal_candidates 5 k \<noteq> []) [1..<18] = Some 1"
    by (subst upt_conv_Cons) (simp_all add: c del: One_nat_def)
  then have "shortest_decimal 5 = (5, 1, 1)"
    by (simp add: shortest_decimal_def e Let_def c del: One_nat_def upt_Suc)
  then have "decimal_value (- 5) = - 5" by (simp add: decimal_value_def pow_int_def)
  moreover have "\<lfloor>1001 / 2 :: rat\<rfloor> = 500" by (simp add: floor_eq_iff)
  ultimately show ?thesis
    by (simp add: pg_decimal_def numeric_10_2_def round_cents_def Let_def)
qed

definition demo_debt :: obj where
  "demo_debt = [(''user_id'', JStr ''user_1''), (''items'', JArr [JObj [(''sku'', JStr ''LAPTOP-001''), (''name'', JStr ''Laptop''),
           (''price'', num 5), (''quantity'', num (- 1))]])]"

theorem negative_quantity_accepted_witness:
  "\<exists>i t w' total_amount. post_orders (JObj demo_debt) (demo_relay\<lparr>isRunning := False\<rparr>) demo_world =
      (Inr \<lparr>res_code = 202, res_body = AcceptedBody i (Fin total_amount) t\<rparr>, demo_relay\<lparr>isRunning := False\<rparr>, w') \<and>
    total_amount < 0"
proof -
  have amount: "pg_decimal (JNum (Fin (of_int (5 * - 1)))) = Inr (Fin (- 5))" using minus_five by simp
  have "demo_debt = [(''user_id'', JStr ''user_1''), (''items'', JArr [JObj [(''sku'', JStr ''LAPTOP-001''), (''name'', JStr ''Laptop''),
           (''price'', num (of_int 5)), (''quantity'', num (of_int (- 1)))]])]"
    by (simp add: demo_debt_def)
  from negative_quantity_accepted [OF _ _ amount _ _ _ this, of demo_world "demo_relay\<lparr>isRunning := False\<rparr>"]
  show ?thesis by simp blast
qed

theorem null_item_server_error_witness:
  "post_orders (JObj [(''user_id'', JStr ''user_1''), (''items'', JArr [JNull])]) demo_relay demo_world =
    (Inr \<lparr>res_code = 500, res_body = ErrorBody ''Failed to create order''\<rparr>, demo_relay, demo_world)"
  by (rule null_item_server_error) (simp_all add: obj_get_def)

definition demo_request :: obj where
  "demo_request = [(''user_id'', JStr ''user_1''), (''items'', JArr demo_sample)]"

lemma demo_request_get [simp]:
  "obj_get demo_request ''items'' = JArr demo_sample" "obj_get demo_request ''user_id'' = JStr ''user_1''"
  by (simp_all add: demo_request_def obj_get_def)

theorem order_request_decision_witness:
  "\<exists>res r' w'. post_orders (JObj demo_request) demo_relay demo_world = (Inr res, r', w') \<and> res_code res \<in> {202, 500} \<and>
     (res_code res = 202 \<longrightarrow> order_kept (request_id demo_world)
        (request_event (JStr ''user_1'') demo_sample (http_options demo_request) (Fin 0) demo_world) (db w'))"
proof -
  obtain res r' w' where run: "post_orders (JObj demo_request) demo_relay demo_world = (Inr res, r', w')"
    using post_orders_answers by blast
  have ok: "order_request_ok demo_request"
    by (simp add: order_request_ok_def) (simp add: demo_sample_def acceptable_item_def obj_get_def num_def)
  have "lease_table_ok (outbox_events (db demo_world))" by (simp add: lease_table_ok_def unique_by_def)
  moreover have "JNull \<notin> set demo_sample \<and> JUndef \<notin> set demo_sample" by (simp add: demo_sample_def)
  ultimately show ?thesis
    using order_request_decision [OF _ _ _ run] ok demo_sample_total run
    by (intro exI [of _ res] exI [of _ r'] exI [of _ w']) (auto simp: demo_sample_total)
qed

section \<open>Requests that read\<close>

fun is_get :: "request \<Rightarrow> bool" where
  "is_get (PostOrders b) = False"
| "is_get (PostDlqReplay i) = False"
| "is_get (PostReplay b) = False"
| "is_get (PostChaosSwitch s b) = False"
| "is_get (PostChaosLatency b) = False"
| "is_get PostChaosReset = False"
| "is_get _ = True"

definition reads :: "'a op \<Rightarrow> bool" where
  "reads m \<longleftrightarrow> (\<forall>w. db (snd (m w)) = db w \<and> bus (snd (m w)) = bus w \<and> chaos (snd (m w)) = chaos w \<and>
     consumers (snd (m w)) = consumers w)"

lemma reads_basic: "reads (returnE x)" "reads (throwE e)" "reads (getsE f)" "reads (reply_with c b)" "reads kafka_call"
  by (auto simp: reads_def run_defs kafka_call_def kafka_tick_def Let_def split: outcome.split)

lemma reads_query: "reads (query Pool (selects f))" "reads (query Pool (\<lambda>t d. Inl e))"
  by (auto simp: reads_def query_def selects_def after_error_def db_tick_def Let_def split: outcome.split)

lemma reads_bindE: "reads m \<Longrightarrow> (\<And>x. reads (k x)) \<Longrightarrow> reads (bindE m k)"
  by (auto simp: reads_def bindE_def split: prod.splits sum.splits) (metis snd_conv)+

lemma reads_thenE: "reads m \<Longrightarrow> reads n \<Longrightarrow> reads (thenE m n)"
  unfolding thenE_def by (rule reads_bindE)

lemma reads_tryE: "reads m \<Longrightarrow> (\<And>e. reads (k e)) \<Longrightarrow> reads (tryE m k)"
  by (auto simp: reads_def tryE_def split: prod.splits sum.splits) (metis snd_conv)+

lemma reads_if: "reads m \<Longrightarrow> reads n \<Longrightarrow> reads (if b then m else n)"
  by simp

lemma reads_option: "reads m \<Longrightarrow> (\<And>x. reads (k x)) \<Longrightarrow> reads (case y of None \<Rightarrow> m | Some x \<Rightarrow> k x)"
  by (simp split: option.split)

lemma reads_sum: "(\<And>x. reads (f x)) \<Longrightarrow> (\<And>x. reads (k x)) \<Longrightarrow> reads (case y of Inl x \<Rightarrow> f x | Inr x \<Rightarrow> k x)"
  by (simp split: sum.split)

lemmas reads_rules = reads_basic reads_query reads_bindE reads_thenE reads_tryE reads_if reads_option reads_sum

lemma no_relay_reads: "reads m \<Longrightarrow> no_relay m r w = (x, r', w') \<Longrightarrow> r' = r \<and> db w' = db w \<and> bus w' = bus w \<and>
    chaos w' = chaos w \<and> consumers w' = consumers w"
  by (auto simp: no_relay_def reads_def split: prod.splits) (metis snd_conv)+

lemmas http_handler_defs =
  or_500_def or_500_message_def with_limit_def list_letters_def getConsumersStatus_def get_health_def isKafkaReady_def get_ready_def get_orders_def
  get_order_def get_order_events_def get_timeline_def get_sagas_def get_saga_def get_metrics_def get_dlq_def
  get_dlq_message_def

lemmas query_op_defs =
  ping_def listOrders_def getOrder_def getOrderEvents_def getSagaByAggregateId_def getEventsByAggregateId_def
  listSagas_def getSagaInstance_def getMetrics_def listDLQMessages_def getDLQMessage_def

lemma get_handlers_read:
  "reads get_health" "reads get_ready" "reads (get_orders l)" "reads (get_order i)" "reads (get_order_events i)"
  "reads (get_timeline i)" "reads (get_sagas l)" "reads (get_saga i)" "reads (get_metrics h)" "reads (get_dlq l st)"
  "reads (get_dlq_message i)"
  unfolding http_handler_defs query_op_defs Let_def
  by (intro reads_rules)+

text \<open>Reading changes nothing.  Whatever fails, a GET request leaves the database, the message
  log, the relay, the chaos configuration and the state of the consumers as they were.\<close>

theorem get_requests_change_nothing:
  assumes "is_get req" "handle_request rs h req r w = (x, r', w')"
  shows "r' = r \<and> db w' = db w \<and> bus w' = bus w \<and> chaos w' = chaos w \<and> consumers w' = consumers w"
proof -
  have "\<exists>m. handle_request rs h req = no_relay m \<and> reads m"
    using assms(1) by (cases req) (auto intro!: get_handlers_read reads_rules simp: getConsumersStatus_def)
  then show ?thesis using no_relay_reads assms(2) by metis
qed

theorem get_requests_change_nothing_witness:
  "db (snd (snd (handle_request None \<lparr>httpRequestsTotal = 0, httpDurations = []\<rparr> GetReady demo_relay
      (demo_world\<lparr>kafka_script := [(Refused ''down'', 9)]\<rparr>)))) = db demo_world"
proof -
  let ?w = "demo_world\<lparr>kafka_script := [(Refused ''down'', 9)]\<rparr>"
  obtain x r' w' where "handle_request None \<lparr>httpRequestsTotal = 0, httpDurations = []\<rparr> GetReady demo_relay ?w = (x, r', w')"
    using prod_cases3 by blast
  with get_requests_change_nothing [OF _ this] show ?thesis by simp
qed

section \<open>Health\<close>

lemma ping_run: "ping w = (Inr (fst (next_call (db_script w)) = Done), db_tick w)"
  by (cases "fst (next_call (db_script w))") (simp_all add: ping_def query_def selects_def run_defs after_error_def Let_def)

lemma all_consumers_status:
  "getConsumersStatus w = (Inr cs, w') \<Longrightarrow>
    w' = w \<and> set (map (\<lambda>p. status (snd p)) cs) = range (\<lambda>c. status (consumers w (consumer_name c)))"
proof -
  have "range (\<lambda>c. status (consumers w (consumer_name c))) =
      (\<lambda>c. status (consumers w (consumer_name c))) ` {PaymentConsumer, InventoryConsumer, FraudConsumer, ShippingConsumer,
        NotificationConsumer, SagaOrchestrator, ProjectionConsumer}"
    by (rule arg_cong [where f = "image _"]) (auto intro: platform_consumer.exhaust)
  then show "getConsumersStatus w = (Inr cs, w') \<Longrightarrow> ?thesis"
    by (auto simp: getConsumersStatus_def run_defs)
qed

lemma overall_status_cases:
  "overall_status up sts \<noteq> OverallDown \<longleftrightarrow> up \<and> Down \<notin> set sts"
  "overall_status up sts = OverallOk \<longleftrightarrow> up \<and> Down \<notin> set sts \<and> Degraded \<notin> set sts"
  by (simp_all add: overall_status_def)

lemma healthy_range: "Down \<notin> range f \<and> Degraded \<notin> range f \<longleftrightarrow> (\<forall>c. f c = Healthy)"
proof
  assume no: "Down \<notin> range f \<and> Degraded \<notin> range f"
  show "\<forall>c. f c = Healthy"
  proof
    fix c
    show "f c = Healthy" using no by (cases "f c") (simp_all add: image_iff, metis+)
  qed
qed auto

lemma kafka_call_run:
  "kafka_call w = (if fst (next_call (kafka_script w)) = Done then (Inr (), kafka_tick w)
     else (Inl (KafkaError (case fst (next_call (kafka_script w)) of Refused m \<Rightarrow> m | AckLost m \<Rightarrow> m | Done \<Rightarrow> [])), kafka_tick w))"
  by (cases "fst (next_call (kafka_script w))") (simp_all add: kafka_call_def Let_def)

lemma kafka_tick_script [simp]: "kafka_script (kafka_tick w) = tl (kafka_script w)"
  by (simp add: kafka_tick_def)

lemma kafka_ready_run:
  "\<exists>w'. tryE isKafkaReady (\<lambda>_. returnE False) w =
     (Inr (fst (next_call (kafka_script w)) = Done \<and> fst (next_call (tl (kafka_script w))) = Done \<and>
           fst (next_call (tl (tl (kafka_script w)))) = Done), w')"
  by (simp add: isKafkaReady_def tryE_def bindE_def thenE_def returnE_def kafka_call_run)

text \<open>C34: the health report.  \<open>/health\<close> answers 200 exactly when the database answered the ping
  and no consumer is down, and it says \<open>ok\<close> exactly when the database answered and every
  consumer is healthy.  \<open>/ready\<close> answers 200 exactly when the database answered and so did
  the three calls of the Kafka client.\<close>

theorem health_report:
  "\<exists>hr w1 rr w2 st cs. get_health w = (Inr hr, w1) \<and> res_body hr = HealthBody st (fst (next_call (db_script w)) = Done) cs \<and>
    (res_code hr = 200 \<longleftrightarrow>
       fst (next_call (db_script w)) = Done \<and> (\<forall>c. status (consumers w (consumer_name c)) \<noteq> Down)) \<and>
    (st = OverallOk \<longleftrightarrow>
       fst (next_call (db_script w)) = Done \<and> (\<forall>c. status (consumers w (consumer_name c)) = Healthy)) \<and>
    get_ready w = (Inr rr, w2) \<and>
    (res_code rr = 200 \<longleftrightarrow>
       fst (next_call (db_script w)) = Done \<and> fst (next_call (kafka_script w)) = Done \<and>
       fst (next_call (tl (kafka_script w))) = Done \<and> fst (next_call (tl (tl (kafka_script w)))) = Done)"
proof -
  let ?up = "fst (next_call (db_script w)) = Done"
  obtain cs where cs: "getConsumersStatus (db_tick w) = (Inr cs, db_tick w)"
    by (simp add: getConsumersStatus_def run_defs)
  have "consumers (db_tick w) = consumers w" by (simp add: db_tick_def)
  then have sts: "set (map (\<lambda>p. status (snd p)) cs) = range (\<lambda>c. status (consumers w (consumer_name c)))"
    using all_consumers_status [OF cs] by simp
  let ?st = "overall_status ?up (map (\<lambda>p. status (snd p)) cs)"
  have st: "?st \<noteq> OverallDown \<longleftrightarrow> ?up \<and> (\<forall>c. status (consumers w (consumer_name c)) \<noteq> Down)"
    "?st = OverallOk \<longleftrightarrow> ?up \<and> (\<forall>c. status (consumers w (consumer_name c)) = Healthy)"
    unfolding overall_status_cases sts healthy_range by (simp_all add: image_iff eq_commute)
  have health: "get_health w =
      (Inr \<lparr>res_code = if ?st = OverallDown then 503 else 200, res_body = HealthBody ?st ?up cs\<rparr>, db_tick w)"
    by (simp add: get_health_def bindE_def ping_run cs reply_with_def returnE_def Let_def)
  obtain w2 where k: "tryE isKafkaReady (\<lambda>_. returnE False) (db_tick w) =
     (Inr (fst (next_call (kafka_script w)) = Done \<and> fst (next_call (tl (kafka_script w))) = Done \<and>
           fst (next_call (tl (tl (kafka_script w)))) = Done), w2)"
    using kafka_ready_run [of "db_tick w"] by (auto simp: db_tick_def)
  obtain rr where ready: "get_ready w = (Inr rr, w2)" and
    "res_code rr = 200 \<longleftrightarrow> ?up \<and> fst (next_call (kafka_script w)) = Done \<and>
       fst (next_call (tl (kafka_script w))) = Done \<and> fst (next_call (tl (tl (kafka_script w)))) = Done"
    by (simp add: get_ready_def bindE_def ping_run k [unfolded returnE_def] reply_with_def returnE_def Let_def)
  then show ?thesis using health st
    by - (rule exI [of _ "\<lparr>res_code = if ?st = OverallDown then 503 else 200, res_body = HealthBody ?st ?up cs\<rparr>"],
        rule exI [of _ "db_tick w"], rule exI [of _ rr], rule exI [of _ w2], rule exI [of _ ?st], rule exI [of _ cs], simp, blast)
qed

end
