(* ===== verification/Platform_Flow.thy ===== *)
theory Platform_Flow
  imports Fulfilment_Props Http_Props
begin

text \<open>
  The platform from end to end: a request to \<open>POST /orders\<close>, the outbox, the relay, the log,
  the saga and the services.  The order that the request is answered with is settled as it
  should be.
\<close>

section \<open>What an accepted request has passed\<close>

lemma accepted_parts:
  assumes run: "accept_order user items opts r w = (Inr ord, r', w')" and calm: "db_script w = []"
  shows "\<exists>tot usr amount. order_total (Fin 0) items = Inr tot \<and> text_column 100 user = Inr usr \<and> pg_decimal (JNum tot) = Inr amount"
proof -
  obtain w1 where c: "createOrder user items opts w = (Inr ord, w1)"
    using run by (auto simp: accept_order_def split: prod.splits sum.splits)
  then obtain tot where tot: "order_total (Fin 0) items = Inr tot"
    by (cases "order_total (Fin 0) items") (simp_all add: createOrder_bad_items)
  have "order_total_amount (request_order user items tot w) = tot" "order_user_id (request_order user items tot w) = user"
    by (simp_all add: request_order_def new_order_def)
  then have "(\<exists>usr. text_column 100 user = Inr usr) \<and> (\<exists>amount. pg_decimal (JNum tot) = Inr amount)"
    using c calm unfolding createOrder_run [OF tot]
    by (auto simp: order_transaction_def withTransaction_def thenE_def bindE_def insertOrder_def bind_sum_def
        insertOrder_stmt_def split: sum.splits)
  then show ?thesis using tot by blast
qed

text \<open>Items that the validation accepts are items that the inventory service can look at.\<close>

lemma acceptable_items_stocked:
  "list_all acceptable_item items \<Longrightarrow>
   \<exists>b. some_item (map (\<lambda>v. if v = JUndef then JNull else to_json v) items) = Inr b"
proof (induction items)
  case (Cons i items)
  then obtain ob where "i = JObj ob" by (auto simp: acceptable_item_def split: js.splits)
  then show ?case using Cons by auto
qed auto

section \<open>From the request to the log\<close>

text \<open>A relay that publishes the next row at once: it runs, is idle and has nothing else to do.\<close>

definition relay_ready :: "relay \<Rightarrow> world \<Rightarrow> bool" where
  "relay_ready r w \<longleftrightarrow> isRunning r \<and> \<not> isProcessing r \<and> workerId r \<noteq> [] \<and> 0 < batchSize r \<and>
     lease_table_ok (outbox_events (db w)) \<and> (\<forall>x \<in> set (outbox_events (db w)). \<not> eligible (now w) x)"

text \<open>
  Identifiers that nobody has used: uuids are distinct and longer than the eight characters
  that an order keeps of them, no saga and no outbox row has the identifiers that the
  request will draw, and no consumer has handled an event with an identifier of the future.
\<close>

definition ids_unused :: "world \<Rightarrow> bool" where
  "ids_unused w \<longleftrightarrow> inj (uuid_src w) \<and> (\<forall>n. 8 < length (uuid_src w n)) \<and>
     latest_saga (request_id w) (saga_instances (db w)) = None \<and>
     (let i = ''evt_'' @ take 8 (uuid_src w (Suc (uuid_next w)))
      in lookup_row ob_id i (outbox_events (db w)) = None \<and> \<not> event_processed i saga_name (db w)) \<and>
     (\<forall>n \<ge> uuid_next w. \<forall>c. \<not> event_processed (''evt_'' @ uuid_src w n) (consumer_name c) (db w))"

lemma request_event_fields [simp]:
  "ev_id (request_event user items opts tot w) = ''evt_'' @ take 8 (uuid_src w (Suc (uuid_next w)))"
  "ev_aggregateId (request_event user items opts tot w) = request_id w"
  "ev_eventType (request_event user items opts tot w) = OrderCreated"
  "ev_payload (request_event user items opts tot w) =
     order_created_payload (request_id w) user items tot (co_currency opts)"
  by (simp_all add: request_event_def order_event_def)

lemma order_written_frame:
  "saga_instances (db (swept r (order_written user items opts tot usr amount w))) = saga_instances (db w)"
  "processed_events (db (swept r (order_written user items opts tot usr amount w))) = processed_events (db w)"
  "event_processed i c (db (swept r (order_written user items opts tot usr amount w))) = event_processed i c (db w)"
  "uuid_src (swept r (order_written user items opts tot usr amount w)) = uuid_src w"
  "uuid_next (swept r (order_written user items opts tot usr amount w)) = Suc (Suc (uuid_next w))"
  "chaos (swept r (order_written user items opts tot usr amount w)) = chaos w"
  "db_script (swept r (order_written user items opts tot usr amount w)) = db_script w"
  "kafka_script (swept r (order_written user items opts tot usr amount w)) = kafka_script w"
  "now (swept r (order_written user items opts tot usr amount w)) = now w"
  by (simp_all add: swept_def Let_def order_written_def after_draws_def event_processed_def)

text \<open>The event of the request, as every consumer reads it.\<close>

definition request_read :: "relay \<Rightarrow> js \<Rightarrow> js list \<Rightarrow> create_options \<Rightarrow> jnum \<Rightarrow> world \<Rightarrow> envelope" where
  "request_read r user items opts tot w = published_envelope (workerId r) (now w) (request_event user items opts tot w)"

lemma request_arrives:
  assumes calm: "db_script w = []" "kafka_script w = []" and year: "iso_year (now w) < 10000"
    and ready: "relay_ready r w" and ids: "ids_unused w" and sagas: "saga_table_ok (saga_instances (db w))"
    and items: "list_all acceptable_item items" "items \<noteq> []"
    and w': "w' = swept r (order_written user items opts tot usr amount w)"
  shows "order_arrived (request_read r user items opts tot w) w' \<and> length (bus w') - 1 = length (bus w)"
proof -
  let ?e = "request_read r user items opts tot w" and ?m = "request_message r user items opts tot w"
  have none: "filter (eligible (now w)) (outbox_events (db w)) = []"
    using ready by (simp add: relay_ready_def filter_empty_conv)
  have new: "lookup_row ob_id (ev_id (request_event user items opts tot w)) (outbox_events (db w)) = None"
    using ids by (simp add: ids_unused_def Let_def)
  obtain sent where "length sent = 1" "?m \<in> set sent" "bus w' = bus w @ sent"
    using request_swept [OF calm _ _ _ _ new, of r usr amount] ready unfolding w' none by (auto simp: relay_ready_def)
  then have bus: "bus w' = bus w @ [?m]" by (auto simp: length_Suc_conv)
  have read: "reads_as ?m ?e"
    unfolding reads_as_def
    by (rule exI [of _ ?e])
      (simp add: request_message_read(3) [OF year] request_read_def published_envelope_valid [OF year])
  have e: "event_type ?e = OrderCreated" "event_id ?e = ''evt_'' @ take 8 (uuid_src w (Suc (uuid_next w)))"
    "aggregate_id ?e = request_id w"
    "payload ?e = obj_json (order_created_payload (request_id w) user items tot (co_currency opts))"
    by (simp_all add: request_read_def)
  have "order_items ?e = JArr (map (\<lambda>v. if v = JUndef then JNull else to_json v) items)"
    by (simp add: order_items_def e obj_get_json order_created_payload_def) (simp add: obj_get_def js_or_def)
  then have stock: "\<exists>b. has_out_of_stock (order_items ?e) = Inr b"
    using acceptable_items_stocked [OF items(1)] by (simp add: has_out_of_stock_def)
  have "length (take 8 (uuid_src w (Suc (uuid_next w)))) < length (uuid_src w n)" for n
    using ids by (simp add: ids_unused_def)
  then have "take 8 (uuid_src w (Suc (uuid_next w))) \<noteq> uuid_src w n" for n by (metis less_irrefl)
  then have old: "old_id w' (event_id ?e)" by (simp add: old_id_def e w' order_written_frame)
  have fresh: "fresh_events w'" "\<not> handled SagaOrchestrator ?e w'"
    using ids by (simp_all add: fresh_events_def handled_def e ids_unused_def Let_def w' order_written_frame)
  have saga: "order_saga ?e w' = None" "saga_table_ok (saga_instances (db w'))"
    using ids sagas by (simp_all add: order_saga_def e ids_unused_def w' order_written_frame)
  show ?thesis
    unfolding order_arrived_def bus last_snoc
    by (intro conjI) (use read e stock old fresh saga request_message_read(1) [OF year, of r user items opts tot] in simp_all)
qed

lemma accepted_request:
  assumes ok: "order_request_ok b" "obj_get b ''items'' = JArr items"
    and run: "post_orders (JObj b) r w = (Inr res, r', w')" "res_code res = 202"
    and calm: "db_script w = []" "kafka_script w = []" and ready: "relay_ready r w"
  shows "\<exists>tot usr amount. res_body res = AcceptedBody (request_id w) tot (now w) \<and>
    w' = swept r (order_written (obj_get b ''user_id'') items (http_options b) tot usr amount w)"
proof -
  let ?user = "obj_get b ''user_id''" and ?opts = "http_options b"
  obtain ord r1 w1 where a: "accept_order ?user items ?opts r w = (Inr ord, r1, w1)"
    and res: "res_body res = AcceptedBody (order_id ord) (order_total_amount ord) (order_created_at ord)" "w' = w1"
    using run unfolding post_orders_good [OF ok] by (auto split: prod.splits sum.splits)
  obtain tot usr amount where t: "order_total (Fin 0) items = Inr tot" "text_column 100 ?user = Inr usr" "pg_decimal (JNum tot) = Inr amount"
    using accepted_parts [OF a calm(1)] by blast
  have "isRunning r" "\<not> isProcessing r" "workerId r \<noteq> []" using ready by (simp_all add: relay_ready_def)
  from accept_order_run [OF t calm this, of ?opts] show ?thesis
    using a res by (auto simp: request_order_def new_order_def)
qed

section \<open>From the request to the outcome\<close>

text \<open>C4: every accepted order is settled as it should be, from the request to the end.  Let
  \<open>POST /orders\<close> answer 202 on a platform where nothing fails, whose relay has nothing else
  to send, and whose identifiers are new; and let the orchestrator and the services then
  read the log from this order on, in any order, with repetitions and among deliveries of these
  messages to the other consumers, each round reaching what was on the log when it began;
  messages of older orders are not delivered meanwhile.  After twelve rounds the saga of the order
  that the answer names is in the state that its items, its user, its total and the chaos
  configuration determine.\<close>

theorem accepted_order_is_fulfilled:
  assumes "order_request_ok b" "obj_get b ''items'' = JArr items"
    and "post_orders (JObj b) r w = (Inr res, r', w')" "res_code res = 202"
    and "db_script w = []" "kafka_script w = []" "relay_ready r w" "ids_unused w" "saga_table_ok (saga_instances (db w))"
    and "rounds (length (bus w)) dss w'" "12 \<le> length dss" "now (run_rounds dss w') < 2 ^ 47"
  shows "\<exists>tot s. res_body res = AcceptedBody (request_id w) tot (now w) \<and>
    latest_saga (request_id w) (saga_instances (db (run_rounds dss w'))) = Some s \<and>
    state s = order_outcome (chaos w) (request_read r (obj_get b ''user_id'') items (http_options b) tot w)"
proof -
  obtain tot usr amount where a: "res_body res = AcceptedBody (request_id w) tot (now w)"
    and w': "w' = swept r (order_written (obj_get b ''user_id'') items (http_options b) tot usr amount w)"
    using accepted_request [OF assms(1-7)] by blast
  let ?e = "request_read r (obj_get b ''user_id'') items (http_options b) tot w"
  have "now w \<le> now (run_rounds dss w')"
    using onward_time [OF run_rounds_onward [of w' dss]] by (simp add: w' order_written_frame)
  then have year: "iso_year (now w) < 10000" using assms(12) by (intro year_bound) linarith
  have items: "list_all acceptable_item items" "items \<noteq> []" using assms(1,2) by (simp_all add: order_request_ok_def)
  have w: "order_arrived ?e w'" "length (bus w') - 1 = length (bus w)"
    using request_arrives [OF assms(5,6) year assms(7-9) items w'] by blast+
  have calm: "db_script w' = []" "kafka_script w' = []" "chaos w' = chaos w"
    using assms(5,6) by (simp_all add: w' order_written_frame)
  have "rounds (length (bus w') - 1) dss w'" using assms(10) w(2) by simp
  from arrived_order_ends [OF w(1) calm(1,2) this assms(11,12)] obtain s where
    "order_saga ?e (run_rounds dss w') = Some s" "state s = order_outcome (chaos w') ?e" by blast
  then show ?thesis using a calm(3) by (simp add: order_saga_def request_read_def)
qed

text \<open>A platform with long uuids, an idle relay and a request.\<close>

definition demo_platform :: world where
  "demo_platform = demo_world\<lparr>uuid_src := (\<lambda>n. ''uuid-'' @ nat_string (10000000 + int n))\<rparr>"

lemma nat_string_long: "10 ^ k \<le> n \<Longrightarrow> k < length (nat_string n)"
proof (induction k arbitrary: n)
  case (Suc k)
  have "10 ^ k \<le> n div 10" using zdiv_mono1 [OF Suc.prems, of 10] by simp
  moreover have "10 \<le> n" using order_trans [OF _ Suc.prems, of 10] self_le_power [of "10 :: int" "Suc k"] by simp
  ultimately show ?case using Suc.IH [of "n div 10"] by (simp add: nat_string.simps [of n])
qed (simp add: nat_string.simps)

lemma demo_platform_ready:
  "db_script demo_platform = []" "kafka_script demo_platform = []" "bus demo_platform = []" "now demo_platform = 0"
  "relay_ready demo_relay demo_platform" "ids_unused demo_platform" "saga_table_ok (saga_instances (db demo_platform))"
  "instant demo_platform" "chaos demo_platform = DEFAULT_CHAOS_CONFIG"
proof -
  show s: "db_script demo_platform = []" "kafka_script demo_platform = []" "bus demo_platform = []" "now demo_platform = 0"
    "saga_table_ok (saga_instances (db demo_platform))" and c: "chaos demo_platform = DEFAULT_CHAOS_CONFIG"
    by (simp_all add: demo_platform_def saga_table_ok_def) (simp_all add: demo_world_def)
  show "relay_ready demo_relay demo_platform"
    by (simp add: relay_ready_def demo_platform_def lease_table_ok_def unique_by_def)
  have "8 < length (uuid_src demo_platform n)" for n
    using nat_string_long [of 7 "10000000 + int n"] by (simp add: demo_platform_def)
  moreover have "inj (uuid_src demo_platform)" by (simp add: demo_platform_def inj_def nat_string_inj)
  moreover have "\<not> event_processed i c (db demo_platform)" for i c
    by (simp add: demo_platform_def event_processed_def demo_world_def createTables_def empty_database_def)
  ultimately show "ids_unused demo_platform"
    by (simp add: ids_unused_def Let_def) (simp add: demo_platform_def)
  show "instant demo_platform"
    by (simp add: instant_def s c chaos_delay_def DEFAULT_CHAOS_CONFIG_def split: chaos_service.split)
qed

theorem accepted_order_is_fulfilled_witness:
  "\<exists>res w' dss s. post_orders (JObj demo_request) demo_relay demo_platform = (Inr res, demo_relay, w') \<and> res_code res = 202 \<and>
     latest_saga (request_id demo_platform) (saga_instances (db (run_rounds dss w'))) = Some s \<and> state s = COMPLETED"
proof -
  let ?w = demo_platform and ?opts = "http_options demo_request"
  have ok: "order_request_ok demo_request"
    by (simp add: order_request_ok_def) (simp add: demo_sample_def acceptable_item_def obj_get_def num_def)
  define w' where "w' = swept demo_relay (order_written (JStr ''user_1'') demo_sample ?opts (Fin 0) ''user_1'' (Fin 0) ?w)"
  have "accept_order (JStr ''user_1'') demo_sample ?opts demo_relay ?w =
      (Inr (request_order (JStr ''user_1'') demo_sample (Fin 0) ?w), demo_relay, w')"
    unfolding w'_def by (rule accept_order_run [OF demo_sample_total demo_user pg_decimal_zero demo_platform_ready(1,2)]) simp_all
  then obtain res where run: "post_orders (JObj demo_request) demo_relay ?w = (Inr res, demo_relay, w')" "res_code res = 202"
    and body: "\<And>tot. res_body res = AcceptedBody (request_id ?w) tot (now ?w) \<Longrightarrow> tot = Fin 0"
    by (simp add: post_orders_good [OF ok] request_order_def new_order_def)
  let ?e = "request_read demo_relay (JStr ''user_1'') demo_sample ?opts (Fin 0) ?w"
  have year: "iso_year (now ?w) < 10000" by (simp add: demo_platform_ready)
  have items: "list_all acceptable_item demo_sample" "demo_sample \<noteq> []"
    using ok by (simp_all add: order_request_ok_def)
  have arrived: "order_arrived ?e w'" "length (bus w') - 1 = 0"
    using request_arrives [OF demo_platform_ready(1,2) year demo_platform_ready(5-7) items w'_def] by (simp_all add: demo_platform_ready)
  have frame: "db_script w' = []" "kafka_script w' = []" "chaos w' = DEFAULT_CHAOS_CONFIG" "now w' = 0"
    by (simp_all add: w'_def order_written_frame demo_platform_ready)
  then have "instant w'" using demo_platform_ready(8) by (simp add: instant_def demo_platform_ready)
  then have still: "now (run_rounds (visit_rounds 0 12 w') w') = 0"
    using visit_still [OF _ arrived_inv(1) [OF arrived(1) frame(1,2)], of 0 _ w' 12] arrived_inv(2) [OF arrived(1) frame(1,2)] arrived(2) frame(4)
    by simp
  have stock: "some_item (map (\<lambda>v. if v = JUndef then JNull else to_json v) demo_sample) = Inr False"
    by code_simp
  have trust: "\<not> is_high_risk False [(''user_id'', JStr ''user_1''), (''amount'', JNum (Fin 0))]" by code_simp
  have e: "payload ?e = obj_json (order_created_payload (request_id ?w) (JStr ''user_1'') demo_sample (Fin 0) (co_currency ?opts))"
    by (simp add: request_read_def)
  have "order_items ?e = JArr (map (\<lambda>v. if v = JUndef then JNull else to_json v) demo_sample)"
    "risk_fields ?e = [(''user_id'', JStr ''user_1''), (''amount'', JNum (Fin 0))]"
    by (simp_all add: order_items_def risk_fields_def e obj_get_json order_created_payload_def)
      (simp_all add: obj_get_def js_or_def num_def)
  then have out: "order_outcome (chaos ?w) ?e = COMPLETED"
    using stock trust
    by (simp add: order_outcome_def paid_def stocked_def trusted_def shipped_def has_out_of_stock_def demo_platform_ready
        shouldFail_def DEFAULT_CHAOS_CONFIG_def)
  show ?thesis
    using accepted_order_is_fulfilled [OF ok _ run demo_platform_ready(1,2,5-7), of demo_sample "visit_rounds 0 12 w'"]
      visit_rounds [of 0 12 w'] still out body run
    by (intro exI [of _ res] exI [of _ w'] exI [of _ "visit_rounds 0 12 w'"]) (auto simp: demo_platform_ready)
qed

end
