(* ===== verification/Typing.thy ===== *)
theory Typing
  imports Order_Flow
begin

text \<open>
  The types of the messages.  \<open>src/src/contracts/events\<close> has a schema for the payload of each
  event type, but nothing of the platform ever checks a payload against it.  This theory
  says what it means for payloads, commands and sagas to conform to the schemas, and that
  the saga's plan and the answers of the services do so whenever their inputs do.
\<close>

section \<open>Typed values\<close>

text \<open>A value as it comes out of JSON that a schema accepts, whatever zod's string formats are.\<close>

definition typed :: "schema \<Rightarrow> js \<Rightarrow> bool" where
  "typed s v \<longleftrightarrow> (\<forall>fmt. accepts fmt s v) \<and> to_json v = v"

text \<open>Values of known form.\<close>

lemma typed_simps [simp]:
  "typed (ZString n) (JStr s) \<longleftrightarrow> n \<le> length s"
  "typed z_datetime_or_string (JStr s)"
  "typed (ZNumber [NPositive]) (JNum (Fin r)) \<longleftrightarrow> 0 < r"
  "typed (ZNumber [NMin a, NMax b]) (JNum (Fin r)) \<longleftrightarrow> a \<le> r \<and> r \<le> b"
  "typed (ZEnum ss) (JStr s) \<longleftrightarrow> s \<in> set ss"
  "typed ZRecord (JObj ob) \<longleftrightarrow> obj_json ob = ob"
  "typed (ZArray (ZString 0) 0) (JArr (map JStr ss))"
  "typed (ZDefault z d) v \<longleftrightarrow> v = JUndef \<or> typed z v"
  "typed (ZOptional z) v \<longleftrightarrow> v = JUndef \<or> typed z v"
  by (auto simp: typed_def)

text \<open>The form of a value of known type.\<close>

lemma typed_string: "typed (ZString n) v \<Longrightarrow> \<exists>s. v = JStr s \<and> n \<le> length s"
  by (auto simp: typed_def)

lemma typed_time: "typed z_datetime_or_string v \<Longrightarrow> \<exists>s. v = JStr s"
  by (cases v) (auto simp: typed_def accepts_def split: if_splits)

lemma typed_positive: "typed (ZNumber [NPositive]) v \<Longrightarrow> \<exists>r > 0. v = JNum (Fin r)"
proof -
  assume v: "typed (ZNumber [NPositive]) v"
  then obtain n where n: "v = JNum n" "ncheck_ok n NPositive" by (auto simp: typed_def)
  then show "\<exists>r > 0. v = JNum (Fin r)" using v by (cases n) (auto simp: typed_def)
qed

lemma typed_array: "typed (ZArray s n) v \<Longrightarrow> \<exists>vs. v = JArr vs \<and> n \<le> length vs"
  by (cases v) (auto simp: typed_def)

lemma typed_object: "typed (ZObject fs) v \<or> typed ZRecord v \<Longrightarrow> \<exists>ob. v = JObj ob \<and> obj_json ob = ob"
  by (cases v) (auto simp: typed_def accepts_def)

abbreviation typed_items :: "js \<Rightarrow> bool" where
  "typed_items \<equiv> typed (ZArray OrderItemSchema 1)"

text \<open>A typed value is no falsy one that \<open>||\<close> would replace.\<close>

lemma typed_or [simp]:
  "typed (ZString (Suc 0)) v \<Longrightarrow> js_or v d = v" "typed (ZNumber [NPositive]) v \<Longrightarrow> js_or v d = v"
  "typed (ZArray s n) v \<Longrightarrow> js_or v d = v" "typed ZRecord v \<Longrightarrow> js_or v d = v" "js_or JUndef d = d"
  by (auto simp: js_or_def dest!: typed_string typed_positive typed_array typed_object [OF disjI2])

lemma typed_or_text:
  "v = JUndef \<or> typed (ZString 0) v \<Longrightarrow> s \<noteq> [] \<Longrightarrow> typed (ZString (Suc 0)) (js_or v (JStr s))"
  by (auto simp: js_or_def dest!: typed_string)

section \<open>Typed payloads\<close>

text \<open>The payload of an event, as it is read from the log.\<close>

definition typed_payload :: "event_type \<Rightarrow> obj \<Rightarrow> bool" where
  "typed_payload ty pl \<longleftrightarrow> (\<forall>fmt. accepts fmt (payload_schema ty) (JObj pl)) \<and> obj_json pl = pl"

lemmas shapes = payload_schema.simps [unfolded
  OrderCreatedPayloadSchema_def OrderCancelledPayloadSchema_def PaymentRequestedPayloadSchema_def
  PaymentAuthorizedPayloadSchema_def PaymentRejectedPayloadSchema_def PaymentRefundRequestedPayloadSchema_def
  PaymentRefundedPayloadSchema_def InventoryReservationRequestedPayloadSchema_def InventoryReservedPayloadSchema_def
  InventoryReservationFailedPayloadSchema_def InventoryReleasedPayloadSchema_def FraudCheckRequestedPayloadSchema_def
  FraudApprovedPayloadSchema_def FraudRejectedPayloadSchema_def ShipmentRequestedPayloadSchema_def
  ShipmentCreatedPayloadSchema_def ShipmentFailedPayloadSchema_def NotificationRequestedPayloadSchema_def
  NotificationSentPayloadSchema_def OrderCompletedPayloadSchema_def OrderFailedPayloadSchema_def]

lemma typed_payload_fields:
  assumes "typed_payload ty pl" "payload_schema ty = ZObject fs" "(k, s) \<in> set fs"
  shows "typed s (obj_get pl k)"
  using assms json_fixed [of pl k] by (auto simp: typed_payload_def typed_def accepts_object)

lemma typed_payloadI:
  assumes "payload_schema ty = ZObject fs" "distinct (map fst pl)" "\<forall>(k, s) \<in> set fs. typed s (obj_get pl k)"
  shows "typed_payload ty (obj_json pl)"
  using assms by (auto simp: typed_payload_def accepts_object obj_get_json typed_def)

text \<open>A command: the payload that its receiver will read.\<close>

definition typed_command :: "emit_params \<Rightarrow> bool" where
  "typed_command p \<longleftrightarrow> typed_payload (e_eventType p) (obj_json (e_payload p))"

lemma typed_replyI:
  assumes "payload_schema ty = ZObject fs" "distinct (map fst pl)" "list_all (\<lambda>(k, s). typed s (obj_get pl k)) fs"
  shows "typed_command (reply e tpc ty agg pl)"
  using typed_payloadI [OF assms(1,2)] assms(3) by (simp add: typed_command_def reply_def list_all_iff)

section \<open>Typed sagas\<close>

text \<open>What the saga remembers of its order.\<close>

definition order_data :: "obj \<Rightarrow> bool" where
  "order_data ctx \<longleftrightarrow>
     typed (ZString 1) (obj_get ctx ''user_id'') \<and> typed (ZNumber [NPositive]) (obj_get ctx ''total_amount'') \<and>
     typed_items (obj_get ctx ''items'') \<and> typed ZRecord (obj_get ctx ''shipping_address'')"

definition typed_context :: "saga_state \<Rightarrow> obj \<Rightarrow> bool" where
  "typed_context st ctx \<longleftrightarrow> order_data ctx \<and>
     (st \<in> {INVENTORY_PENDING, FRAUD_PENDING, SHIPPING_PENDING} \<longrightarrow> typed (ZString 1) (obj_get ctx ''payment_id'')) \<and>
     (st \<in> {FRAUD_PENDING, SHIPPING_PENDING} \<longrightarrow> typed (ZString 1) (obj_get ctx ''reservation_id''))"

definition typed_saga :: "saga_row \<Rightarrow> bool" where
  "typed_saga r \<longleftrightarrow> typed_context (state r) (sg_context r)"

text \<open>Storing a context does not change its types.\<close>

lemma typed_context_json:
  assumes "distinct (map fst ctx)" "typed_context st ctx"
  shows "typed_context st (obj_json ctx)"
proof -
  have get: "typed s (obj_get ctx k) \<Longrightarrow> typed s (obj_get (obj_json ctx) k)" for s k
    using assms(1) by (simp add: obj_get_json typed_def)
  show ?thesis using assms(2) get unfolding typed_context_def order_data_def by blast
qed

section \<open>The saga keeps the types\<close>

text \<open>An event as a consumer may read it.\<close>

definition typed_event :: "envelope \<Rightarrow> bool" where
  "typed_event e \<longleftrightarrow> typed_payload (event_type e) (payload e) \<and>
     aggregate_id e \<noteq> [] \<and> correlation_id e \<noteq> [] \<and> event_id e \<noteq> []"

lemma typed_event_field:
  "typed_event e \<Longrightarrow> event_type e = ty \<Longrightarrow> payload_schema ty = ZObject fs \<Longrightarrow> (k, s) \<in> set fs \<Longrightarrow>
   typed s (obj_get (payload e) k)"
  by (auto simp: typed_event_def intro: typed_payload_fields)

definition planned_types :: "saga_data \<Rightarrow> emit_params list \<Rightarrow> bool" where
  "planned_types s cmds \<longleftrightarrow> typed_context (sv_state s) (sv_context s) \<and> (\<forall>p \<in> set cmds. typed_command p)"

lemma order_data_put:
  "''user_id'' \<noteq> k \<Longrightarrow> ''total_amount'' \<noteq> k \<Longrightarrow> ''items'' \<noteq> k \<Longrightarrow> ''shipping_address'' \<noteq> k \<Longrightarrow>
   order_data (obj_put k v ctx) = order_data ctx"
  by (simp add: order_data_def)

lemma plan_order_types:
  assumes e: "typed_event e" and ty: "event_type e = OrderCreated" and plan: "plan_order e saga = (s, c)"
  shows "planned_types s c"
proof -
  let ?p = "obj_get (payload e)"
  note f = typed_event_field [OF e ty shapes(1)]
  have t: "typed (ZString 1) (?p ''user_id'')" "typed (ZNumber [NPositive]) (?p ''total_amount'')"
    "typed_items (?p ''items'')" "typed (ZDefault (ZString 0) (JStr ''USD'')) (?p ''currency'')"
    by (rule f; simp)+
  have "?p ''shipping_address'' = JUndef \<or> (\<exists>ad. ?p ''shipping_address'' = JObj ad \<and> obj_json ad = ad)"
    using f [of "''shipping_address''"] typed_object by fastforce
  then have "typed ZRecord (js_or (?p ''shipping_address'') (JObj []))" by (auto simp: js_or_def)
  then have "order_data (order_context e)"
    using t by (simp add: order_data_def order_context_def Let_def)
  moreover have "typed (ZString 0) (js_or (?p ''currency'') (JStr ''USD''))"
    using t(4) by (auto simp: js_or_def)
  then have "typed_command (reply e PaymentsTopic PaymentRequested ''Payment'' (payment_request e))"
    using t e by (intro typed_replyI [OF shapes(3)])
      (simp_all add: payment_request_def Let_def typed_event_def)
  ultimately show ?thesis
    using plan by (auto simp: planned_types_def plan_order_def new_saga_def typed_context_def)
qed

text \<open>The commands that the saga makes from what it remembers.\<close>

lemma forward_commands_typed:
  assumes e: "typed_event e" and ctx: "order_data ctx"
  shows "typed_command (reply e tpc InventoryReservationRequested agg
           [(''order_id'', JStr (aggregate_id e)), (''items'', js_or (obj_get ctx ''items'') (JArr []))])"
    and "typed (ZString 1) (obj_get ctx ''payment_id'') \<Longrightarrow>
         typed_command (reply e tpc FraudCheckRequested agg
           [(''order_id'', JStr (aggregate_id e)), (''user_id'', js_or (obj_get ctx ''user_id'') (JStr ''unknown'')),
            (''amount'', js_or (obj_get ctx ''total_amount'') (num 0)),
            (''payment_id'', obj_get ctx ''payment_id'')])"
    and "typed_command (reply e tpc ShipmentRequested agg
           [(''order_id'', JStr (aggregate_id e)), (''user_id'', js_or (obj_get ctx ''user_id'') (JStr ''unknown'')),
            (''items'', js_or (obj_get ctx ''items'') (JArr [])),
            (''shipping_address'', js_or (obj_get ctx ''shipping_address'') (JObj []))])"
    and "reason \<noteq> [] \<Longrightarrow> typed_command (reply e tpc OrderFailed agg
           [(''order_id'', JStr (aggregate_id e)), (''user_id'', js_or (obj_get ctx ''user_id'') (JStr ''unknown'')),
            (''reason'', JStr reason), (''failed_at'', JStr ts), (''failed_step'', JStr ''PAYMENT''),
            (''compensation_status'', JStr ''NO_COMPENSATION_NEEDED'')])"
  using e ctx by (auto simp: typed_event_def order_data_def intro!: typed_replyI [OF shapes(8)]
      typed_replyI [OF shapes(12)] typed_replyI [OF shapes(15)] typed_replyI [OF shapes(21)])

lemma undo_commands_typed:
  assumes e: "typed_event e" and ctx: "order_data ctx" and why: "reason \<noteq> []"
  shows "typed (ZString 1) (obj_get ctx ''payment_id'') \<Longrightarrow>
         typed_command (reply e tpc PaymentRefundRequested agg (refund_request e ctx reason))"
    and "typed (ZString 1) (obj_get ctx ''reservation_id'') \<Longrightarrow>
         typed_command (reply e tpc InventoryReleased agg (release_request e ctx ts reason))"
  using assms by (auto simp: typed_event_def order_data_def refund_request_def release_request_def
      dest!: typed_string intro!: typed_replyI [OF shapes(6)] typed_replyI [OF shapes(11)])

lemma closing_commands_typed:
  assumes e: "typed_event e" "event_type e = ShipmentCreated" and ctx: "order_data ctx"
    and "typed (ZString 1) (obj_get ctx ''payment_id'')" "obj_get ctx ''completed_at'' = JStr ts"
  shows "typed_command (reply e tpc OrderCompleted agg (order_completed e ctx))"
    and "typed_command (reply e tpc NotificationRequested agg (notification_request e ctx))"
proof -
  have f: "typed (ZString 1) (obj_get (payload e) ''shipment_id'')" "typed (ZString 1) (obj_get (payload e) ''tracking_number'')"
    by (rule typed_event_field [OF e shapes(16)]; simp)+
  have "to_json (obj_get ctx ''total_amount'') = obj_get ctx ''total_amount''"
    "to_json (obj_get (payload e) ''tracking_number'') = obj_get (payload e) ''tracking_number''"
    "obj_get ctx ''total_amount'' \<noteq> JUndef" "obj_get (payload e) ''tracking_number'' \<noteq> JUndef"
    using ctx f(2) unfolding order_data_def typed_def by auto
  then show "typed_command (reply e tpc NotificationRequested agg (notification_request e ctx))"
    using assms by (auto simp: typed_event_def order_data_def notification_request_def
        intro!: typed_replyI [OF shapes(18)])
  show "typed_command (reply e tpc OrderCompleted agg (order_completed e ctx))"
    using assms f by (auto simp: typed_event_def order_data_def order_completed_def
        dest!: typed_string [of "Suc 0"] intro!: typed_replyI [OF shapes(20)])
qed

lemma cancelled_typed:
  assumes e: "typed_event e" and ctx: "order_data (sg_context r)" and row: "saga_row_ok r" "state r = COMPENSATING"
  shows "typed_command (reply e tpc OrderCancelled agg (order_cancelled (aggregate_id e) ts (cancellation r action)))"
proof -
  obtain p d where l: "barrier_lists r p d" using row by (auto simp: saga_row_ok_def)
  have "typed (ZArray (ZString 0) 0) (JArr (completed_list (sg_context r) action))"
    by (simp add: barrier_lists_step(1) [OF l])
  then show ?thesis
    using e ctx by (auto simp: typed_event_def order_data_def order_cancelled_def cancellation_def or_string_def or_null_def
        split: option.split list.split intro!: typed_replyI [OF shapes(2)])
qed

section \<open>The transition table keeps the types\<close>

lemma typed_contextD: "typed_context st ctx \<Longrightarrow> order_data ctx"
  by (simp add: typed_context_def)

lemma start_compensation_data:
  assumes "key \<notin> {''user_id'', ''total_amount'', ''items'', ''shipping_address'', ''payment_id'', ''reservation_id''}"
  shows "order_data (start_compensation key v pending ctx) = order_data ctx"
    and "obj_get (start_compensation key v pending ctx) ''payment_id'' = obj_get ctx ''payment_id''"
    and "obj_get (start_compensation key v pending ctx) ''reservation_id'' = obj_get ctx ''reservation_id''"
  using assms by (auto simp: start_compensation_def order_data_put)

lemma plan_types:
  assumes e: "typed_event e" and plan: "saga_plan e ts saga = Some (s, c)"
    and row: "\<And>r. saga = Some r \<Longrightarrow> saga_row_ok r \<and> typed_saga r"
  shows "planned_types s c"
proof (cases saga)
  case None
  then show ?thesis
    using plan plan_order_types [OF e] by (auto simp: saga_plan_def split: if_splits)
next
  case (Some r)
  then have ok: "saga_row_ok r" and t: "typed_context (state r) (sg_context r)" using row by (simp_all add: typed_saga_def)
  note ctx = typed_contextD [OF t]
  note commands = forward_commands_typed [OF e] undo_commands_typed [OF e] closing_commands_typed [OF e]
  note defs = saga_plan_def plan_forward_def plan_compensation_def planned_types_def advance_def typed_context_def
    order_data_put start_compensation_data Let_def
  show ?thesis
  proof (cases "state r")
    case CREATED
    then show ?thesis
      using plan Some plan_order_types [OF e] by (auto simp: saga_plan_def split: if_splits)
  next
    case PAYMENT_PENDING
    then show ?thesis
      using plan Some ctx typed_event_field [OF e _ shapes(4), of "''payment_id''"]
      by (auto simp: defs intro!: commands split: if_splits)
  next
    case INVENTORY_PENDING
    then show ?thesis
      using plan Some ctx t typed_event_field [OF e _ shapes(9), of "''reservation_id''"]
      by (auto simp: defs intro!: commands split: if_splits)
  next
    case FRAUD_PENDING
    then show ?thesis
      using plan Some ctx t by (auto simp: defs intro!: commands split: if_splits)
  next
    case SHIPPING_PENDING
    then show ?thesis
      using plan Some ctx t by (auto simp: defs intro!: commands split: if_splits)
  next
    case COMPENSATING
    then show ?thesis
      using plan Some ctx cancelled_typed [OF e ctx ok COMPENSATING]
      by (auto simp: saga_plan_def plan_barrier_def planned_types_def barrier_data_def typed_context_def
          order_data_put Let_def split: if_splits)
  qed (use plan Some in \<open>simp_all add: saga_plan_def\<close>)
qed

lemma plan_distinct:
  assumes "saga_plan e ts saga = Some (s, c)" "\<And>r. saga = Some r \<Longrightarrow> saga_row_ok r"
  shows "distinct (map fst (sv_context s))"
proof (cases saga)
  case None
  then show ?thesis
    using assms(1) by (auto simp: saga_plan_def plan_order_def new_saga_def order_context_def Let_def split: if_splits)
next
  case (Some r)
  then have "distinct (map fst (sg_context r))" using assms(2) by (simp add: saga_row_ok_def)
  then show ?thesis
    using assms(1) Some
    by (cases "state r") (auto simp: saga_plan_def plan_order_def plan_forward_def plan_compensation_def plan_barrier_def
        new_saga_def order_context_def advance_def barrier_data_def start_compensation_def Let_def
        intro!: distinct_fst_put split: if_splits)
qed

lemma typed_reply_ok:
  "typed_event e \<Longrightarrow> fits tpc ty \<Longrightarrow> agg \<noteq> [] \<Longrightarrow> name \<noteq> [] \<Longrightarrow> command_ok name (reply e tpc ty agg pl)"
  by (rule command_okI) (simp_all add: reply_def typed_event_def)

lemma plan_readable:
  assumes "typed_event e" "saga_plan e ts saga = Some (s, c)"
  shows "\<forall>p \<in> set c. command_ok saga_name p"
  using assms(2) typed_reply_ok [OF assms(1)]
  by (cases saga; cases "state (the saga)")
    (auto simp: saga_plan_def plan_order_def plan_forward_def plan_compensation_def plan_barrier_def fits_def
      saga_topics_def Let_def split: if_splits)

section \<open>The messages of the services\<close>

text \<open>A message whose payload conforms to the schema of its event type.\<close>

definition typed_send :: "message \<Rightarrow> bool" where
  "typed_send x \<longleftrightarrow> m_topic x = DlqTopic \<or>
     (\<exists>name p t u. x = emit_message name p (emit_envelope name t u p) \<and> typed_command p \<and> command_ok name p)"

lemma typed_sendI [simp]:
  "typed_command p \<Longrightarrow> command_ok name p \<Longrightarrow> typed_send (emit_message name p (emit_envelope name t u p))"
  unfolding typed_send_def by blast

lemma sends_typed:
  "typed_command p \<Longrightarrow> command_ok name p \<Longrightarrow> sends typed_send (emit_event name p)"
  by (rule sends_emit_event) simp

lemma sends_random:
  assumes "0 < n" "\<And>k. k < n \<Longrightarrow> sends P (f k)"
  shows "sends P (bindE (random_below n) f)"
  unfolding sends_def
proof
  fix w :: world
  let ?w1 = "w\<lparr>rand_next := Suc (rand_next w)\<rparr>"
  have "sends P (f (rand_src w (rand_next w) mod n))" using assms by simp
  then obtain ms where "bus (snd (f (rand_src w (rand_next w) mod n) ?w1)) = bus ?w1 @ ms" "list_all P ms" by (rule sendsE)
  then show "\<exists>ms. bus (snd (bindE (random_below n) f w)) = bus w @ ms \<and> list_all P ms"
    by (simp add: bindE_def random_below_def)
qed

lemma service_ok:
  assumes "typed_event e" "name \<noteq> []"
  shows "command_ok name (reply e PaymentsTopic PaymentRejected ''Payment'' pl)"
    "command_ok name (reply e PaymentsTopic PaymentAuthorized ''Payment'' pl)"
    "command_ok name (reply e PaymentsTopic PaymentRefunded ''Payment'' pl)"
    "command_ok name (reply e InventoryTopic InventoryReserved ''Inventory'' pl)"
    "command_ok name (reply e InventoryTopic InventoryReservationFailed ''Inventory'' pl)"
    "command_ok name (reply e FraudTopic FraudApproved ''Fraud'' pl)"
    "command_ok name (reply e FraudTopic FraudRejected ''Fraud'' pl)"
    "command_ok name (reply e ShippingTopic ShipmentCreated ''Shipment'' pl)"
    "command_ok name (reply e ShippingTopic ShipmentFailed ''Shipment'' pl)"
  by (rule typed_reply_ok [OF assms(1) _ _ assms(2)]; simp add: fits_def saga_topics_def)+

lemma payment_answers_typed:
  assumes e: "typed_event e"
  shows "event_type e = PaymentRequested \<Longrightarrow> typed_command (reply e tpc PaymentRejected agg (payment_rejected e ts))"
    and "event_type e = PaymentRequested \<Longrightarrow> typed_command (reply e tpc PaymentAuthorized agg (payment_authorized e u n ts))"
    and "event_type e = PaymentRefundRequested \<Longrightarrow> typed_command (reply e tpc PaymentRefunded agg (payment_refunded e u ts))"
proof -
  have id: "aggregate_id e \<noteq> []" using e by (simp add: typed_event_def)
  let ?p = "obj_get (payload e)"
  {
    assume ty: "event_type e = PaymentRequested"
    have "typed (ZString 1) (?p ''user_id'')" "typed (ZNumber [NPositive]) (?p ''amount'')"
      by (rule typed_event_field [OF e ty shapes(3)]; simp)+
    then show "typed_command (reply e tpc PaymentRejected agg (payment_rejected e ts))"
      "typed_command (reply e tpc PaymentAuthorized agg (payment_authorized e u n ts))"
      using id by (auto simp: payment_rejected_def payment_authorized_def Let_def
          intro!: typed_replyI [OF shapes(4)] typed_replyI [OF shapes(5)])
  }
  assume ty: "event_type e = PaymentRefundRequested"
  have "typed (ZOptional (ZString 0)) (?p ''payment_id'')" "typed (ZNumber [NPositive]) (?p ''amount'')"
    by (rule typed_event_field [OF e ty shapes(6)]; simp)+
  then show "typed_command (reply e tpc PaymentRefunded agg (payment_refunded e u ts))"
    using id by (auto simp: payment_refunded_def Let_def typed_or_text intro!: typed_replyI [OF shapes(7)])
qed

lemma inventory_answers_typed:
  assumes e: "typed_event e" and ty: "event_type e = InventoryReservationRequested"
  defines "items \<equiv> js_or (obj_get (payload e) ''items'') (JArr [])"
  shows "typed_command (reply e tpc InventoryReservationFailed agg (reservation_failed e items failing ts))"
    and "typed_command (reply e tpc InventoryReserved agg (reservation_made e items u ts))"
proof -
  have "typed_items (obj_get (payload e) ''items'')"
    by (rule typed_event_field [OF e ty shapes(8)]) simp
  then show "typed_command (reply e tpc InventoryReservationFailed agg (reservation_failed e items failing ts))"
    "typed_command (reply e tpc InventoryReserved agg (reservation_made e items u ts))"
    using e by (auto simp: items_def typed_event_def reservation_failed_def reservation_made_def
        intro!: typed_replyI [OF shapes(9)] typed_replyI [OF shapes(10)])
qed

lemma fraud_answers_typed:
  assumes e: "typed_event e"
  shows "typed_command (reply e tpc FraudRejected agg (fraud_rejected e u failing ts))"
    and "n < 25 \<Longrightarrow> typed_command (reply e tpc FraudApproved agg (fraud_approved e u n ts))"
  using e by (auto simp: typed_event_def fraud_rejected_def fraud_approved_def num_def
      intro!: typed_replyI [OF shapes(13)] typed_replyI [OF shapes(14)])

lemma shipping_answers_typed:
  assumes e: "typed_event e"
  shows "typed_command (reply e tpc ShipmentFailed agg (shipment_failed e ts))"
    and "typed_command (reply e tpc ShipmentCreated agg (shipment_created e u n t))"
  using e by (auto simp: typed_event_def shipment_failed_def shipment_created_def
      intro!: typed_replyI [OF shapes(16)] typed_replyI [OF shapes(17)])

lemma notification_answer_typed:
  assumes e: "typed_event e" "event_type e = NotificationRequested"
  shows "typed_command (reply e NotificationsTopic NotificationSent ''Notification'' (notification_sent e u ts))"
    and "name \<noteq> [] \<Longrightarrow> command_ok name (reply e NotificationsTopic NotificationSent ''Notification'' pl)"
proof -
  let ?p = "obj_get (payload e)"
  have f: "typed (ZString 1) (?p ''user_id'')"
    "typed (ZDefault (ZEnum [''EMAIL'', ''SMS'', ''PUSH'', ''WEBHOOK'']) (JStr ''EMAIL'')) (?p ''channel'')"
    by (rule typed_event_field [OF e shapes(18)]; simp)+
  have "typed (ZString 1) (js_or (?p ''channel'') (JStr ''EMAIL''))"
    using f(2) by (cases "?p ''channel''") (auto simp: typed_def js_or_def)
  then show "typed_command (reply e NotificationsTopic NotificationSent ''Notification'' (notification_sent e u ts))"
    using f(1) e(1) by (auto simp: typed_event_def notification_sent_def Let_def intro!: typed_replyI [OF shapes(19)])
  have "event_of_name (event_name ty) = ty" if "ty = NotificationSent" for ty
  proof -
    have "ty \<in> set EventTypes" using that by (simp add: EventTypes_def)
    then show ?thesis by simp
  qed
  then have "event_of_name ''NotificationSent'' = NotificationSent" by simp
  then show "name \<noteq> [] \<Longrightarrow> command_ok name (reply e NotificationsTopic NotificationSent ''Notification'' pl)"
    using e(1) by (simp add: command_ok_def emit_params_ok_def reply_def typed_event_def)
qed

lemma services_send_typed:
  assumes "typed_event e"
  shows "sends typed_send (payment_processEvent e)" "sends typed_send (inventory_processEvent e)"
    "sends typed_send (fraud_processEvent e)" "sends typed_send (shipping_processEvent e)"
    "sends typed_send (notification_processEvent e)"
proof -
  note answers = payment_answers_typed [OF assms] inventory_answers_typed [OF assms] fraud_answers_typed [OF assms]
    shipping_answers_typed [OF assms] notification_answer_typed [OF assms] service_ok [OF assms]
  show "sends typed_send (payment_processEvent e)"
    unfolding payment_processEvent_def checkLatency_def should_fail_def
    by (intro sends_rules quiet_sends_basic sends_typed answers; simp)
  show "sends typed_send (inventory_processEvent e)"
    unfolding inventory_processEvent_def checkLatency_def should_fail_def Let_def
    by (intro sends_rules quiet_sends_basic sends_typed answers; simp)
  show "sends typed_send (fraud_processEvent e)"
    unfolding fraud_processEvent_def checkLatency_def should_fail_def
    by (intro sends_thenE sends_bindE [of _ "getsE f" for f] sends_bindE [of _ uuid8] sends_bindE [of _ iso_now]
        sends_random sends_if sends_whenE quiet_sends_basic sends_typed answers; simp)
  show "sends typed_send (shipping_processEvent e)"
    unfolding shipping_processEvent_def should_fail_def
    by (intro sends_rules quiet_sends_basic sends_typed answers; simp)
  show "sends typed_send (notification_processEvent e)"
    unfolding notification_processEvent_def should_fail_def
    by (intro sends_rules quiet_sends_basic sends_typed answers; simp)
qed

end
