(* ===== verification/Typing_Props.thy ===== *)
theory Typing_Props
  imports Typing Fulfilment_Props Http_Props
begin

text \<open>
  Type soundness of the platform: while the sagas conform to the types of \<open>Typing\<close> and every
  event on the log to the schema of its type, no delivery can change that.
\<close>

section \<open>One delivery\<close>

definition typed_table :: "saga_row list \<Rightarrow> bool" where
  "typed_table tbl \<longleftrightarrow> saga_table_ok tbl \<and> (\<forall>r \<in> set tbl. typed_saga r)"

definition keeps_types :: "world \<Rightarrow> world \<Rightarrow> bool" where
  "keeps_types w w' \<longleftrightarrow>
     (typed_table (saga_instances (db w)) \<longrightarrow>
        typed_table (saga_instances (db w')) \<and> (\<exists>ms. bus w' = bus w @ ms \<and> list_all typed_send ms))"

interpretation types: run_preorder keeps_types
proof
  show "keeps_types w w" for w by (simp add: keeps_types_def)
  show "keeps_types u x" if "keeps_types u v" "keeps_types v x" for u v x
    using that unfolding keeps_types_def by (metis append_assoc list_all_append)
qed

lemma keeps_types_house: "housekeeping w w' \<Longrightarrow> keeps_types w w'"
proof -
  assume h: "housekeeping w w'"
  then obtain ms where "bus w' = bus w @ ms" "list_all (\<lambda>m. m_topic m = DlqTopic) ms" by (auto simp: housekeeping_def)
  then have "bus w' = bus w @ ms \<and> list_all typed_send ms" by (simp add: list_all_iff typed_send_def)
  then show ?thesis unfolding keeps_types_def housekeeping_sagas [OF h] by blast
qed

lemma keeps_typesI:
  assumes "db_follows (\<lambda>d d'. saga_instances d' = saga_instances d) m" "sends typed_send m"
  shows "run_follows keeps_types m"
  using assms by (simp add: run_follows_def keeps_types_def db_follows_def sends_def)

text \<open>The row that a transition writes.\<close>

lemma planned_table_typed:
  assumes typed: "typed_table (saga_instances d)" and e: "typed_event e"
    and cur: "latest_saga (aggregate_id e) (saga_instances d) = saga"
    and plan: "saga_plan e ts saga = Some (s, c)"
  shows "typed_table (saga_instances (put_saga s t d))" "planned_types s c"
proof -
  have ok: "saga_table_ok (saga_instances d)" using typed by (simp add: typed_table_def)
  have ne: "aggregate_id e \<noteq> []" using e by (simp add: typed_event_def)
  have row: "saga_row_ok r \<and> typed_saga r" if "saga = Some r" for r
    using typed latest_saga_mem cur that by (auto simp: typed_table_def saga_table_ok_def)
  show types: "planned_types s c" by (rule plan_types [OF e plan row])
  have ctx: "typed_context (sv_state s) (obj_json (sv_context s))"
    using typed_context_json [OF plan_distinct [OF plan]] row types by (simp add: planned_types_def)
  have "typed_saga (new_saga_row t s)" "typed_saga (merge_saga t r (new_saga_row t s))" for r
    using ctx by (simp_all add: typed_saga_def merge_new_saga) (simp add: new_saga_row_def)
  then have "typed_saga r" if "r \<in> set (saga_instances (put_saga s t d))" for r
    using that typed unfolding put_planned_row [OF ok ne cur plan]
    by (auto simp: typed_table_def replace_saga_def set_update_rows split: option.splits if_splits)
  then show "typed_table (saga_instances (put_saga s t d))"
    using planned_table_ok [OF ok ne cur plan] by (simp add: typed_table_def)
qed

lemma sent_typed:
  assumes "sent r cmds ms" "\<forall>p \<in> set cmds. typed_command p \<and> command_ok saga_name p"
  shows "list_all typed_send ms"
proof -
  have "list_all typed_send ms" if "list_all2 is_command ps ms" "set ps \<subseteq> set cmds" for ps
    using that assms(2) by (induction rule: list_all2_induct) (auto simp: is_command_def)
  then show ?thesis
    using assms(1) set_take_subset by (fastforce simp: sent_def split: sum.splits)
qed

lemma saga_keeps_types:
  assumes e: "typed_event e"
  shows "run_follows keeps_types (saga_processEvent e)"
  unfolding run_follows_def
proof
  fix w :: world
  have ne: "aggregate_id e \<noteq> []" using e by (simp add: typed_event_def)
  then show "keeps_types w (snd (saga_processEvent e w))"
  proof (cases rule: run_cases [of e w])
    case idle
    then show ?thesis by (simp add: keeps_types_def)
  next
    case (planned ts s cmds t ms)
    show ?thesis
      unfolding keeps_types_def
    proof
      assume typed: "typed_table (saga_instances (db w))"
      note p = planned_table_typed [OF typed e refl planned(1)]
      have "list_all typed_send ms"
        using sent_typed [OF planned(4)] plan_readable [OF e planned(1)] p(2) by (simp add: planned_types_def)
      then show "typed_table (saga_instances (db (snd (saga_processEvent e w)))) \<and>
          (\<exists>ms. bus (snd (saga_processEvent e w)) = bus w @ ms \<and> list_all typed_send ms)"
        using p(1) planned(2,3) by auto
    qed
  qed
qed

lemma handler_keeps_types:
  assumes e: "typed_event e"
  shows "run_follows keeps_types (consumer_handler c e)"
proof (cases "c = SagaOrchestrator")
  case True
  then show ?thesis using saga_keeps_types [OF e] by simp
next
  case False
  have "sends typed_send (consumer_handler c e)"
  proof (cases "c = ProjectionConsumer")
    case True
    have "answers_with ProjectionConsumer e x \<Longrightarrow> typed_send x" for x by (simp add: answers_with_def)
    then show ?thesis using sends_mono [OF consumer_sends [of c e]] True by blast
  qed (use False services_send_typed [OF e] in \<open>cases c; simp\<close>)
  moreover have "db_follows (\<lambda>d d'. saga_instances d' = saga_instances d) (consumer_handler c e)"
    using False handlers_keep [of saga_instances e] projection_keeps [of saga_instances e] by (cases c) simp_all
  ultimately show ?thesis by (intro keeps_typesI)
qed

lemma delivery_keeps_types:
  assumes x: "reads_as x e" and e: "typed_payload (event_type e) (payload e)"
  shows "keeps_types w (snd (deliver c (received k x) w))"
proof -
  have typed: "typed_event e" using e reads_as_fields [OF x] by (simp add: typed_event_def)
  have "f = e" if "parse_message (em_value (received k x)) v = (Inr f, v')" for f v v'
    using that x by (auto simp: reads_as_def received_def parse_message_valid)
  then have "run_follows keeps_types (deliver c (received k x))"
    unfolding deliver_def
    using handler_keeps_types [OF typed] by (intro types.run_handleMessage_read keeps_types_house) blast+
  then show ?thesis by (rule run_followsD)
qed

section \<open>The payload of an accepted order\<close>

text \<open>
  An order of valid items with a positive total has a payload of its contract.  The handler of
  \<open>POST /orders\<close> asks for less, so an accepted order need not have one.
\<close>

lemma order_payload_typed:
  assumes "i \<noteq> []" "typed (ZString 1) user" "typed_items (JArr items)" "0 < tot"
    and "currency = JUndef \<or> typed (ZString 0) currency"
  shows "typed_payload OrderCreated (obj_json (order_created_payload i user items (Fin tot) currency))"
proof -
  have "typed (ZString 0) (js_or currency (JStr ''USD''))"
    using assms(5) by (auto simp: js_or_def)
  moreover have "typed (ZObject [(''street'', ZOptional (ZString 0)), (''city'', ZOptional (ZString 0)),
      (''zip'', ZOptional (ZString 0)), (''country'', ZDefault (ZString 0) (JStr ''US''))]) (JObj [(''country'', JStr ''US'')])"
    by (simp add: typed_def accepts_object)
  ultimately show ?thesis
    using assms(1-4) by (intro typed_payloadI [OF shapes(1)]) (simp_all add: order_created_payload_def)
qed

definition free_order :: obj where
  "free_order = [(''user_id'', JStr ''user_1''), (''items'', JArr [JObj [(''sku'', JStr ''GIFT-001''),
     (''name'', JStr ''Gift''), (''price'', num 0), (''quantity'', num 1)]])]"

lemma free_order_breaks_contract:
  "\<exists>items tot. order_request_ok free_order \<and> obj_get free_order ''items'' = JArr items \<and> order_total (Fin 0) items = Inr tot \<and>
     \<not> typed_payload OrderCreated (obj_json (ev_payload (request_event (obj_get free_order ''user_id'') items (http_options free_order) tot w)))"
proof -
  define items where "items = [JObj [(''sku'', JStr ''GIFT-001''), (''name'', JStr ''Gift''), (''price'', num 0), (''quantity'', num 1)]]"
  have items: "obj_get free_order ''items'' = JArr items" by (simp add: free_order_def items_def)
  have "order_total (Fin 0) items = Inr (Fin 0)" unfolding items_def by code_simp
  moreover have "order_request_ok free_order" by code_simp
  moreover have "\<not> typed_payload OrderCreated (obj_json (ev_payload (request_event user items opts (Fin 0) w)))" for user opts
  proof
    assume t: "typed_payload OrderCreated (obj_json (ev_payload (request_event user items opts (Fin 0) w)))"
    have "typed (ZNumber [NPositive]) (obj_get (obj_json (ev_payload (request_event user items opts (Fin 0) w))) ''total_amount'')"
      by (rule typed_payload_fields [OF t shapes(1)]) simp
    moreover have "distinct (map fst (ev_payload (request_event user items opts (Fin 0) w)))"
      by (simp add: request_event_def order_event_def order_created_payload_def)
    ultimately have "typed (ZNumber [NPositive]) (to_json (obj_get (ev_payload (request_event user items opts (Fin 0) w)) ''total_amount''))"
      by (simp only: obj_get_json)
    then show False
      by (simp add: request_event_def order_event_def order_created_payload_def)
  qed
  ultimately show ?thesis using items by blast
qed

section \<open>Every schedule\<close>

definition well_typed :: "world \<Rightarrow> bool" where
  "well_typed w \<longleftrightarrow> typed_table (saga_instances (db w)) \<and>
     (\<forall>x \<in> set (bus w). m_topic x = DlqTopic \<or> (\<exists>e. reads_as x e \<and> typed_payload (event_type e) (payload e)))"

lemma typed_send_reads:
  assumes "typed_send x" "m_topic x \<noteq> DlqTopic" "drawn w w' n x" "now w' < 2 ^ 47"
  shows "\<exists>e. reads_as x e \<and> typed_payload (event_type e) (payload e)"
proof -
  obtain name p t u where x: "x = emit_message name p (emit_envelope name t u p)" "typed_command p" "command_ok name p"
    using assms(1,2) by (auto simp: typed_send_def)
  then obtain e where "becomes p e" "reads_as x e" using drawn_reads assms(3,4) by blast
  then show ?thesis using x(2) by (auto simp: becomes_def typed_command_def)
qed

lemma delivery_well_typed:
  assumes w: "well_typed w" and t: "now (deliver_at d w) < 2 ^ 47"
  shows "well_typed (deliver_at d w)"
proof -
  obtain c k where d: "d = (c, k)" by (cases d)
  show ?thesis
  proof (cases "k < length (bus w) \<and> subscribed c (bus w ! k)")
    case True
    let ?x = "bus w ! k" and ?w' = "deliver_at d w"
    have w': "?w' = snd (deliver c (received k ?x) w)" using True by (simp add: d deliver_at_def)
    have "m_topic ?x \<noteq> DlqTopic" using True by (cases c) (auto simp: subscribed_def saga_topics_def projection_topics_def)
    then obtain e where "reads_as ?x e" "typed_payload (event_type e) (payload e)"
      using w True nth_mem unfolding well_typed_def by blast
    then have "keeps_types w ?w'" unfolding w' by (rule delivery_keeps_types)
    then obtain ms where ms: "typed_table (saga_instances (db ?w'))" "bus ?w' = bus w @ ms" "list_all typed_send ms"
      using w by (auto simp: keeps_types_def well_typed_def)
    obtain ns where ns: "list_all2 (drawn w ?w') ns (filter (\<lambda>x. m_topic x \<noteq> DlqTopic) ms)"
      using deliver_at_onward [of w d] ms(2) by (auto simp: onward_def)
    have "\<exists>e. reads_as x e \<and> typed_payload (event_type e) (payload e)" if "x \<in> set ms" "m_topic x \<noteq> DlqTopic" for x
    proof -
      let ?es = "filter (\<lambda>x. m_topic x \<noteq> DlqTopic) ms"
      have "x \<in> set ?es" using that by simp
      then obtain i where "i < length ?es" "x = ?es ! i" unfolding in_set_conv_nth by blast
      then obtain n where "drawn w ?w' n x" using ns unfolding list_all2_conv_all_nth by metis
      then show ?thesis using typed_send_reads [OF _ that(2) _ t] that(1) ms(3) by (auto simp: list_all_iff)
    qed
    then show ?thesis using ms(1,2) w unfolding well_typed_def by auto
  next
    case False
    then have "deliver_at d w = w" by (auto simp: d deliver_at_def)
    then show ?thesis using w by simp
  qed
qed

lemma schedule_well_typed:
  "well_typed w \<Longrightarrow> now (run_schedule ds w) < 2 ^ 47 \<Longrightarrow> well_typed (run_schedule ds w)"
proof (induction ds arbitrary: w)
  case (Cons d ds)
  have "now (deliver_at d w) < 2 ^ 47"
    using onward_time [OF run_schedule_onward [of "deliver_at d w" ds]] Cons.prems(2) by simp
  then show ?case using Cons.IH delivery_well_typed Cons.prems by simp
qed simp

text \<open>C5: type soundness.  No consumer checks a payload against the schema of its event type, and
  none has to: if the sagas remember typed orders and every event on the log has a payload
  that the schema of its type accepts, then after any deliveries of the log, in any order,
  repeated, and with any failures of database and broker, the same holds; so every event
  that the saga orchestrator and the services send is well formed, readable, and carries
  a payload of its contract.\<close>

theorem platform_stays_well_typed:
  assumes "well_typed w" "now (run_schedule ds w) < 2 ^ 47"
  shows "well_typed (run_schedule ds w)"
  by (rule schedule_well_typed [OF assms])

lemma demo_arrival_typed: "well_typed demo_arrival"
proof -
  have "reads_as (last (bus demo_arrival)) demo_order" using demo_arrives by (simp add: order_arrived_def)
  moreover have "bus demo_arrival = [last (bus demo_arrival)]" by (simp add: demo_arrival_def)
  moreover have "typed_payload OrderCreated (obj_json (payload demo_order))"
    by (rule typed_payloadI [OF shapes(1)])
      (simp_all add: demo_order_def demo_event_def demo_items_def num_def OrderItemSchema_def accepts_object typed_def)
  moreover have "obj_json (payload demo_order) = payload demo_order" "event_type demo_order = OrderCreated"
    by (simp_all add: demo_order_def demo_event_def demo_items_def num_def)
  moreover have "saga_instances (db demo_arrival) = []" by (simp add: demo_arrival_def)
  ultimately show ?thesis
    unfolding well_typed_def by (metis empty_iff insert_iff list.set typed_table_def saga_table_ok_def unique_by_Nil)
qed

lemma run_rounds_concat: "run_rounds dss w = run_schedule (concat dss) w"
  by (induction dss arbitrary: w) (simp_all add: run_schedule_def)

theorem platform_stays_well_typed_witness:
  "well_typed (run_schedule (concat (visit_rounds 0 12 demo_arrival)) demo_arrival)"
  using platform_stays_well_typed [OF demo_arrival_typed] demo_time by (simp add: run_rounds_concat)

end
