(* ===== verification/Process.thy ===== *)
theory Process
  imports Http_Api
begin

text \<open>
  \<open>src/src/index.ts\<close>: the process that wires the services together.  The topics it creates,
  its start-up in order, the periodic broadcast of the metrics, and its shutdown.  The
  parallel starts and stops of the consumers run here one after another: each touches the
  status of its own consumer only.
\<close>

section \<open>Topics\<close>

definition finallyE :: "'a op \<Rightarrow> unit op \<Rightarrow> 'a op" where
  "finallyE m f w =
     (case m w of (r, w1) \<Rightarrow> (case f w1 of (Inl e, w2) \<Rightarrow> (Inl e, w2) | (Inr _, w2) \<Rightarrow> (r, w2)))"

text \<open>\<open>Object.values(topics)\<close>.\<close>

definition all_topics :: "topic list" where
  "all_topics =
     [OrdersTopic, PaymentsTopic, InventoryTopic, FraudTopic, ShippingTopic, NotificationsTopic,
      OrdersRetry, PaymentsRetry, InventoryRetry, FraudRetry, ShippingRetry, DlqTopic, PlatformTopic, ReplayTopic]"

record topic_spec =
  ts_topic :: string
  ts_numPartitions :: nat
  ts_replicationFactor :: nat
  ts_configEntries :: "(string \<times> string option) list"

text \<open>\<open>const [name, value] = c.split('=')\<close>.\<close>

definition split_setting :: "string \<Rightarrow> string \<times> string option" where
  "split_setting c =
     (let name = takeWhile (\<lambda>x. x \<noteq> CHR ''='') c
      in (name, if name = c then None
                else Some (takeWhile (\<lambda>x. x \<noteq> CHR ''='') (drop (Suc (length name)) c))))"

definition topic_spec_of :: "topic_config \<Rightarrow> topic_spec" where
  "topic_spec_of t =
     \<lparr>ts_topic = topic_name t, ts_numPartitions = partitions t, ts_replicationFactor = replicationFactor t,
      ts_configEntries = (case topic_settings t of None \<Rightarrow> [] | Some cs \<Rightarrow> map split_setting cs)\<rparr>"

definition topicsToCreate :: "string list \<Rightarrow> topic_spec list" where
  "topicsToCreate existing =
     map topic_spec_of (filter (\<lambda>t. topic_name t \<notin> set existing) (map topics all_topics))"

text \<open>The answer of \<open>admin.listTopics()\<close> is the argument; the result is what was created.\<close>

definition createTopics :: "string list \<Rightarrow> topic_spec list op" where
  "createTopics existing =
     thenE kafka_call
       (finallyE
          (thenE kafka_call
             (let specs = topicsToCreate existing
              in if specs = [] then returnE [] else thenE kafka_call (returnE specs)))
          kafka_call)"

section \<open>The process\<close>

record process =
  isShuttingDown :: bool
  metricsTimer :: bool
  listening :: bool
  exit_code :: "nat option"

definition new_process :: process where
  "new_process = \<lparr>isShuttingDown = False, metricsTimer = False, listening = False, exit_code = None\<rparr>"

definition all_consumers :: "platform_consumer list" where
  "all_consumers =
     [PaymentConsumer, InventoryConsumer, FraudConsumer, ShippingConsumer, NotificationConsumer,
      SagaOrchestrator, ProjectionConsumer]"

definition start_services :: "string list \<Rightarrow> unit relay_op" where
  "start_services existing r w =
     (case thenE initialize (thenE (createTopics existing) kafka_call) w of
        (Inl e, w1) \<Rightarrow> (Inl e, r, w1)
      | (Inr _, w1) \<Rightarrow>
          (case start_relay r w1 of
             (Inl e, r', w2) \<Rightarrow> (Inl e, r', w2)
           | (Inr _, r', w2) \<Rightarrow>
               no_relay (forE all_consumers (\<lambda>c. start (consumer_name c) (consumer_topics c))) r' w2))"

definition start_process :: "string list \<Rightarrow> process \<Rightarrow> relay \<Rightarrow> world \<Rightarrow> process \<times> relay \<times> world" where
  "start_process existing p r w =
     (case start_services existing r w of
        (Inl e, r', w') \<Rightarrow> (p\<lparr>exit_code := Some 1\<rparr>, r', w')
      | (Inr _, r', w') \<Rightarrow> (p\<lparr>metricsTimer := True, listening := True\<rparr>, r', w'))"

definition settle :: "unit op \<Rightarrow> unit op" where
  "settle m = tryE m (\<lambda>_. returnE ())"

definition shutdown :: "process \<Rightarrow> relay \<Rightarrow> world \<Rightarrow> process \<times> relay \<times> world" where
  "shutdown p r w =
     (if isShuttingDown p then (p, r, w)
      else
        let p' = p\<lparr>isShuttingDown := True, metricsTimer := False, listening := False, exit_code := Some 0\<rparr>
        in case stop_relay r w of
             (_, r', w1) \<Rightarrow>
               (p', r', snd (thenE (forE all_consumers (\<lambda>c. settle (stop (consumer_name c))))
                               (thenE (settle kafka_call) (settle control)) w1)))"

section \<open>The broadcast of the metrics\<close>

definition count_js :: "nat \<Rightarrow> js" where
  "count_js n = JNum (Fin (of_nat n))"

definition metrics_js :: "metrics \<Rightarrow> obj" where
  "metrics_js m =
     [(''total_orders'', count_js (total_orders m)),
      (''orders_created_total'', count_js (orders_created_total m)),
      (''completed_orders'', count_js (completed_orders m)),
      (''orders_completed_total'', count_js (orders_completed_total m)),
      (''orders_cancelled_total'', count_js (orders_cancelled_total m)),
      (''failed_orders'', count_js (failed_orders m)),
      (''avg_order_value'', JNum (avg_order_value m)),
      (''outbox_pending'', count_js (outbox_pending m)),
      (''outbox_processing'', count_js (outbox_processing m)),
      (''outbox_published_total'', count_js (outbox_published_total m)),
      (''outbox_failed_total'', count_js (outbox_failed_total m)),
      (''saga_started_total'', count_js (saga_started_total m)),
      (''saga_completed_total'', count_js (saga_completed_total m)),
      (''saga_compensated_total'', count_js (saga_compensated_total m)),
      (''saga_failed_total'', count_js (saga_failed_total m)),
      (''dlq_messages_total'', count_js (dlq_messages_total m)),
      (''dlq_unresolved_total'', count_js (dlq_unresolved_total m)),
      (''dlq_replayed_total'', count_js (dlq_replayed_total m)),
      (''event_store_events_total'', count_js (event_store_events_total m))]"

text \<open>One tick of the interval; \<open>catch {}\<close> drops every error.\<close>

definition broadcast_metrics :: "unit op" where
  "broadcast_metrics =
     settle
       (bindE getMetrics (\<lambda>m.
        bindE (listSagas 50) (\<lambda>sagas.
        bindE (listDLQMessages 50 UNRESOLVED) (\<lambda>letters.
        bindE iso_now (\<lambda>ts.
          broadcast (WsMetrics (JObj (metrics_js m @
            [(''active_sagas'', count_js (length (filter active_saga sagas))),
             (''dlq_count'', count_js (length letters)), (''timestamp'', JStr ts)]))))))))"

end
