(* ===== verification/Process_Props.thy ===== *)
theory Process_Props
  imports Process Order_Props
begin

text \<open>
  The life of the process: it listens only when every service runs, it exits with an error
  when one does not start, and a signal stops every service once, whatever the broker and
  the database answer.
\<close>

section \<open>The consumers of a run\<close>

text \<open>An operation that changes the state of one consumer at most.\<close>

definition touches :: "string \<Rightarrow> unit op \<Rightarrow> bool" where
  "touches n m \<longleftrightarrow> (\<forall>k. k \<noteq> n \<longrightarrow> run_follows (\<lambda>w w'. consumers w' k = consumers w k) m)"

interpretation untouched: run_preorder "\<lambda>w w'. consumers w' k = consumers w k" for k
  by unfold_locales simp_all

lemma untouched_calls:
  "run_follows (\<lambda>w w'. consumers w' k = consumers w k) kafka_call"
  "run_follows (\<lambda>w w'. consumers w' k = consumers w k) control"
  "k \<noteq> n \<Longrightarrow> run_follows (\<lambda>w w'. consumers w' k = consumers w k) (update_consumer n f)"
  by (simp_all add: run_follows_def update_consumer_def modifyE_def kafka_call_def control_def Let_def split: outcome.split)

lemma touches_start: "touches n (start n ts)"
  unfolding start_def touches_def by (intro allI impI untouched.run_compose untouched_calls; assumption)

lemma touches_stop: "touches n (settle (stop n))"
  unfolding stop_def settle_def touches_def by (intro allI impI untouched.run_compose untouched_calls; assumption)

lemma start_status:
  assumes "start n ts w = (Inr u, w')"
  shows "status (consumers w' n) = Healthy"
proof -
  have update: "status (consumers w2 n) = Healthy" if "update_consumer n (\<lambda>c. c\<lparr>status := Healthy\<rparr>) w1 = (Inr u, w2)" for w1 w2
    using that by (auto simp: update_consumer_def modifyE_def)
  obtain w1 where "update_consumer n (\<lambda>c. c\<lparr>status := Healthy\<rparr>) w1 = (Inr u, w')"
    using assms
    by (auto simp: start_def tryE_def thenE_def bindE_def throwE_def split: prod.splits sum.splits)
  then show ?thesis by (rule update)
qed

lemma settle_run: "settle m w = (Inr (), snd (m w))"
  by (cases "m w") (simp add: settle_def tryE_def returnE_def split: sum.split)

lemma stop_status: "status (consumers (snd (stop n w)) n) = Down"
proof -
  have "run_follows (\<lambda>w w'. consumers w' n = consumers w n) (tryE (thenE kafka_call kafka_call) (\<lambda>_. returnE ()))"
    by (intro untouched.run_compose untouched_calls)
  from run_followsD [OF this] show ?thesis
    by (simp add: stop_def thenE_def bindE_def update_consumer_def modifyE_def)
qed

text \<open>A list of such operations, one after another.\<close>

lemma all_reach:
  assumes touch: "\<And>c. touches (consumer_name c) (m c)"
    and reach: "\<And>c v v'. m c v = (Inr (), v') \<Longrightarrow> P (consumers v' (consumer_name c))"
    and run: "forE cs m w = (Inr u, w')" and c: "c \<in> set cs \<or> P (consumers w (consumer_name c))"
  shows "P (consumers w' (consumer_name c))"
  using run c
proof (induction cs arbitrary: w)
  case (Cons a cs)
  obtain w1 where a: "m a w = (Inr (), w1)" and r: "forE cs m w1 = (Inr u, w')"
    using Cons.prems(1) by (auto simp: thenE_def bindE_def split: prod.splits sum.splits)
  have "P (consumers w1 (consumer_name c))" if "c = a \<or> P (consumers w (consumer_name c))"
  proof (cases "c = a")
    case True
    then show ?thesis using reach [OF a] by simp
  next
    case False
    then have "consumer_name c \<noteq> consumer_name a" using consumer_name_inj by auto
    then have "consumers w1 (consumer_name c) = consumers w (consumer_name c)"
      using touch [of a] run_followsD [of _ "m a" w] a by (fastforce simp: touches_def)
    then show ?thesis using that False by simp
  qed
  then show ?case using Cons.IH [OF r] Cons.prems(2) by auto
qed (simp add: returnE_def)

lemma start_all:
  assumes "forE cs (\<lambda>c. start (consumer_name c) (consumer_topics c)) w = (Inr u, w')" "c \<in> set cs"
  shows "status (consumers w' (consumer_name c)) = Healthy"
  using all_reach [where P = "\<lambda>s. status s = Healthy", OF touches_start _ assms(1)] assms(2) start_status by blast

lemma forE_settled: "fst (forE cs (\<lambda>c. settle (m c)) w) = Inr ()"
  by (induction cs arbitrary: w) (simp_all add: thenE_def bindE_def returnE_def settle_run)

lemma stop_all:
  assumes "c \<in> set cs"
  shows "status (consumers (snd (forE cs (\<lambda>c. settle (stop (consumer_name c))) w)) (consumer_name c)) = Down"
proof -
  have "forE cs (\<lambda>c. settle (stop (consumer_name c))) w = (Inr (), snd (forE cs (\<lambda>c. settle (stop (consumer_name c))) w))"
    using forE_settled [of cs "\<lambda>c. stop (consumer_name c)" w] by (metis prod.collapse)
  from all_reach [where P = "\<lambda>s. status s = Down", OF touches_stop _ this] assms stop_status
  show ?thesis by (auto simp: settle_run)
qed

lemma all_consumers_complete [simp]: "c \<in> set all_consumers"
  by (cases c) (simp_all add: all_consumers_def)

section \<open>The theorems\<close>

lemma start_services_ready:
  assumes "start_services existing r w = (Inr u, r', w')"
  shows "isRunning r'" "status (consumers w' (consumer_name c)) = Healthy"
proof -
  obtain v w1 w2 where relay: "start_relay r w1 = (Inr v, r', w2)"
    and cs: "forE all_consumers (\<lambda>c. start (consumer_name c) (consumer_topics c)) w2 = (Inr u, w')"
    using assms by (auto simp: start_services_def no_relay_def split: prod.splits sum.splits)
  show "isRunning r'"
    using relay by (auto simp: start_relay_def schedulePoll_def split: if_splits prod.splits sum.splits)
  show "status (consumers w' (consumer_name c)) = Healthy"
    by (rule start_all [OF cs]) simp
qed

lemma kafka_call_done [simp]: "kafka_script w = [] \<Longrightarrow> kafka_call w = (Inr (), w)"
  by (simp add: kafka_call_def)

lemma calls_done: "kafka_script w = [] \<Longrightarrow> forE ts (\<lambda>t. kafka_call) w = (Inr (), w)"
  by (induction ts) (simp_all add: thenE_def bindE_def returnE_def)

lemma start_done:
  "kafka_script w = [] \<Longrightarrow> \<exists>w'. start n ts w = (Inr (), w') \<and> kafka_script w' = []"
  by (simp add: start_def tryE_def thenE_def bindE_def calls_done update_consumer_def modifyE_def)

lemma starts_done:
  "kafka_script w = [] \<Longrightarrow> \<exists>w'. forE cs (\<lambda>c. start (consumer_name c) (consumer_topics c)) w = (Inr (), w')"
proof (induction cs arbitrary: w)
  case (Cons c cs)
  obtain w1 where "start (consumer_name c) (consumer_topics c) w = (Inr (), w1)" "kafka_script w1 = []"
    using start_done [OF Cons.prems] by blast
  then show ?case using Cons.IH [of w1] by (simp add: thenE_def bindE_def)
qed (simp add: returnE_def)

lemma createTopics_done: "kafka_script w = [] \<Longrightarrow> createTopics existing w = (Inr (topicsToCreate existing), w)"
  by (simp add: createTopics_def thenE_def bindE_def finallyE_def returnE_def Let_def)

lemma topicsToCreate_complete:
  assumes "t \<in> set all_topics"
  shows "topic_name (topics t) \<in> set existing \<union> ts_topic ` set (topicsToCreate existing)"
proof (cases "topic_name (topics t) \<in> set existing")
  case False
  then have "topic_spec_of (topics t) \<in> set (topicsToCreate existing)"
    using assms by (auto simp: topicsToCreate_def)
  then show ?thesis by (force simp: topic_spec_of_def)
qed simp

lemma consumer_topics_known: "t \<in> set (consumer_topics c) \<Longrightarrow> t \<in> set all_topics"
  by (cases c) (auto simp: all_topics_def saga_topics_def projection_topics_def)

lemma start_services_done:
  assumes "db_script w = []" "kafka_script w = []"
  shows "\<exists>r' w'. start_services existing r w = (Inr (), r', w')"
proof -
  obtain w1 where i: "initialize w = (Inr (), w1)" "kafka_script w1 = []"
    using assms by (simp add: initialize_first_attempt)
  obtain r' w2 where r: "start_relay r w1 = (Inr (), r', w2)" "kafka_script w2 = []"
    using i(2) by (cases "isRunning r") (simp_all add: start_relay_def)
  obtain w3 where "forE all_consumers (\<lambda>c. start (consumer_name c) (consumer_topics c)) w2 = (Inr (), w3)"
    using starts_done [OF r(2)] by blast
  then show ?thesis
    using i r(1) by (simp add: start_services_def thenE_def bindE_def createTopics_done no_relay_def)
qed

text \<open>C30: the process serves requests only when all of it runs.  Whatever the database and the
  broker answer during the start, the process either listens, has its metrics timer, a
  running relay and seven healthy consumers, or it has exited with code 1 and neither
  listens nor has a timer; when nothing fails it listens, and every topic a consumer
  subscribes to existed or has been created.\<close>

theorem process_listens_when_ready:
  assumes "start_process existing new_process r w = (p', r', w')"
  shows "(if listening p'
     then exit_code p' = None \<and> metricsTimer p' \<and> isRunning r' \<and> (\<forall>c. status (consumers w' (consumer_name c)) = Healthy)
     else exit_code p' = Some 1 \<and> \<not> metricsTimer p') \<and>
   (db_script w = [] \<longrightarrow> kafka_script w = [] \<longrightarrow> listening p' \<and>
     (\<forall>c. \<forall>t \<in> set (consumer_topics c).
        topic_name (topics t) \<in> set existing \<union> ts_topic ` set (topicsToCreate existing)))"
proof -
  have calm: "listening p'" if "db_script w = []" "kafka_script w = []"
    using start_services_done [OF that, of existing r] assms by (auto simp: start_process_def)
  have "if listening p'
     then exit_code p' = None \<and> metricsTimer p' \<and> isRunning r' \<and> (\<forall>c. status (consumers w' (consumer_name c)) = Healthy)
     else exit_code p' = Some 1 \<and> \<not> metricsTimer p'"
  proof (cases "fst (start_services existing r w)")
    case (Inl e)
    then show ?thesis using assms by (cases "start_services existing r w") (auto simp: start_process_def new_process_def)
  next
    case (Inr u)
    then have "start_services existing r w = (Inr u, r', w')" "p' = new_process\<lparr>metricsTimer := True, listening := True\<rparr>"
      using assms by (cases "start_services existing r w"; auto simp: start_process_def)+
    then show ?thesis using start_services_ready [of existing r w u r' w'] by (simp add: new_process_def)
  qed
  then show ?thesis using calm topicsToCreate_complete consumer_topics_known by blast
qed

text \<open>C31: a signal stops the process, once.  Whatever the broker and the database answer, the
  first signal leaves a process that exits with code 0, does not listen and has no metrics
  timer; the relay does not run and, if it had one polling chain, has no timer left; every
  consumer is down; and a second signal changes nothing at all.\<close>

theorem shutdown_stops_everything:
  assumes "shutdown p r w = (p', r', w')" "\<not> isShuttingDown p"
  shows "exit_code p' = Some 0 \<and> \<not> listening p' \<and> \<not> metricsTimer p' \<and> \<not> isRunning r' \<and>
    (set (timers r) \<subseteq> set_option (pollTimer r) \<longrightarrow> timers r' = []) \<and>
    (\<forall>c. status (consumers w' (consumer_name c)) = Down) \<and>
    (\<forall>r2 w2. shutdown p' r2 w2 = (p', r2, w2))"
proof -
  obtain res w1 where s: "stop_relay r w = (res, r', w1)"
    and w': "w' = snd (thenE (forE all_consumers (\<lambda>c. settle (stop (consumer_name c))))
                   (thenE (settle kafka_call) (settle control)) w1)"
    and p': "p' = p\<lparr>isShuttingDown := True, metricsTimer := False, listening := False, exit_code := Some 0\<rparr>"
    using assms by (auto simp: shutdown_def split: prod.splits)
  have r': "r' = clear_timer (r\<lparr>isRunning := False\<rparr>)" using s by (auto simp: stop_relay_def split: prod.splits)
  have "\<not> isRunning r'" "set (timers r) \<subseteq> set_option (pollTimer r) \<Longrightarrow> timers r' = []"
    unfolding r' by (cases "pollTimer r"; auto simp: clear_timer_def filter_empty_conv)+
  moreover have "status (consumers w' (consumer_name c)) = Down" for c
  proof -
    let ?cs = "forE all_consumers (\<lambda>c. settle (stop (consumer_name c)))"
    have "run_follows (\<lambda>w w'. consumers w' k = consumers w k) (thenE (settle kafka_call) (settle control))" for k
      unfolding settle_def by (intro untouched.run_compose untouched_calls)
    from run_followsD [OF this [of "consumer_name c"], of "snd (?cs w1)"]
    have "consumers w' (consumer_name c) = consumers (snd (?cs w1)) (consumer_name c)"
      unfolding w' using forE_settled [of all_consumers "\<lambda>c. stop (consumer_name c)" w1]
      by (cases "?cs w1") (simp add: thenE_def bindE_def)
    then show ?thesis using stop_all [of c all_consumers w1] by simp
  qed
  ultimately show ?thesis by (simp add: p' shutdown_def)
qed

section \<open>A process on the example platform\<close>

theorem process_listens_when_ready_witness:
  "case start_process [''orders.events''] new_process (demo_relay\<lparr>isRunning := False\<rparr>) demo_world of
     (p', r', w') \<Rightarrow> listening p' \<and> isRunning r' \<and> (\<forall>c. status (consumers w' (consumer_name c)) = Healthy)"
proof -
  obtain p' r' w' where s: "start_process [''orders.events''] new_process (demo_relay\<lparr>isRunning := False\<rparr>) demo_world = (p', r', w')"
    by (metis prod.exhaust)
  from process_listens_when_ready [OF this] show ?thesis by (simp add: s split: if_splits)
qed

text \<open>A process under a signal, with a broker that refuses and a database that is gone.\<close>

definition demo_signal :: world where
  "demo_signal = demo_world\<lparr>db_script := [(Refused ''down'', 5)], kafka_script := replicate 20 (Refused ''down'', 5)\<rparr>"

theorem shutdown_stops_everything_witness:
  "case shutdown (new_process\<lparr>metricsTimer := True, listening := True\<rparr>) demo_relay demo_signal of
     (p', r', w') \<Rightarrow> exit_code p' = Some 0 \<and> \<not> isRunning r' \<and>
       (\<forall>c. status (consumers w' (consumer_name c)) = Down) \<and> (\<forall>r2 w2. shutdown p' r2 w2 = (p', r2, w2))"
proof -
  obtain p' r' w' where s: "shutdown (new_process\<lparr>metricsTimer := True, listening := True\<rparr>) demo_relay demo_signal = (p', r', w')"
    by (metis prod.exhaust)
  from shutdown_stops_everything [OF this] show ?thesis unfolding s by (simp add: new_process_def)
qed

end
