(* ===== verification/Config.thy ===== *)
theory Config
  imports Zod
begin

text \<open>
  \<open>src/src/config.ts\<close>: the environment of the process, parsed by a zod schema, and the
  configurations of the broker's client and of the database pool that it determines.  The
  topics are in theory Contracts.
\<close>

section \<open>The environment\<close>

text \<open>\<open>process.env\<close>: a variable is a string or absent.\<close>

type_synonym process_env = "string \<Rightarrow> string option"

record env =
  NODE_ENV :: string
  PORT :: jnum
  KAFKA_BROKER :: string
  DATABASE_URL :: "string option"
  DB_HOST :: string
  DB_PORT :: jnum
  DB_NAME :: string
  DB_USER :: string
  DB_PASSWORD :: string
  LOG_LEVEL :: string

text \<open>\<open>z.enum\<close>, \<open>z.string\<close> and \<open>z.coerce.number\<close>, each with its \<open>default\<close>.\<close>

definition enum_default :: "string list \<Rightarrow> string \<Rightarrow> string option \<Rightarrow> string option" where
  "enum_default ss d v = (case v of None \<Rightarrow> Some d | Some s \<Rightarrow> if s \<in> set ss then Some s else None)"

definition string_default :: "string \<Rightarrow> string option \<Rightarrow> string" where
  "string_default d v = (case v of None \<Rightarrow> d | Some s \<Rightarrow> s)"

definition number_default :: "jnum \<Rightarrow> string option \<Rightarrow> jnum option" where
  "number_default d v =
     (case v of None \<Rightarrow> Some d | Some s \<Rightarrow> (let n = js_number (JStr s) in if n = NaN then None else Some n))"

definition node_envs :: "string list" where
  "node_envs = [''development'', ''production'', ''test'']"

definition log_levels :: "string list" where
  "log_levels = [''debug'', ''info'', ''warn'', ''error'']"

text \<open>\<open>EnvSchema.parse\<close>; \<open>None\<close> is the ZodError with which the process ends while it loads.\<close>

definition EnvSchema :: "process_env \<Rightarrow> env option" where
  "EnvSchema p =
     (case (enum_default node_envs ''development'' (p ''NODE_ENV''), number_default (Fin 3000) (p ''PORT''),
            number_default (Fin 5432) (p ''DB_PORT''), enum_default log_levels ''info'' (p ''LOG_LEVEL'')) of
        (Some mode, Some port, Some dbPort, Some level) \<Rightarrow>
          Some \<lparr>NODE_ENV = mode, PORT = port, KAFKA_BROKER = string_default ''localhost:9092'' (p ''KAFKA_BROKER''),
            DATABASE_URL = p ''DATABASE_URL'', DB_HOST = string_default ''localhost'' (p ''DB_HOST''), DB_PORT = dbPort,
            DB_NAME = string_default ''event_driven_test'' (p ''DB_NAME''),
            DB_USER = string_default ''postgres'' (p ''DB_USER''),
            DB_PASSWORD = string_default ''postgres'' (p ''DB_PASSWORD''), LOG_LEVEL = level\<rparr>
      | _ \<Rightarrow> None)"

section \<open>The clients\<close>

text \<open>\<open>s.split(',')\<close>.\<close>

fun split_commas :: "string \<Rightarrow> string list" where
  "split_commas [] = [[]]"
| "split_commas (c # s) =
     (if c = CHR '','' then [] # split_commas s
      else case split_commas s of [] \<Rightarrow> [[c]] | t # ts \<Rightarrow> (c # t) # ts)"

record kafka_config =
  brokers :: "string list"
  clientId :: string
  connectionTimeout :: nat
  requestTimeout :: nat
  initialRetryTime :: nat
  retries :: nat

definition kafkaConfig :: "env \<Rightarrow> kafka_config" where
  "kafkaConfig e =
     \<lparr>brokers = split_commas (KAFKA_BROKER e), clientId = ''event-driven-api'', connectionTimeout = 10000,
      requestTimeout = 30000, initialRetryTime = 300, retries = 8\<rparr>"

record producer_config =
  idempotent :: bool
  maxInFlightRequests :: nat
  compression :: nat
  producer_batchSize :: nat
  lingerMs :: nat
  acks :: int
  producer_timeout :: nat

definition producerConfig :: producer_config where
  "producerConfig =
     \<lparr>idempotent = True, maxInFlightRequests = 5, compression = 1, producer_batchSize = 16384, lingerMs = 10,
      acks = - 1, producer_timeout = 30000\<rparr>"

record consumer_config =
  sessionTimeout :: nat
  heartbeatInterval :: nat
  rebalanceTimeout :: nat
  allowAutoTopicCreation :: bool

definition consumerConfig :: consumer_config where
  "consumerConfig =
     \<lparr>sessionTimeout = 30000, heartbeatInterval = 10000, rebalanceTimeout = 60000, allowAutoTopicCreation = False\<rparr>"

record pool_tuning =
  max_clients :: nat
  idleTimeoutMillis :: nat
  connectionTimeoutMillis :: nat

definition poolTuning :: pool_tuning where
  "poolTuning = \<lparr>max_clients = 20, idleTimeoutMillis = 30000, connectionTimeoutMillis = 10000\<rparr>"

datatype pool_config =
    ConnectionString string pool_tuning
  | ConnectionFields string jnum string string string pool_tuning

text \<open>An empty \<open>DATABASE_URL\<close> counts as none.\<close>

definition databaseConfig :: "env \<Rightarrow> pool_config" where
  "databaseConfig e =
     (case DATABASE_URL e of
        Some (c # s) \<Rightarrow> ConnectionString (c # s) poolTuning
      | _ \<Rightarrow> ConnectionFields (DB_HOST e) (DB_PORT e) (DB_NAME e) (DB_USER e) (DB_PASSWORD e) poolTuning)"

section \<open>What they guarantee\<close>

fun join_commas :: "string list \<Rightarrow> string" where
  "join_commas [] = []"
| "join_commas [s] = s"
| "join_commas (s # t # ts) = s @ CHR '','' # join_commas (t # ts)"

lemma split_commas_nonempty [simp]: "split_commas s \<noteq> []"
  by (cases s) (auto split: list.split)

text \<open>The brokers are what the variable lists: none is lost, none contains a comma.\<close>

lemma join_split_commas: "join_commas (split_commas s) = s"
proof (induction s)
  case (Cons c s)
  obtain t ts where t: "split_commas s = t # ts" using split_commas_nonempty [of s] by (cases "split_commas s") blast+
  then show ?case using Cons by (cases ts) auto
qed simp

lemma split_commas_free: "t \<in> set (split_commas s) \<Longrightarrow> CHR '','' \<notin> set t"
  by (induction s arbitrary: t) (auto split: if_splits list.splits)

lemma kafka_brokers:
  "brokers (kafkaConfig e) \<noteq> []" "join_commas (brokers (kafkaConfig e)) = KAFKA_BROKER e"
  "b \<in> set (brokers (kafkaConfig e)) \<Longrightarrow> CHR '','' \<notin> set b"
  by (simp_all add: kafkaConfig_def join_split_commas split_commas_free)

text \<open>An accepted environment: known modes and levels, ports that are numbers.\<close>

lemma enum_default_mem: "enum_default ss d v = Some s \<Longrightarrow> d \<in> set ss \<Longrightarrow> s \<in> set ss \<and> s = string_default d v"
  by (auto simp: enum_default_def string_default_def split: option.splits if_splits)

lemma number_default_num: "number_default d v = Some n \<Longrightarrow> d \<noteq> NaN \<Longrightarrow> n \<noteq> NaN"
  by (auto simp: number_default_def Let_def split: option.splits if_splits)

lemma EnvSchema_sound:
  assumes "EnvSchema p = Some e"
  shows "NODE_ENV e \<in> set node_envs" "LOG_LEVEL e \<in> set log_levels" "PORT e \<noteq> NaN" "DB_PORT e \<noteq> NaN"
    "LOG_LEVEL e = string_default ''info'' (p ''LOG_LEVEL'')"
proof -
  obtain mode port dbPort level where
    v: "enum_default node_envs ''development'' (p ''NODE_ENV'') = Some mode" "number_default (Fin 3000) (p ''PORT'') = Some port"
      "number_default (Fin 5432) (p ''DB_PORT'') = Some dbPort" "enum_default log_levels ''info'' (p ''LOG_LEVEL'') = Some level"
    and e: "NODE_ENV e = mode" "PORT e = port" "DB_PORT e = dbPort" "LOG_LEVEL e = level"
    using assms unfolding EnvSchema_def by (auto split: option.splits)
  have "''development'' \<in> set node_envs" "''info'' \<in> set log_levels" by (simp_all add: node_envs_def log_levels_def)
  then show "NODE_ENV e \<in> set node_envs" "LOG_LEVEL e \<in> set log_levels" "PORT e \<noteq> NaN" "DB_PORT e \<noteq> NaN"
    "LOG_LEVEL e = string_default ''info'' (p ''LOG_LEVEL'')"
    using enum_default_mem [OF v(1)] enum_default_mem [OF v(4)] number_default_num [OF v(2)] number_default_num [OF v(3)]
    unfolding e by blast+
qed

text \<open>Without any variable the process runs in development on its default ports.\<close>

lemma EnvSchema_defaults:
  "\<exists>e. EnvSchema (\<lambda>_. None) = Some e \<and> NODE_ENV e = ''development'' \<and> PORT e = Fin 3000 \<and> DB_PORT e = Fin 5432 \<and>
     brokers (kafkaConfig e) = [''localhost:9092''] \<and>
     databaseConfig e = ConnectionFields ''localhost'' (Fin 5432) ''event_driven_test'' ''postgres'' ''postgres'' poolTuning"
  by (simp add: EnvSchema_def enum_default_def number_default_def string_default_def kafkaConfig_def databaseConfig_def)

end
