(* ===== verification/Logger.thy ===== *)
theory Logger
  imports Config World
begin

text \<open>
  \<open>src/src/utils/logger.ts\<close>: what the logger prints.  The console is not part of the world;
  the result of a call is the line it prints, if any, and the stream.
\<close>

text \<open>\<open>levels[level]\<close>; any other name gives undefined.\<close>

definition levels :: "string \<Rightarrow> nat option" where
  "levels level = map_of [(''debug'', 0), (''info'', 1), (''warn'', 2), (''error'', 3)] level"

text \<open>\<open>process.env.LOG_LEVEL || 'info'\<close>.\<close>

definition log_level :: "process_env \<Rightarrow> string" where
  "log_level p = (case p ''LOG_LEVEL'' of Some (c # s) \<Rightarrow> c # s | _ \<Rightarrow> ''info'')"

text \<open>A comparison with undefined is false.\<close>

definition shouldLog :: "process_env \<Rightarrow> string \<Rightarrow> bool" where
  "shouldLog p level = (case (levels level, levels (log_level p)) of (Some a, Some b) \<Rightarrow> b \<le> a | _ \<Rightarrow> False)"

datatype log_call = LogDebug | LogInfo | LogWarn | LogError

fun level_name :: "log_call \<Rightarrow> string" where
  "level_name LogDebug = ''debug''"
| "level_name LogInfo = ''info''"
| "level_name LogWarn = ''warn''"
| "level_name LogError = ''error''"

fun level_upper :: "log_call \<Rightarrow> string" where
  "level_upper LogDebug = ''DEBUG''"
| "level_upper LogInfo = ''INFO''"
| "level_upper LogWarn = ''WARN''"
| "level_upper LogError = ''ERROR''"

text \<open>The record of a line; the fields of \<open>data\<close> are spread over it.\<close>

definition log_record :: "log_call \<Rightarrow> obj \<Rightarrow> string \<Rightarrow> obj" where
  "log_record l data ts = fold (\<lambda>(k, v) ob. obj_put k v ob) data [(''timestamp'', JStr ts), (''level'', JStr (level_upper l))]"

definition formatLog :: "log_call \<Rightarrow> obj \<Rightarrow> string op" where
  "formatLog l data = bindE iso_now (\<lambda>ts. returnE (json_text (JObj (log_record l data ts))))"

datatype stream = Stdout | Stderr

fun log_stream :: "log_call \<Rightarrow> stream" where
  "log_stream LogDebug = Stdout"
| "log_stream LogInfo = Stdout"
| "log_stream LogWarn = Stderr"
| "log_stream LogError = Stderr"

definition logger :: "process_env \<Rightarrow> log_call \<Rightarrow> obj \<Rightarrow> (stream \<times> string) option op" where
  "logger p l data =
     (if shouldLog p (level_name l) then bindE (formatLog l data) (\<lambda>s. returnE (Some (log_stream l, s))) else returnE None)"

section \<open>What is printed\<close>

text \<open>A logger changes nothing and never throws.\<close>

lemma logger_harmless: "\<exists>line. logger p l data w = (Inr line, w)"
  by (simp add: logger_def formatLog_def run_defs)

text \<open>With an environment that the schema accepts an error is always printed, and what a level
  prints every higher level prints too.\<close>

lemma accepted_level:
  assumes "EnvSchema p = Some e"
  shows "\<exists>b \<le> 3. levels (log_level p) = Some b"
proof -
  have "p ''LOG_LEVEL'' \<noteq> Some []"
    using assms by (auto simp: EnvSchema_def enum_default_def log_levels_def split: option.splits if_splits)
  then have "log_level p = string_default ''info'' (p ''LOG_LEVEL'')"
    by (auto simp: log_level_def string_default_def split: option.split list.split)
  then have "log_level p \<in> set log_levels" using EnvSchema_sound(2,5) [OF assms] by simp
  then show ?thesis by (auto simp: log_levels_def levels_def)
qed

lemma errors_are_printed:
  "EnvSchema p = Some e \<Longrightarrow> \<exists>s. logger p LogError data w = (Inr (Some (Stderr, s)), w)"
  using accepted_level [of p e]
  by (auto simp: logger_def shouldLog_def formatLog_def run_defs levels_def [of "''error''"])

lemma levels_monotone:
  assumes "shouldLog p (level_name l)" "levels (level_name l) = Some a" "levels (level_name k) = Some b" "a \<le> b"
  shows "shouldLog p (level_name k)"
  using assms by (auto simp: shouldLog_def split: option.splits)

text \<open>An unknown level, which the schema would refuse, silences the logger altogether.\<close>

lemma unknown_level_is_silent:
  "levels (log_level p) = None \<Longrightarrow> logger p l data w = (Inr None, w)"
  by (simp add: logger_def shouldLog_def run_defs split: option.split)

text \<open>The data of a call win over the fields of the logger.\<close>

lemma log_record_get:
  "distinct (map fst data) \<Longrightarrow> obj_get (log_record l data ts) k =
     (if k \<in> fst ` set data then obj_get data k
      else if k = ''timestamp'' then JStr ts else if k = ''level'' then JStr (level_upper l) else JUndef)"
proof -
  assume d: "distinct (map fst data)"
  have "obj_get (fold (\<lambda>(k, v) ob. obj_put k v ob) data ob) k = (if k \<in> fst ` set data then obj_get data k else obj_get ob k)" for ob
    using d
  proof (induction data arbitrary: ob)
    case (Cons a data)
    then show ?case by (cases a) force
  qed simp
  then show ?thesis by (simp add: log_record_def)
qed

end
