(* ===== verification/Spec2Isabelle.thy ===== *)
theory Spec2Isabelle
  imports Saga_Props Outbox_Props Handler_Props Provenance Services Projection_Props Replay_Props
    Dlq_Replay Stock_Props Platform_Flow Typing_Props Process_Props Logger
begin

text \<open>
  Verification development for the event-driven order platform: an HTTP API that accepts
  orders, a transactional outbox with its relay, a Kafka log, an orchestrated saga with four
  domain services and a notification service, a projection into read models with live
  notifications, the replay of events and of dead letters, and the process around them.

  \<^bold>\<open>How the parts interact.\<close>  \<open>POST /orders\<close> (\<open>src/src/app.ts\<close>) calls
  \<open>OrderService.createOrder\<close>, which writes the order and an outbox row in one transaction of
  \<open>DatabaseService\<close>; \<open>OutboxRelay\<close> claims rows under a lease, sends them to Kafka and marks
  them.  Every consumer extends \<open>BaseConsumer\<close>: it parses a message, skips what it has
  handled, retries its handler three times and dead-letters what still fails.  The
  \<open>SagaOrchestrator\<close> turns the events of an order into commands, the domain consumers answer
  the commands with events, the \<open>ProjectionConsumer\<close> stores and applies every event, and
  \<open>EventReplayService\<close> applies stored events again or sends dead letters back.
  \<open>src/src/index.ts\<close> starts and stops all of it.

  \<^bold>\<open>The model of a run\<close> (theory World).  A computation of the program is a function from the
  world to an error or a value and a new world.  The world holds the PostgreSQL tables, the
  Kafka log, the messages shown on the sockets, the clock, the supplies of uuids and random
  numbers, the chaos configuration and the state of the consumers.  Two scripts say for each
  database call and each Kafka call whether it succeeds, is refused, or succeeds while its
  answer is lost, and how long it takes; a theorem over all scripts covers every way in which
  the two can fail.  \<open>withTransaction\<close> keeps a snapshot and rolls back.

  \<^bold>\<open>Theories and sources.\<close>
    \<^item> Prelude: tables as lists of rows, \<open>upsert\<close>, \<open>insert_ignore\<close>, locale \<open>keyed_table\<close>.
      Js_Number, Js_Value, Rounding: doubles as rounded rationals, JavaScript values, JSON and
      dates.  Zod: the schema language.
    \<^item> Contracts, Payloads: \<open>contracts/\<close> and the topics of \<open>config.ts\<close>.  Config, Logger: the rest
      of \<open>config.ts\<close> and \<open>utils/logger.ts\<close>.  Chaos: \<open>chaos/chaos-engine.ts\<close>.
    \<^item> Tables, World, Lease, Db_Outbox, Db_Events, Db_State: \<open>services/database.ts\<close>: the tables, the
      transactions, the lease statements of the two outboxes, the idempotency, event store,
      dead-letter and saga statements, orders, metrics and start-up.
    \<^item> Base_Consumer, Event_Handler: \<open>consumers/base-consumer.ts\<close> and what it guarantees for any
      handler (locale \<open>event_handler\<close>, interpreted for each of the seven consumers).
    \<^item> Domain_Consumers, Services: the five domain consumers and their decision table.
    \<^item> Saga, Saga_Spec, Saga_Props: \<open>saga/saga-orchestrator.ts\<close>, the abstract plan \<open>saga_plan\<close>, the
      state graph \<open>saga_step\<close>, and the refinement between them.
    \<^item> Outbox_Relay, Outbox_Props: \<open>infrastructure/outbox/outbox-relay.ts\<close>, as a class and, cut at
      its awaits, as the step relation \<open>relay_step\<close> of several workers with crashes.
    \<^item> Realtime: \<open>realtime/\<close>.  Read_Model, Projection, Read_Model_Spec, Projection_Props, Stock,
      Stock_Props: \<open>application/projections/projection-consumer.ts\<close>.
    \<^item> Replay, Replay_Props, Dlq_Replay: \<open>replay/event-replay-service.ts\<close>.
    \<^item> Platform, Handler_Props, Provenance: the seven consumers as one type, and what holds of a
      delivery to any of them.
    \<^item> Order_Service, Order_Props: \<open>services/order-service.ts\<close>, \<open>producers/\<close> and the older services of
      \<open>services/\<close>.  Http_Api, Http_Props: \<open>app.ts\<close>.  Process, Process_Props: \<open>index.ts\<close>.
    \<^item> Run_World, Fulfilment, Order_Flow, Fulfilment_Props, Platform_Flow: the consumers at work
      together on one log, and the life of an order across them.
    \<^item> Typing, Typing_Props: the payload schemas of \<open>contracts/events/\<close> as types of the messages and
      of what the sagas remember.
    \<^item> Examples: the concrete worlds of the witnesses.

  \<^bold>\<open>What the lemmas show.\<close>
    \<^item> Frames and invariants: locale \<open>db_relation\<close> (what a computation does to the tables),
      \<open>run_preorder\<close>, \<open>run_calls\<close>, \<open>run_relation\<close> and \<open>run_sends\<close> (what it does to the world), each
      proved once for the combinators and instantiated per component.
    \<^item> The saga: every run realises the plan of its case; the table invariant, the state graph,
      terminal states, a single cancellation, the compensation barrier; and a command that is
      lost when its send is refused.
    \<^item> The outbox: at least once, exclusion by leases, rows only progress, the step relation
      covers \<open>processBatch\<close>; rows and timers that the code loses.
    \<^item> Consumers: outcomes of a delivery, duplicates, the retry schedule, both dead-letter paths,
      provenance of what is sent, the round trip of an emitted event.
    \<^item> The read side: atomic and once, the row of an order as the fold of its events, replays that
      rebuild it, stock that is never lost but counted again by replays.
    \<^item> The API: decision on an order request, an answer to every request, percentiles, health.
    \<^item> The whole: an order on the log is settled as the order and the chaos configuration
      determine, under every fair interleaving of the consumers on the log from this order on; so is
      an order accepted by \<open>POST /orders\<close>.  And no delivery makes an event that breaks the schema of its payload, as
      long as the orders do not; an order that \<open>POST /orders\<close> accepts may.

  \<^bold>\<open>Bounds.\<close>  \<open>retry_loop\<close> and \<open>initialize_loop\<close> recurse on the attempts that are left (three and
  ten, the limits of the source), so no fuel is needed elsewhere.  An order needs at most
  twelve rounds: \<open>steps_left\<close> bounds the steps after each event type, every delivery of an
  open task lowers the sum over the open tasks, and every round reaches one.  Times are
  below 2\^47 milliseconds, some 4400 years, so that \<open>toISOString\<close> has a four-digit year, as
  the envelope schema asks.  Prices and quantities are doubles; exactness is claimed below 2\^53.

  \<^bold>\<open>Not modelled.\<close>  The libraries behind the calls (Express, socket.io's transport, the Kafka
  client and its groups and partitions, the PostgreSQL protocol): they are the scripts, the
  log and the tables of the world.  Query plans, indexes and the text of the DDL: the tables are the records of theory Tables with
  their keys, and \<open>createTables\<close> is its sequence of statements, of which only the seeds change
  a table.  Of the column types, DECIMAL and INT are modelled, and VARCHAR where the value comes
  unchecked from a request or a payload into a NOT NULL column (\<open>text_column\<close>): elsewhere a text
  longer than its column or with a NUL in it, which PostgreSQL refuses, is stored by the model.
  A TIMESTAMP that is written from the text of an event (\<open>occurred_at\<close>) is kept as this text; the
  code reads it back through \<open>new Date\<close> and \<open>toISOString\<close>, which in UTC gives the text back for what
  the platform itself writes, and PostgreSQL refuses a text that is no date.  The sweep that
  \<open>createOrder\<close> triggers without waiting runs to its end at once in \<open>accept_order\<close>; its
  interleavings are runs of \<open>relay_step\<close>.  Calls of the logger inside the components, which only print (theory
  Logger has what they print).  Concurrency inside one process is modelled for the relays,
  whose steps interleave, and for deliveries, which interleave whole; two deliveries to one
  consumer do not overlap, as the client hands a partition's messages over one at a time.
  The parallel starts and stops of \<open>index.ts\<close> run in order, each touching one consumer.
  \<open>src/benchmarks\<close> drives the platform from outside and \<open>src/scripts/generate-charts.js\<close>
  prints a picture; neither is part of it.
\<close>

end
